(* ===== verification/Rc_Prelude.thy ===== *)
theory Rc_Prelude
  imports Main "HOL-Library.Word"
begin

section \<open>Shared vocabulary of the development\<close>

text \<open>
  The types and generic lemmas every component theory uses:
  \<^item> Rust's fixed-width integers as machine words, with the saturating and
    absolute-difference operations the sources call;
  \<^item> \<^verbatim>\<open>Result\<close> as a sum (\<open>Inl\<close> is \<^verbatim>\<open>Err\<close>), with \<^verbatim>\<open>?\<close>,
    \<^verbatim>\<open>map_err\<close> and \<^verbatim>\<open>ok_or\<close>;
  \<^item> \<^verbatim>\<open>to_be_bytes\<close> and \<^verbatim>\<open>from_be_bytes\<close>, and the locale \<open>fixed_codec\<close> with
    the facts a client of a fixed-width encoding needs;
  \<^item> runs of a state machine whose operations are methods with a mutable
    receiver, and the locales \<open>guarded_machine\<close>, \<open>at_most_once\<close> and \<open>fifo_machine\<close>
    for the contracts the program's state machines share.
\<close>

named_theorems result_simps \<open>rewriting fallible computations\<close>
named_theorems wire_simps \<open>lengths, take and drop of encoded fields\<close>

subsection \<open>Machine integers\<close>

type_synonym u8 = "8 word"
type_synonym u16 = "16 word"
type_synonym u32 = "32 word"
type_synonym u64 = "64 word"
type_synonym u128 = "128 word"
type_synonym bytes = "u8 list"

text \<open>
  \<^verbatim>\<open>usize\<close> is a natural number with the 64-bit bound written out where the
  sources saturate.
\<close>

definition usize_max :: nat where
  "usize_max = 18446744073709551615"

definition usize_saturating_add :: "nat \<Rightarrow> nat \<Rightarrow> nat" where
  "usize_saturating_add a b = min (a + b) usize_max"

definition saturating_sub :: "'a::len word \<Rightarrow> 'a word \<Rightarrow> 'a word" where
  "saturating_sub a b = (if b \<le> a then a - b else 0)"

definition saturating_add :: "'a::len word \<Rightarrow> 'a word \<Rightarrow> 'a word" where
  "saturating_add a b = (if unat a + unat b < 2 ^ LENGTH('a) then a + b else - 1)"

definition abs_diff :: "'a::len word \<Rightarrow> 'a word \<Rightarrow> 'a word" where
  "abs_diff a b = (if a < b then b - a else a - b)"

lemma unat_bound: "unat (w :: 'a::len word) < 2 ^ LENGTH('a)"
  by (rule unsigned_less)

lemma unat_u8_bound: "unat (b :: u8) < 256"
  using unat_bound [of b] by simp

lemma unat_saturating_sub: "unat (saturating_sub a b) = unat a - unat b"
  by (simp add: saturating_sub_def unat_sub word_le_nat_alt)

lemma unat_saturating_add_le: "unat (saturating_add a b) \<le> unat a + unat b"
proof (cases "unat a + unat b < 2 ^ LENGTH('a)")
  case True
  then show ?thesis by (simp add: saturating_add_def unat_word_ariths)
next
  case False
  with unat_bound [of "- 1 :: 'a word"] have "unat (- 1 :: 'a word) \<le> unat a + unat b"
    by linarith
  with False show ?thesis by (simp only: saturating_add_def if_False)
qed

lemma saturating_add_one:
  "unat a + 1 < 2 ^ LENGTH('a::len) \<Longrightarrow> unat (saturating_add a (1 :: 'a word)) = unat a + 1"
  by (simp add: saturating_add_def unat_word_ariths)

lemma saturating_add_one_ge: "a \<le> saturating_add a (1 :: 'a::len word)"
proof (cases "unat a + 1 < 2 ^ LENGTH('a)")
  case True
  then show ?thesis by (simp add: word_le_nat_alt saturating_add_one)
next
  case False
  then show ?thesis by (simp add: saturating_add_def)
qed

lemma unat_abs_diff:
  "unat (abs_diff a b) = (if unat a < unat b then unat b - unat a else unat a - unat b)"
  by (simp add: abs_diff_def word_less_nat_alt unat_sub word_le_nat_alt)

subsection \<open>Fallible computations\<close>

fun and_then :: "'e + 'a \<Rightarrow> ('a \<Rightarrow> 'e + 'b) \<Rightarrow> 'e + 'b" where
  "and_then (Inl e) f = Inl e"
| "and_then (Inr x) f = f x"

fun map_err :: "('e \<Rightarrow> 'f) \<Rightarrow> 'e + 'a \<Rightarrow> 'f + 'a" where
  "map_err g (Inl e) = Inl (g e)"
| "map_err g (Inr x) = Inr x"

fun map_ok :: "('a \<Rightarrow> 'b) \<Rightarrow> 'e + 'a \<Rightarrow> 'e + 'b" where
  "map_ok g (Inl e) = Inl e"
| "map_ok g (Inr x) = Inr (g x)"

fun ok_or :: "'e \<Rightarrow> 'a option \<Rightarrow> 'e + 'a" where
  "ok_or e None = Inl e"
| "ok_or e (Some x) = Inr x"

fun is_ok :: "'e + 'a \<Rightarrow> bool" where
  "is_ok (Inl e) = False"
| "is_ok (Inr x) = True"

lemma and_then_eq_Inr [result_simps]:
  "and_then r f = Inr y \<longleftrightarrow> (\<exists>x. r = Inr x \<and> f x = Inr y)"
  by (cases r) auto

lemma map_err_eq_Inr [simp]: "map_err g r = Inr x \<longleftrightarrow> r = Inr x"
  by (cases r) auto

lemma map_ok_eq_Inr [result_simps]: "map_ok g r = Inr y \<longleftrightarrow> (\<exists>x. r = Inr x \<and> y = g x)"
  by (cases r) auto

lemma ok_or_eq_Inr [simp]: "ok_or e r = Inr x \<longleftrightarrow> r = Some x"
  by (cases r) auto

lemma if_Inl_eq_Inr [result_simps]: "(if c then Inl e else r) = Inr x \<longleftrightarrow> \<not> c \<and> r = Inr x"
  by simp

lemma is_ok_iff: "is_ok r \<longleftrightarrow> (\<exists>x. r = Inr x)"
  by (cases r) auto

text \<open>A chain \<^verbatim>\<open>w.f()?.g()?...\<close> of fallible builder calls.\<close>

fun try_chain :: "('w \<Rightarrow> 'e + 'w) list \<Rightarrow> 'w \<Rightarrow> 'e + 'w" where
  "try_chain [] w = Inr w"
| "try_chain (f # fs) w = and_then (f w) (try_chain fs)"

subsection \<open>Strings as bytes\<close>

text \<open>
  A Rust \<^verbatim>\<open>String\<close> is its UTF-8 byte sequence, one \<^typ>\<open>char\<close> per byte.
  \<open>str_bytes\<close> is \<^verbatim>\<open>as_bytes\<close>.
\<close>

definition str_bytes :: "string \<Rightarrow> bytes" where
  "str_bytes s = map (\<lambda>c. of_char c) s"

definition bytes_str :: "bytes \<Rightarrow> string" where
  "bytes_str bs = map (\<lambda>b. char_of (unat b)) bs"

lemma unat_of_char: "unat (of_char c :: u8) = of_char c"
proof -
  have "of_char c = (of_nat (of_char c) :: u8)"
    by (simp add: of_nat_of_char)
  moreover have "(of_char c :: nat) < 256"
    using of_char_mod_256 [of c, where 'a = nat] by (metis mod_less_divisor zero_less_numeral)
  ultimately show ?thesis by (simp add: unat_of_nat)
qed

lemma char_of_unat_of_char [simp]: "char_of (unat (of_char c :: u8)) = c"
  by (simp add: unat_of_char)

lemma of_char_char_of_unat [simp]: "(of_char (char_of (unat b)) :: u8) = b"
proof -
  have "(of_char (char_of (unat b)) :: u8) = of_nat (of_char (char_of (unat b)))"
    by (rule of_nat_of_char [symmetric])
  also have "\<dots> = of_nat (unat b mod 256)"
    by (simp only: of_char_of)
  also have "\<dots> = b"
    using unat_u8_bound [of b] by simp
  finally show ?thesis .
qed

lemma bytes_str_str_bytes [simp]: "bytes_str (str_bytes s) = s"
  by (simp add: bytes_str_def str_bytes_def comp_def)

lemma str_bytes_bytes_str [simp]: "str_bytes (bytes_str bs) = bs"
  by (simp add: bytes_str_def str_bytes_def comp_def)

lemma str_bytes_inject [simp]: "str_bytes s = str_bytes t \<longleftrightarrow> s = t"
  by (metis bytes_str_str_bytes)

lemma length_str_bytes [simp]: "length (str_bytes s) = length s"
  by (simp add: str_bytes_def)

lemma str_bytes_eq_Nil [simp]: "str_bytes s = [] \<longleftrightarrow> s = []"
  by (simp add: str_bytes_def)

subsection \<open>Big-endian integers\<close>

fun be_enc :: "nat \<Rightarrow> nat \<Rightarrow> bytes" where
  "be_enc 0 v = []"
| "be_enc (Suc n) v = be_enc n (v div 256) @ [of_nat v]"

definition be_dec :: "bytes \<Rightarrow> nat" where
  "be_dec bs = foldl (\<lambda>acc b. acc * 256 + unat b) 0 bs"

lemma length_be_enc [simp, wire_simps]: "length (be_enc n v) = n"
  by (induction n arbitrary: v) auto

lemma be_dec_snoc [simp]: "be_dec (bs @ [b]) = be_dec bs * 256 + unat b"
  by (simp add: be_dec_def)

lemma be_dec_Nil [simp]: "be_dec [] = 0"
  by (simp add: be_dec_def)

lemma be_dec_enc: "v < 256 ^ n \<Longrightarrow> be_dec (be_enc n v) = v"
proof (induction n arbitrary: v)
  case 0
  then show ?case by simp
next
  case (Suc n)
  then have "v div 256 < 256 ^ n"
    by (simp add: less_mult_imp_div_less mult.commute)
  then have "be_dec (be_enc n (v div 256)) = v div 256"
    by (rule Suc.IH)
  moreover have "unat (of_nat v :: u8) = v mod 256"
    by (simp add: unat_of_nat)
  ultimately show ?case by simp
qed

lemma be_dec_less: "be_dec bs < 256 ^ length bs"
proof (induction bs rule: rev_induct)
  case Nil
  then show ?case by simp
next
  case (snoc b bs)
  have "unat b < 256" by (rule unat_u8_bound)
  with snoc show ?case by simp
qed

lemma be_enc_dec: "be_enc (length bs) (be_dec bs) = bs"
proof (induction bs rule: rev_induct)
  case Nil
  then show ?case by simp
next
  case (snoc b bs)
  have b: "unat b < 256" by (rule unat_u8_bound)
  have "(of_nat (be_dec bs * 256 + unat b) :: u8) = of_nat (be_dec bs) * 256 + b"
    by simp
  also have "\<dots> = b"
  proof -
    have zero: "(256 :: u8) = 0" by simp
    show ?thesis by (subst zero) simp
  qed
  finally show ?case using b snoc by simp
qed

definition to_be_bytes :: "'a::len word \<Rightarrow> bytes" where
  "to_be_bytes w = be_enc (LENGTH('a) div 8) (unat w)"

definition from_be_bytes :: "bytes \<Rightarrow> 'a::len word" where
  "from_be_bytes bs = of_nat (be_dec bs)"

subsection \<open>The contract of a fixed-width encoding\<close>

locale fixed_codec =
  fixes enc :: "'a \<Rightarrow> bytes"
    and dec :: "bytes \<Rightarrow> 'a"
    and width :: nat
  assumes enc_length: "length (enc a) = width"
    and dec_enc: "dec (enc a) = a"
    and enc_dec: "length bs = width \<Longrightarrow> enc (dec bs) = bs"
begin

lemma enc_inject: "enc a = enc b \<longleftrightarrow> a = b"
  using dec_enc by metis

lemma enc_append_inject: "enc a @ xs = enc b @ ys \<longleftrightarrow> a = b \<and> xs = ys"
  by (auto simp: enc_length enc_inject)

lemma take_enc: "take width (enc a @ xs) = enc a"
  by (simp add: enc_length)

lemma drop_enc: "drop width (enc a @ xs) = xs"
  by (simp add: enc_length)

lemma dec_take: "dec (take width (enc a @ xs)) = a"
  by (simp only: take_enc dec_enc)

lemma dec_inject:
  assumes "length bs = width" "length cs = width"
  shows "dec bs = dec cs \<longleftrightarrow> bs = cs"
  using assms enc_dec by metis

end

lemma to_be_bytes_codec:
  fixes w :: "'a::len word"
  assumes "8 dvd LENGTH('a)"
  shows "length (to_be_bytes w) = LENGTH('a) div 8"
    and "from_be_bytes (to_be_bytes w) = w"
    and "length bs = LENGTH('a) div 8 \<Longrightarrow> to_be_bytes (from_be_bytes bs :: 'a word) = bs"
proof -
  from assms obtain k where k: "LENGTH('a) = 8 * k" by auto
  then have pow: "(2::nat) ^ LENGTH('a) = 256 ^ (LENGTH('a) div 8)"
    by (simp add: power_mult)
  show "length (to_be_bytes w) = LENGTH('a) div 8"
    by (simp add: to_be_bytes_def)
  show "from_be_bytes (to_be_bytes w) = w"
    using unat_bound [of w] by (simp add: to_be_bytes_def from_be_bytes_def be_dec_enc pow)
  assume len: "length bs = LENGTH('a) div 8"
  then have "be_dec bs < 2 ^ LENGTH('a)"
    using be_dec_less [of bs] by (simp add: pow)
  then show "to_be_bytes (from_be_bytes bs :: 'a word) = bs"
    using be_enc_dec [of bs] len
    by (simp add: to_be_bytes_def from_be_bytes_def unat_of_nat)
qed

interpretation be16: fixed_codec "to_be_bytes :: u16 \<Rightarrow> bytes" from_be_bytes 2
  by unfold_locales (use to_be_bytes_codec [where 'a = 16] in simp_all)

interpretation be32: fixed_codec "to_be_bytes :: u32 \<Rightarrow> bytes" from_be_bytes 4
  by unfold_locales (use to_be_bytes_codec [where 'a = 32] in simp_all)

interpretation be64: fixed_codec "to_be_bytes :: u64 \<Rightarrow> bytes" from_be_bytes 8
  by unfold_locales (use to_be_bytes_codec [where 'a = 64] in simp_all)

interpretation be128: fixed_codec "to_be_bytes :: u128 \<Rightarrow> bytes" from_be_bytes 16
  by unfold_locales (use to_be_bytes_codec [where 'a = 128] in simp_all)

lemmas be_length [simp, wire_simps] =
  be16.enc_length be32.enc_length be64.enc_length be128.enc_length

lemmas be_dec_enc_word [simp, wire_simps] =
  be16.dec_enc be32.dec_enc be64.dec_enc be128.dec_enc

lemmas be_inject [simp] =
  be16.enc_inject be32.enc_inject be64.enc_inject be128.enc_inject

subsection \<open>Slices\<close>

text \<open>\<^verbatim>\<open>&xs[i..j]\<close>, used only where the bounds were checked before.\<close>

definition slice :: "nat \<Rightarrow> nat \<Rightarrow> 'a list \<Rightarrow> 'a list" where
  "slice i j xs = take (j - i) (drop i xs)"

lemma length_slice [simp, wire_simps]: "j \<le> length xs \<Longrightarrow> length (slice i j xs) = j - i"
  by (auto simp: slice_def)

lemma slice_pair: "Suc i < length xs \<Longrightarrow> [xs ! i, xs ! Suc i] = slice i (i + 2) xs"
  by (simp add: slice_def Cons_nth_drop_Suc [symmetric] numeral_2_eq_2)

lemma slice_skip [wire_simps]:
  "length a \<le> i \<Longrightarrow> slice i j (a @ b) = slice (i - length a) (j - length a) b"
  by (simp add: slice_def)

lemma slice_hit [wire_simps]: "length a = j \<Longrightarrow> slice 0 j (a @ b) = a"
  by (simp add: slice_def)

lemma slice_all [wire_simps]: "length a = j \<Longrightarrow> slice 0 j a = a"
  by (simp add: slice_def)

lemma slice_join: "i \<le> j \<Longrightarrow> j \<le> k \<Longrightarrow> slice i j xs @ slice j k xs = slice i k xs"
proof -
  assume "i \<le> j" "j \<le> k"
  then have "slice j k xs = take (k - j) (drop (j - i) (drop i xs))"
    by (simp add: slice_def)
  moreover have "k - i = (j - i) + (k - j)"
    using \<open>i \<le> j\<close> \<open>j \<le> k\<close> by simp
  ultimately show ?thesis by (simp add: slice_def take_add)
qed

lemma slice_0: "slice 0 j xs = take j xs"
  by (simp add: slice_def)

subsection \<open>Runs of a state machine\<close>

text \<open>
  A method with a mutable receiver takes the state and returns its result and the
  new state, also when the result is an error. A run applies a list of calls in
  order and collects every call with its result.
\<close>

fun run_ops :: "('s \<Rightarrow> 'op \<Rightarrow> 'r \<times> 's) \<Rightarrow> 's \<Rightarrow> 'op list \<Rightarrow> ('op \<times> 'r) list \<times> 's" where
  "run_ops step s [] = ([], s)"
| "run_ops step s (x # xs) =
     (let (r, s') = step s x; (rs, s'') = run_ops step s' xs in ((x, r) # rs, s''))"

lemma run_ops_Cons_simp:
  "run_ops step s (x # xs) =
    ((x, fst (step s x)) # fst (run_ops step (snd (step s x)) xs),
     snd (run_ops step (snd (step s x)) xs))"
  by (simp add: split_beta)

lemma run_ops_append:
  "snd (run_ops step s (xs @ ys)) = snd (run_ops step (snd (run_ops step s xs)) ys)"
  by (induction xs arbitrary: s) (simp_all add: split_beta)

lemma run_snoc:
  "run_ops step s (xs @ [x]) =
    (fst (run_ops step s xs) @ [(x, fst (step (snd (run_ops step s xs)) x))], snd (step (snd (run_ops step s xs)) x))"
  by (induction xs arbitrary: s) (simp_all add: case_prod_beta)

text \<open>Every result of a run was produced in a state that an earlier part of the run led to.\<close>

lemma run_ops_member:
  "(x, r) \<in> set (fst (run_ops step s xs)) \<Longrightarrow>
    \<exists>n < length xs. xs ! n = x \<and> r = fst (step (snd (run_ops step s (take n xs))) x)"
proof (induction xs arbitrary: s)
  case Nil
  then show ?case by simp
next
  case (Cons y xs)
  then consider "x = y" "r = fst (step s y)"
    | "(x, r) \<in> set (fst (run_ops step (snd (step s y)) xs))"
    by (auto simp: run_ops_Cons_simp simp del: run_ops.simps(2))
  then show ?case
  proof cases
    case 1
    then show ?thesis by (intro exI [of _ 0]) simp
  next
    case 2
    with Cons.IH obtain n where "n < length xs" "xs ! n = x"
      "r = fst (step (snd (run_ops step (snd (step s y)) (take n xs))) x)" by blast
    then show ?thesis
      by (intro exI [of _ "Suc n"]) (simp add: run_ops_Cons_simp del: run_ops.simps(2))
  qed
qed

lemma run_ops_take_prefix:
  "fst (run_ops step s (take n xs)) = take n (fst (run_ops step s xs))"
proof (induction xs arbitrary: s n)
  case Nil
  then show ?case by simp
next
  case (Cons x xs)
  then show ?case by (cases n) (simp_all add: run_ops_Cons_simp del: run_ops.simps(2))
qed

lemma run_ops_nth:
  "n < length xs \<Longrightarrow> fst (run_ops step s xs) ! n =
    (xs ! n, fst (step (snd (run_ops step s (take n xs))) (xs ! n)))"
proof (induction xs arbitrary: s n)
  case Nil
  then show ?case by simp
next
  case (Cons x xs)
  then show ?case by (cases n) (simp_all add: run_ops_Cons_simp del: run_ops.simps(2))
qed

lemma length_run_ops [simp]: "length (fst (run_ops step s xs)) = length xs"
  by (induction xs arbitrary: s) (simp_all add: split_beta)

locale guarded_machine =
  fixes step :: "'s \<Rightarrow> 'op \<Rightarrow> 'r \<times> 's"
    and inv :: "'s \<Rightarrow> bool"
  assumes step_inv: "inv s \<Longrightarrow> inv (snd (step s x))"
begin

lemma run_inv: "inv s \<Longrightarrow> inv (snd (run_ops step s xs))"
  by (induction xs arbitrary: s) (simp_all add: split_beta step_inv)

lemma run_prefix_inv: "inv s \<Longrightarrow> inv (snd (run_ops step s (take n xs)))"
  by (rule run_inv)

end

text \<open>
  A guard that hands out or accepts keys at most once: \<open>issued x r\<close> is the key that
  call \<open>x\<close> with result \<open>r\<close> uses up, and \<open>spent s\<close> the keys that can no longer be
  used in state \<open>s\<close>.
\<close>

locale at_most_once = guarded_machine step inv
  for step :: "'s \<Rightarrow> 'op \<Rightarrow> 'r \<times> 's"
  and inv :: "'s \<Rightarrow> bool" +
  fixes issued :: "'op \<Rightarrow> 'r \<Rightarrow> 'k option"
    and spent :: "'s \<Rightarrow> 'k set"
  assumes issued_fresh: "inv s \<Longrightarrow> issued x (fst (step s x)) = Some k \<Longrightarrow> k \<notin> spent s"
    and issued_spent: "inv s \<Longrightarrow> issued x (fst (step s x)) = Some k \<Longrightarrow> k \<in> spent (snd (step s x))"
    and spent_mono: "inv s \<Longrightarrow> spent s \<subseteq> spent (snd (step s x))"
begin

definition issued_keys :: "('op \<times> 'r) list \<Rightarrow> 'k list" where
  "issued_keys tr = List.map_filter (\<lambda>(x, r). issued x r) tr"

lemma issued_keys_simps [simp]:
  "issued_keys [] = []"
  "issued_keys ((x, r) # tr) =
     (case issued x r of None \<Rightarrow> issued_keys tr | Some k \<Rightarrow> k # issued_keys tr)"
  by (simp_all add: issued_keys_def List.map_filter_def split: option.split)

lemma run_spent_mono: "inv s \<Longrightarrow> spent s \<subseteq> spent (snd (run_ops step s xs))"
proof (induction xs arbitrary: s)
  case Nil
  then show ?case by simp
next
  case (Cons x xs)
  have "spent s \<subseteq> spent (snd (step s x))"
    using Cons.prems by (rule spent_mono)
  also have "\<dots> \<subseteq> spent (snd (run_ops step (snd (step s x)) xs))"
    by (rule Cons.IH) (rule step_inv [OF Cons.prems])
  finally show ?case by (simp add: split_beta)
qed

lemma run_issued_fresh:
  "inv s \<Longrightarrow> k \<in> set (issued_keys (fst (run_ops step s xs))) \<Longrightarrow> k \<notin> spent s"
proof (induction xs arbitrary: s)
  case Nil
  then show ?case by simp
next
  case (Cons x xs)
  let ?s' = "snd (step s x)"
  have inv': "inv ?s'" by (rule step_inv [OF Cons.prems(1)])
  from Cons.prems(2)
  consider "issued x (fst (step s x)) = Some k"
    | "k \<in> set (issued_keys (fst (run_ops step ?s' xs)))"
    by (auto simp: run_ops_Cons_simp simp del: run_ops.simps split: option.splits)
  then show ?case
  proof cases
    case 1
    then show ?thesis using issued_fresh [OF Cons.prems(1)] by blast
  next
    case 2
    then have "k \<notin> spent ?s'" by (rule Cons.IH [OF inv'])
    then show ?thesis using spent_mono [OF Cons.prems(1)] by blast
  qed
qed

lemma run_issued_distinct: "inv s \<Longrightarrow> distinct (issued_keys (fst (run_ops step s xs)))"
proof (induction xs arbitrary: s)
  case Nil
  then show ?case by simp
next
  case (Cons x xs)
  let ?s' = "snd (step s x)"
  have inv': "inv ?s'" by (rule step_inv [OF Cons.prems(1)])
  have IH: "distinct (issued_keys (fst (run_ops step ?s' xs)))"
    by (rule Cons.IH [OF inv'])
  show ?case
  proof (cases "issued x (fst (step s x))")
    case None
    with IH show ?thesis by (simp add: run_ops_Cons_simp del: run_ops.simps)
  next
    case (Some k)
    then have "k \<in> spent ?s'" by (rule issued_spent [OF Cons.prems(1)])
    then have "k \<notin> set (issued_keys (fst (run_ops step ?s' xs)))"
      using run_issued_fresh [OF inv'] by blast
    with IH Some show ?thesis by (simp add: run_ops_Cons_simp del: run_ops.simps)
  qed
qed

end

text \<open>
  \<open>fifo_machine\<close>: a machine that keeps a sequence of items. Each step appends the items it
  accepts and takes those it delivers from the front, so a whole run delivers exactly what it
  accepted, in order, up to what is still held.
\<close>

locale fifo_machine = guarded_machine step inv
  for step :: "'s \<Rightarrow> 'op \<Rightarrow> 'r \<times> 's"
  and inv :: "'s \<Rightarrow> bool" +
  fixes held :: "'s \<Rightarrow> 'a list"
    and accepted :: "'op \<Rightarrow> 'r \<Rightarrow> 'a list"
    and delivered :: "'op \<Rightarrow> 'r \<Rightarrow> 'a list"
  assumes step_fifo: "inv s \<Longrightarrow>
    held s @ accepted x (fst (step s x)) = delivered x (fst (step s x)) @ held (snd (step s x))"
begin

lemma run_fifo:
  "inv s \<Longrightarrow>
    held s @ concat (map (case_prod accepted) (fst (run_ops step s xs))) =
    concat (map (case_prod delivered) (fst (run_ops step s xs))) @ held (snd (run_ops step s xs))"
proof (induction xs arbitrary: s)
  case Nil
  then show ?case by simp
next
  case (Cons x xs)
  let ?r = "fst (step s x)" and ?s' = "snd (step s x)"
  have "held s @ accepted x ?r @ concat (map (case_prod accepted) (fst (run_ops step ?s' xs))) =
      delivered x ?r @ held ?s' @ concat (map (case_prod accepted) (fst (run_ops step ?s' xs)))"
    using step_fifo [OF Cons.prems, of x] by (metis append.assoc)
  also have "\<dots> = delivered x ?r @ concat (map (case_prod delivered) (fst (run_ops step ?s' xs)))
      @ held (snd (run_ops step ?s' xs))"
    using Cons.IH [OF step_inv [OF Cons.prems], of x] by simp
  finally show ?case by (simp add: run_ops_Cons_simp del: run_ops.simps)
qed

end

end
