(* ===== verification/Rc_Canonical.thy ===== *)
theory Rc_Canonical
  imports Rc_Prelude
begin

section \<open>The canonical writer\<close>

text \<open>
  \<^verbatim>\<open>crates/remote-protocol/src/canonical.rs\<close>, the part every signature, digest and
  key derivation of the program goes through: a sequence of named, length-prefixed
  fields. \<open>canonical_encode\<close> is the specification of a complete writer run over a
  list of fields; \<open>canonical_encode_inject\<close> shows that the bytes determine the field
  list, so two different field lists never collide before hashing.
\<close>

datatype canonical_error =
    NameTooLong
  | ValueTooLong
  | JsonCanonicalization
  | InvalidHttpMethod
  | InvalidRequestTarget

record canonical_writer =
  cw_bytes :: bytes

definition writer_default :: canonical_writer where
  "writer_default = \<lparr>cw_bytes = []\<rparr>"

text \<open>\<^verbatim>\<open>u32::try_from(len)\<close>\<close>

definition u32_try_from :: "nat \<Rightarrow> u32 option" where
  "u32_try_from n = (if n < 2 ^ 32 then Some (of_nat n) else None)"

definition push_field ::
    "string \<Rightarrow> bytes \<Rightarrow> canonical_writer \<Rightarrow> canonical_error + canonical_writer" where
  "push_field name v w =
    and_then (ok_or NameTooLong (u32_try_from (length (str_bytes name)))) (\<lambda>name_len.
    and_then (ok_or ValueTooLong (u32_try_from (length v))) (\<lambda>value_len.
    Inr (w\<lparr>cw_bytes := cw_bytes w @ to_be_bytes name_len @ str_bytes name
            @ to_be_bytes value_len @ v\<rparr>)))"

definition writer_new :: "string \<Rightarrow> canonical_error + canonical_writer" where
  "writer_new domain = push_field ''domain'' (str_bytes domain) writer_default"

definition writer_without_domain :: canonical_writer where
  "writer_without_domain = writer_default"

definition push_str ::
    "string \<Rightarrow> string \<Rightarrow> canonical_writer \<Rightarrow> canonical_error + canonical_writer" where
  "push_str name v w = push_field name (str_bytes v) w"

definition push_optional_str ::
    "string \<Rightarrow> string option \<Rightarrow> canonical_writer \<Rightarrow> canonical_error + canonical_writer" where
  "push_optional_str name v w =
    push_field name (str_bytes (case v of None \<Rightarrow> [] | Some s \<Rightarrow> s)) w"

definition push_bool ::
    "string \<Rightarrow> bool \<Rightarrow> canonical_writer \<Rightarrow> canonical_error + canonical_writer" where
  "push_bool name v w = push_field name [if v then 1 else 0] w"

definition push_u16 ::
    "string \<Rightarrow> u16 \<Rightarrow> canonical_writer \<Rightarrow> canonical_error + canonical_writer" where
  "push_u16 name v w = push_field name (to_be_bytes v) w"

definition push_u32 ::
    "string \<Rightarrow> u32 \<Rightarrow> canonical_writer \<Rightarrow> canonical_error + canonical_writer" where
  "push_u32 name v w = push_field name (to_be_bytes v) w"

definition push_u64 ::
    "string \<Rightarrow> u64 \<Rightarrow> canonical_writer \<Rightarrow> canonical_error + canonical_writer" where
  "push_u64 name v w = push_field name (to_be_bytes v) w"

definition push_u128 ::
    "string \<Rightarrow> u128 \<Rightarrow> canonical_writer \<Rightarrow> canonical_error + canonical_writer" where
  "push_u128 name v w = push_field name (to_be_bytes v) w"

definition finish :: "canonical_writer \<Rightarrow> bytes" where
  "finish w = cw_bytes w"

lemmas push_defs = push_str_def push_optional_str_def push_bool_def push_u16_def push_u32_def
  push_u64_def push_u128_def

subsection \<open>The specification: a list of fields\<close>

type_synonym field_list = "(string \<times> bytes) list"

definition field_fits :: "string \<times> bytes \<Rightarrow> bool" where
  "field_fits f \<longleftrightarrow> length (fst f) < 2 ^ 32 \<and> length (snd f) < 2 ^ 32"

definition field_bytes :: "string \<times> bytes \<Rightarrow> bytes" where
  "field_bytes f =
    to_be_bytes (of_nat (length (fst f)) :: u32) @ str_bytes (fst f)
    @ to_be_bytes (of_nat (length (snd f)) :: u32) @ snd f"

definition fields_bytes :: "field_list \<Rightarrow> bytes" where
  "fields_bytes fs = concat (map field_bytes fs)"

definition canonical_encode :: "field_list \<Rightarrow> canonical_error + bytes" where
  "canonical_encode fs =
    map_ok finish (try_chain (map (\<lambda>(n, v). push_field n v) fs) writer_default)"

text \<open>The optional strings of the sources: an absent value is written as an empty one.\<close>

definition opt_bytes :: "string option \<Rightarrow> bytes" where
  "opt_bytes v = str_bytes (case v of None \<Rightarrow> [] | Some s \<Rightarrow> s)"

lemma push_field_ok:
  "push_field n v w = Inr w' \<longleftrightarrow>
    field_fits (n, v) \<and> w' = w\<lparr>cw_bytes := cw_bytes w @ field_bytes (n, v)\<rparr>"
  by (auto simp: push_field_def u32_try_from_def field_fits_def field_bytes_def result_simps)

lemma try_chain_push:
  "try_chain (map (\<lambda>(n, v). push_field n v) fs) w = Inr w' \<longleftrightarrow>
    (\<forall>f \<in> set fs. field_fits f) \<and> w' = w\<lparr>cw_bytes := cw_bytes w @ fields_bytes fs\<rparr>"
  by (induction fs arbitrary: w) (auto simp: push_field_ok fields_bytes_def result_simps)

lemma canonical_encode_ok:
  "canonical_encode fs = Inr bs \<longleftrightarrow> (\<forall>f \<in> set fs. field_fits f) \<and> bs = fields_bytes fs"
  by (auto simp: canonical_encode_def finish_def writer_default_def try_chain_push result_simps)

text \<open>
  A chain of pushes on a new writer is \<open>canonical_encode\<close> on the list of its fields;
  this is how every user of the writer is related to its field list.
\<close>

lemma writer_new_chain:
  "map_ok finish (and_then (writer_new d) (try_chain (map (\<lambda>(n, v). push_field n v) fs))) =
    canonical_encode ((''domain'', str_bytes d) # fs)"
  by (simp add: canonical_encode_def writer_new_def)

subsection \<open>Injectivity\<close>

lemma prefixed_inject:
  assumes "length a < 2 ^ 32" "length b < 2 ^ 32"
  shows "to_be_bytes (of_nat (length a) :: u32) @ a @ r = to_be_bytes (of_nat (length b) :: u32) @ b @ s
    \<longleftrightarrow> a = b \<and> r = s"
proof
  assume "to_be_bytes (of_nat (length a) :: u32) @ a @ r = to_be_bytes (of_nat (length b) :: u32) @ b @ s"
  then have w: "(of_nat (length a) :: u32) = of_nat (length b)" and rest: "a @ r = b @ s"
    by (simp_all only: be32.enc_append_inject)
  from w have "unat (of_nat (length a) :: u32) = unat (of_nat (length b) :: u32)"
    by simp
  with assms have "length a = length b"
    by (simp add: unat_of_nat)
  with rest show "a = b \<and> r = s" by simp
qed simp

lemma field_bytes_append_inject:
  assumes "field_fits f" "field_fits g"
  shows "field_bytes f @ r = field_bytes g @ s \<longleftrightarrow> f = g \<and> r = s"
  using assms prefixed_inject [of "str_bytes (fst f)" "str_bytes (fst g)"]
    prefixed_inject [of "snd f" "snd g" r s]
  by (cases f; cases g) (auto simp: field_fits_def field_bytes_def)

lemma field_bytes_not_Nil: "field_bytes f \<noteq> []"
proof -
  have "4 \<le> length (field_bytes f)" by (simp add: field_bytes_def)
  then show ?thesis by force
qed

lemma fields_bytes_inject:
  assumes "\<forall>f \<in> set fs. field_fits f" "\<forall>g \<in> set gs. field_fits g"
    and "fields_bytes fs = fields_bytes gs"
  shows "fs = gs"
  using assms
proof (induction fs gs rule: list_induct2')
  case (4 f fs g gs)
  then have "field_bytes f @ fields_bytes fs = field_bytes g @ fields_bytes gs"
    by (simp add: fields_bytes_def)
  with 4 show ?case by (simp add: field_bytes_append_inject)
qed (auto simp: fields_bytes_def field_bytes_not_Nil)

lemma canonical_encode_inject:
  assumes "canonical_encode fs = Inr bs" "canonical_encode gs = Inr bs"
  shows "fs = gs"
  using assms by (auto simp: canonical_encode_ok intro: fields_bytes_inject)

lemma canonical_encode_total:
  "(\<forall>f \<in> set fs. field_fits f) \<Longrightarrow> canonical_encode fs = Inr (fields_bytes fs)"
  by (simp add: canonical_encode_ok)

end
