(* ===== verification/Rc_Header.thy ===== *)
theory Rc_Header
  imports Rc_Prelude
begin

section \<open>The 40-byte message header\<close>

text \<open>
  \<^verbatim>\<open>crates/remote-protocol/src/header.rs\<close>: the channels, the message kinds, the
  channel every kind may travel on, and the wire form of the header. The lemmas show
  that the two \<^verbatim>\<open>TryFrom<u16>\<close> implementations invert the discriminants, and that
  \<open>encode_header\<close> and \<open>decode_header\<close> are inverse to each other on the headers the
  decoder accepts.
\<close>

subsection \<open>Channels and message kinds\<close>

datatype channel_id =
    SecureControl
  | InputReliable
  | InputRealtime
  | MediaControl
  | Video
  | Clipboard
  | FileTransfer
  | DeviceControl
  | Telemetry

datatype message_kind =
    KeyExchangeMessage
  | KeyConfirm
  | MediaCapabilities
  | MediaConfigRequest
  | MediaConfigState
  | MediaQualityRequest
  | MediaQualityState
  | KeyframeRequest
  | VideoFrameInfo
  | VideoFrameData
  | InputEvent
  | ClipboardPermissionRequest
  | ClipboardPermissionState
  | ClipboardText
  | DisplayList
  | DisplaySelect
  | DisplayChanged
  | FileTransferRequest
  | FileTransferAck
  | FileChunk
  | FileTransferCancel
  | PrivacyModeRequest
  | PrivacyModeState
  | PrivacyModeRestore
  | RebootRequest
  | RebootState
  | RebootCancel
  | RebootResumeHint
  | Stats
  | ErrorReport

datatype protocol_error =
    InvalidMagic
  | IncompleteHeader
  | UnsupportedVersion u16
  | PayloadTooLarge
  | UnknownMessageKind u16
  | UnknownChannel u16
  | InvalidChannel message_kind channel_id
  | SequenceExhausted

fun channel_code :: "channel_id \<Rightarrow> u16" where
  "channel_code SecureControl = 0"
| "channel_code InputReliable = 1"
| "channel_code InputRealtime = 2"
| "channel_code MediaControl = 3"
| "channel_code Video = 4"
| "channel_code Clipboard = 5"
| "channel_code FileTransfer = 6"
| "channel_code DeviceControl = 7"
| "channel_code Telemetry = 8"

definition channel_id_try_from :: "u16 \<Rightarrow> protocol_error + channel_id" where
  "channel_id_try_from v =
    (if v = 0 then Inr SecureControl
     else if v = 1 then Inr InputReliable
     else if v = 2 then Inr InputRealtime
     else if v = 3 then Inr MediaControl
     else if v = 4 then Inr Video
     else if v = 5 then Inr Clipboard
     else if v = 6 then Inr FileTransfer
     else if v = 7 then Inr DeviceControl
     else if v = 8 then Inr Telemetry
     else Inl (UnknownChannel v))"

fun kind_code :: "message_kind \<Rightarrow> u16" where
  "kind_code KeyExchangeMessage = 0x0001"
| "kind_code KeyConfirm = 0x0002"
| "kind_code MediaCapabilities = 0x0100"
| "kind_code MediaConfigRequest = 0x0101"
| "kind_code MediaConfigState = 0x0102"
| "kind_code MediaQualityRequest = 0x0103"
| "kind_code MediaQualityState = 0x0104"
| "kind_code KeyframeRequest = 0x0105"
| "kind_code VideoFrameInfo = 0x0110"
| "kind_code VideoFrameData = 0x0111"
| "kind_code InputEvent = 0x0200"
| "kind_code ClipboardPermissionRequest = 0x0300"
| "kind_code ClipboardPermissionState = 0x0301"
| "kind_code ClipboardText = 0x0302"
| "kind_code DisplayList = 0x0400"
| "kind_code DisplaySelect = 0x0401"
| "kind_code DisplayChanged = 0x0402"
| "kind_code FileTransferRequest = 0x0500"
| "kind_code FileTransferAck = 0x0501"
| "kind_code FileChunk = 0x0502"
| "kind_code FileTransferCancel = 0x0503"
| "kind_code PrivacyModeRequest = 0x0600"
| "kind_code PrivacyModeState = 0x0601"
| "kind_code PrivacyModeRestore = 0x0602"
| "kind_code RebootRequest = 0x0700"
| "kind_code RebootState = 0x0701"
| "kind_code RebootCancel = 0x0702"
| "kind_code RebootResumeHint = 0x0703"
| "kind_code Stats = 0x0800"
| "kind_code ErrorReport = 0xffff"

definition message_kind_try_from :: "u16 \<Rightarrow> protocol_error + message_kind" where
  "message_kind_try_from v =
    (if v = 0x0001 then Inr KeyExchangeMessage
     else if v = 0x0002 then Inr KeyConfirm
     else if v = 0x0100 then Inr MediaCapabilities
     else if v = 0x0101 then Inr MediaConfigRequest
     else if v = 0x0102 then Inr MediaConfigState
     else if v = 0x0103 then Inr MediaQualityRequest
     else if v = 0x0104 then Inr MediaQualityState
     else if v = 0x0105 then Inr KeyframeRequest
     else if v = 0x0110 then Inr VideoFrameInfo
     else if v = 0x0111 then Inr VideoFrameData
     else if v = 0x0200 then Inr InputEvent
     else if v = 0x0300 then Inr ClipboardPermissionRequest
     else if v = 0x0301 then Inr ClipboardPermissionState
     else if v = 0x0302 then Inr ClipboardText
     else if v = 0x0400 then Inr DisplayList
     else if v = 0x0401 then Inr DisplaySelect
     else if v = 0x0402 then Inr DisplayChanged
     else if v = 0x0500 then Inr FileTransferRequest
     else if v = 0x0501 then Inr FileTransferAck
     else if v = 0x0502 then Inr FileChunk
     else if v = 0x0503 then Inr FileTransferCancel
     else if v = 0x0600 then Inr PrivacyModeRequest
     else if v = 0x0601 then Inr PrivacyModeState
     else if v = 0x0602 then Inr PrivacyModeRestore
     else if v = 0x0700 then Inr RebootRequest
     else if v = 0x0701 then Inr RebootState
     else if v = 0x0702 then Inr RebootCancel
     else if v = 0x0703 then Inr RebootResumeHint
     else if v = 0x0800 then Inr Stats
     else if v = 0xffff then Inr ErrorReport
     else Inl (UnknownMessageKind v))"

fun default_channel :: "message_kind \<Rightarrow> channel_id" where
  "default_channel KeyExchangeMessage = SecureControl"
| "default_channel KeyConfirm = SecureControl"
| "default_channel ErrorReport = SecureControl"
| "default_channel MediaCapabilities = MediaControl"
| "default_channel MediaConfigRequest = MediaControl"
| "default_channel MediaConfigState = MediaControl"
| "default_channel MediaQualityRequest = MediaControl"
| "default_channel MediaQualityState = MediaControl"
| "default_channel KeyframeRequest = MediaControl"
| "default_channel VideoFrameInfo = Video"
| "default_channel VideoFrameData = Video"
| "default_channel InputEvent = InputReliable"
| "default_channel ClipboardPermissionRequest = Clipboard"
| "default_channel ClipboardPermissionState = Clipboard"
| "default_channel ClipboardText = Clipboard"
| "default_channel FileTransferRequest = FileTransfer"
| "default_channel FileTransferAck = FileTransfer"
| "default_channel FileChunk = FileTransfer"
| "default_channel FileTransferCancel = FileTransfer"
| "default_channel DisplayList = DeviceControl"
| "default_channel DisplaySelect = DeviceControl"
| "default_channel DisplayChanged = DeviceControl"
| "default_channel PrivacyModeRequest = DeviceControl"
| "default_channel PrivacyModeState = DeviceControl"
| "default_channel PrivacyModeRestore = DeviceControl"
| "default_channel RebootRequest = DeviceControl"
| "default_channel RebootState = DeviceControl"
| "default_channel RebootCancel = DeviceControl"
| "default_channel RebootResumeHint = DeviceControl"
| "default_channel Stats = Telemetry"

definition kind_accepts_channel :: "message_kind \<Rightarrow> channel_id \<Rightarrow> bool" where
  "kind_accepts_channel k c =
    (if k = InputEvent then c = InputReliable \<or> c = InputRealtime
     else channel_code (default_channel k) = channel_code c)"

subsection \<open>The header and its wire form\<close>

definition PROTOCOL_VERSION :: u16 where
  "PROTOCOL_VERSION = 1"

definition HEADER_LEN :: nat where
  "HEADER_LEN = 40"

definition MAX_SECURE_SEQUENCE :: u64 where
  "MAX_SECURE_SEQUENCE = push_bit 48 1 - 1"

definition MAGIC :: bytes where
  "MAGIC = str_bytes ''RCTL''"

record message_header =
  h_version :: u16
  h_kind :: message_kind
  h_flags :: u16
  h_channel_id :: channel_id
  h_session_id :: u128
  h_sequence :: u64
  h_payload_len :: u32

definition header_new :: "message_kind \<Rightarrow> u128 \<Rightarrow> u64 \<Rightarrow> u32 \<Rightarrow> message_header" where
  "header_new kind session_id sequence payload_len =
    \<lparr>h_version = PROTOCOL_VERSION, h_kind = kind, h_flags = 0,
     h_channel_id = default_channel kind, h_session_id = session_id,
     h_sequence = sequence, h_payload_len = payload_len\<rparr>"

definition validate_kind_channel :: "message_header \<Rightarrow> protocol_error + unit" where
  "validate_kind_channel h =
    (if kind_accepts_channel (h_kind h) (h_channel_id h) then Inr ()
     else Inl (InvalidChannel (h_kind h) (h_channel_id h)))"

definition header_new_on_channel ::
    "message_kind \<Rightarrow> channel_id \<Rightarrow> u128 \<Rightarrow> u64 \<Rightarrow> u32 \<Rightarrow> protocol_error + message_header" where
  "header_new_on_channel kind channel session_id sequence payload_len =
    (let header = (header_new kind session_id sequence payload_len)\<lparr>h_channel_id := channel\<rparr>
     in and_then (validate_kind_channel header) (\<lambda>_. Inr header))"

definition encode_header :: "message_header \<Rightarrow> bytes" where
  "encode_header h =
    MAGIC @ to_be_bytes (h_version h) @ to_be_bytes (kind_code (h_kind h))
    @ to_be_bytes (h_flags h) @ to_be_bytes (channel_code (h_channel_id h))
    @ to_be_bytes (h_session_id h) @ to_be_bytes (h_sequence h)
    @ to_be_bytes (h_payload_len h)"

definition decode_header :: "bytes \<Rightarrow> protocol_error + message_header" where
  "decode_header input =
    (if length input < HEADER_LEN then Inl IncompleteHeader
     else if slice 0 4 input \<noteq> MAGIC then Inl InvalidMagic
     else
       let version = from_be_bytes [input ! 4, input ! 5] in
       if version \<noteq> PROTOCOL_VERSION then Inl (UnsupportedVersion version)
       else
         and_then (message_kind_try_from (from_be_bytes [input ! 6, input ! 7])) (\<lambda>kind.
         and_then (channel_id_try_from (from_be_bytes [input ! 10, input ! 11])) (\<lambda>channel_id.
         let header =
           \<lparr>h_version = version, h_kind = kind,
            h_flags = from_be_bytes [input ! 8, input ! 9],
            h_channel_id = channel_id,
            h_session_id = from_be_bytes (slice 12 28 input),
            h_sequence = from_be_bytes (slice 28 36 input),
            h_payload_len = from_be_bytes (slice 36 40 input)\<rparr>
         in and_then (validate_kind_channel header) (\<lambda>_. Inr header))))"

subsection \<open>Discriminants\<close>

lemma message_kind_roundtrip [simp]: "message_kind_try_from (kind_code k) = Inr k"
  by (cases k) (simp_all add: message_kind_try_from_def)

lemma message_kind_try_from_code: "message_kind_try_from v = Inr k \<Longrightarrow> kind_code k = v"
  by (auto simp: message_kind_try_from_def split: if_splits)

lemma channel_id_roundtrip [simp]: "channel_id_try_from (channel_code c) = Inr c"
  by (cases c) (simp_all add: channel_id_try_from_def)

lemma channel_id_try_from_code: "channel_id_try_from v = Inr c \<Longrightarrow> channel_code c = v"
  by (auto simp: channel_id_try_from_def split: if_splits)

lemma channel_code_inject [simp]: "channel_code c = channel_code d \<longleftrightarrow> c = d"
  by (metis channel_id_roundtrip sum.inject(2))

lemma kind_code_inject [simp]: "kind_code k = kind_code l \<longleftrightarrow> k = l"
  by (metis message_kind_roundtrip sum.inject(2))

lemma default_channel_accepted [simp]: "kind_accepts_channel k (default_channel k)"
  by (simp add: kind_accepts_channel_def)

text \<open>\<open>InputEvent\<close> is the only kind with two channels.\<close>

lemma kind_accepts_channel_iff:
  "kind_accepts_channel k c \<longleftrightarrow>
    c = default_channel k \<or> (k = InputEvent \<and> c = InputRealtime)"
  by (auto simp: kind_accepts_channel_def)

lemma validate_kind_channel_ok [simp]:
  "validate_kind_channel h = Inr u \<longleftrightarrow> kind_accepts_channel (h_kind h) (h_channel_id h)"
  by (simp add: validate_kind_channel_def)

lemma header_new_on_channel_ok:
  "header_new_on_channel k c sid n len = Inr h \<longleftrightarrow>
    kind_accepts_channel k c \<and> h = (header_new k sid n len)\<lparr>h_channel_id := c\<rparr>"
  by (auto simp: header_new_on_channel_def header_new_def Let_def result_simps)

subsection \<open>Encoding and decoding\<close>

lemma length_MAGIC [simp, wire_simps]: "length MAGIC = 4"
  by (simp add: MAGIC_def)

lemma length_encode_header [simp, wire_simps]: "length (encode_header h) = HEADER_LEN"
  by (simp add: encode_header_def HEADER_LEN_def)

text \<open>The decoder reads every two-byte field as a slice.\<close>

lemma decode_header_slices:
  assumes "HEADER_LEN \<le> length input"
  shows "[input ! 4, input ! 5] = slice 4 6 input" "[input ! 6, input ! 7] = slice 6 8 input"
    "[input ! 8, input ! 9] = slice 8 10 input" "[input ! 10, input ! 11] = slice 10 12 input"
  using assms slice_pair [of 4 input] slice_pair [of 6 input]
    slice_pair [of 8 input] slice_pair [of 10 input]
  by (simp_all add: HEADER_LEN_def)

lemma encode_header_slices:
  "slice 0 4 (encode_header h @ rest) = MAGIC"
  "slice 4 6 (encode_header h @ rest) = to_be_bytes (h_version h)"
  "slice 6 8 (encode_header h @ rest) = to_be_bytes (kind_code (h_kind h))"
  "slice 8 10 (encode_header h @ rest) = to_be_bytes (h_flags h)"
  "slice 10 12 (encode_header h @ rest) = to_be_bytes (channel_code (h_channel_id h))"
  "slice 12 28 (encode_header h @ rest) = to_be_bytes (h_session_id h)"
  "slice 28 36 (encode_header h @ rest) = to_be_bytes (h_sequence h)"
  "slice 36 40 (encode_header h @ rest) = to_be_bytes (h_payload_len h)"
  by (simp_all add: encode_header_def wire_simps)

lemma decode_encode_header:
  assumes "h_version h = PROTOCOL_VERSION"
    and "kind_accepts_channel (h_kind h) (h_channel_id h)"
  shows "decode_header (encode_header h @ rest) = Inr h"
proof -
  have len: "HEADER_LEN \<le> length (encode_header h @ rest)" by simp
  note slices = decode_header_slices [OF len] encode_header_slices
  show ?thesis
    using assms len unfolding decode_header_def slices
    by (simp add: Let_def validate_kind_channel_def)
qed

lemma encode_decode_header:
  assumes "decode_header input = Inr h"
  shows "encode_header h = take HEADER_LEN input"
    and "h_version h = PROTOCOL_VERSION"
    and "kind_accepts_channel (h_kind h) (h_channel_id h)"
proof -
  have len: "HEADER_LEN \<le> length input"
    using assms by (simp add: decode_header_def split: if_splits)
  then have len40: "40 \<le> length input" by (simp add: HEADER_LEN_def)
  have facts: "slice 0 4 input = MAGIC" "from_be_bytes (slice 4 6 input) = h_version h"
    "h_version h = PROTOCOL_VERSION"
    "kind_code (h_kind h) = from_be_bytes (slice 6 8 input)"
    "channel_code (h_channel_id h) = from_be_bytes (slice 10 12 input)"
    "h_flags h = from_be_bytes (slice 8 10 input)"
    "h_session_id h = from_be_bytes (slice 12 28 input)"
    "h_sequence h = from_be_bytes (slice 28 36 input)"
    "h_payload_len h = from_be_bytes (slice 36 40 input)"
    and acc: "kind_accepts_channel (h_kind h) (h_channel_id h)"
    using assms unfolding decode_header_def decode_header_slices [OF len]
    by (auto simp: Let_def result_simps dest: message_kind_try_from_code channel_id_try_from_code
        split: if_splits)
  show "h_version h = PROTOCOL_VERSION" "kind_accepts_channel (h_kind h) (h_channel_id h)"
    by (rule facts(3), rule acc)
  have "encode_header h = slice 0 4 input @ slice 4 6 input @ slice 6 8 input @ slice 8 10 input
      @ slice 10 12 input @ slice 12 28 input @ slice 28 36 input @ slice 36 40 input"
    using len40 unfolding encode_header_def facts(4-9) facts(1,2) [symmetric]
    by (simp add: be16.enc_dec be32.enc_dec be64.enc_dec be128.enc_dec)
  also have "\<dots> = slice 0 40 input"
    by (simp add: slice_join)
  finally show "encode_header h = take HEADER_LEN input"
    by (simp add: slice_0 HEADER_LEN_def)
qed

lemma encode_header_inject: "encode_header h = encode_header g \<longleftrightarrow> h = g"
proof
  assume eq: "encode_header h = encode_header g"
  have parts: "h_version h = h_version g" "h_kind h = h_kind g" "h_flags h = h_flags g"
    "h_channel_id h = h_channel_id g" "h_session_id h = h_session_id g"
    "h_sequence h = h_sequence g" "h_payload_len h = h_payload_len g"
    using encode_header_slices [of h "[]"] encode_header_slices [of g "[]"] eq by simp_all
  then show "h = g" by simp
qed simp

lemma unat_MAX_SECURE_SEQUENCE: "unat MAX_SECURE_SEQUENCE = 2 ^ 48 - 1"
  by (simp add: MAX_SECURE_SEQUENCE_def)

end
