(* ===== verification/Rc_Messages.thy ===== *)
theory Rc_Messages
  imports Rc_Canonical Rc_Header
begin

section \<open>Session messages and their canonical bytes\<close>

text \<open>
  \<^verbatim>\<open>crates/remote-protocol/src/permissions.rs\<close>, \<^verbatim>\<open>security.rs\<close> and the shared
  enumerations of \<^verbatim>\<open>candidates.rs\<close>: roles, transport paths, the nine session
  permissions, and the structures that are signed, hashed or fed to the key
  derivation. Every \<open>..._canonical_bytes\<close> function is the writer chain of the source;
  next to it stands the list of fields it writes, and a lemma that relates the two.
\<close>

subsection \<open>Roles, paths and directions\<close>

datatype session_role = Controller | Controlled

fun role_as_str :: "session_role \<Rightarrow> string" where
  "role_as_str Controller = ''controller''"
| "role_as_str Controlled = ''controlled''"

datatype transport_path = LanDirect | UdpP2p | QuicRelay | Tls443Relay

fun path_as_str :: "transport_path \<Rightarrow> string" where
  "path_as_str LanDirect = ''lan_direct''"
| "path_as_str UdpP2p = ''udp_p2p''"
| "path_as_str QuicRelay = ''quic_relay''"
| "path_as_str Tls443Relay = ''tls_443_relay''"

definition is_relay :: "transport_path \<Rightarrow> bool" where
  "is_relay p \<longleftrightarrow> p = QuicRelay \<or> p = Tls443Relay"

datatype traffic_direction = ControllerToControlled | ControlledToController

fun direction_as_str :: "traffic_direction \<Rightarrow> string" where
  "direction_as_str ControllerToControlled = ''controller_to_controlled''"
| "direction_as_str ControlledToController = ''controlled_to_controller''"

fun from_sender_role :: "session_role \<Rightarrow> traffic_direction" where
  "from_sender_role Controller = ControllerToControlled"
| "from_sender_role Controlled = ControlledToController"

fun reverse :: "traffic_direction \<Rightarrow> traffic_direction" where
  "reverse ControllerToControlled = ControlledToController"
| "reverse ControlledToController = ControllerToControlled"

datatype candidate_source = LocalInterface | UdpObserved | RelayAllocated

fun source_as_str :: "candidate_source \<Rightarrow> string" where
  "source_as_str LocalInterface = ''local_interface''"
| "source_as_str UdpObserved = ''udp_observed''"
| "source_as_str RelayAllocated = ''relay_allocated''"

lemma role_as_str_inject [simp]: "role_as_str a = role_as_str b \<longleftrightarrow> a = b"
  by (cases a; cases b) simp_all

lemma path_as_str_inject [simp]: "path_as_str a = path_as_str b \<longleftrightarrow> a = b"
  by (cases a; cases b) simp_all

lemma direction_as_str_inject [simp]: "direction_as_str a = direction_as_str b \<longleftrightarrow> a = b"
  by (cases a; cases b) simp_all

lemma source_as_str_inject [simp]: "source_as_str a = source_as_str b \<longleftrightarrow> a = b"
  by (cases a; cases b) simp_all

lemma from_sender_role_inject [simp]: "from_sender_role a = from_sender_role b \<longleftrightarrow> a = b"
  by (cases a; cases b) simp_all

lemma reverse_from_sender_role: "a \<noteq> b \<Longrightarrow> reverse (from_sender_role a) = from_sender_role b"
  by (cases a; cases b) simp_all

subsection \<open>Permissions\<close>

record permissions =
  pm_remote_desktop :: bool
  pm_input_control :: bool
  pm_clipboard :: bool
  pm_file_transfer :: bool
  pm_unattended :: bool

record session_permissions =
  sp_remote_desktop :: bool
  sp_input_control :: bool
  sp_clipboard :: bool
  sp_file_transfer :: bool
  sp_unattended :: bool
  sp_privacy_screen :: bool
  sp_block_local_input :: bool
  sp_require_prompt :: bool
  sp_allow_relay :: bool

definition session_permissions_default :: session_permissions where
  "session_permissions_default =
    \<lparr>sp_remote_desktop = False, sp_input_control = False, sp_clipboard = False,
     sp_file_transfer = False, sp_unattended = False, sp_privacy_screen = False,
     sp_block_local_input = False, sp_require_prompt = True, sp_allow_relay = False\<rparr>"

definition session_permissions_from :: "permissions \<Rightarrow> session_permissions" where
  "session_permissions_from v =
    session_permissions_default\<lparr>
      sp_remote_desktop := pm_remote_desktop v, sp_input_control := pm_input_control v,
      sp_clipboard := pm_clipboard v, sp_file_transfer := pm_file_transfer v,
      sp_unattended := pm_unattended v\<rparr>"

definition permissions_canonical_bytes :: "session_permissions \<Rightarrow> canonical_error + bytes" where
  "permissions_canonical_bytes p =
    map_ok finish (try_chain
      [push_bool ''remote_desktop'' (sp_remote_desktop p),
       push_bool ''input_control'' (sp_input_control p),
       push_bool ''clipboard'' (sp_clipboard p),
       push_bool ''file_transfer'' (sp_file_transfer p),
       push_bool ''unattended'' (sp_unattended p),
       push_bool ''privacy_screen'' (sp_privacy_screen p),
       push_bool ''block_local_input'' (sp_block_local_input p),
       push_bool ''require_prompt'' (sp_require_prompt p),
       push_bool ''allow_relay'' (sp_allow_relay p)]
      writer_without_domain)"

subsection \<open>Signed and derived structures\<close>

record session_context =
  sc_account_id :: string
  sc_session_id :: u128
  sc_controller_device_id :: string
  sc_controlled_device_id :: string
  sc_permissions_digest :: bytes
  sc_protocol_version :: u16
  sc_session_expires_at_epoch_millis :: u64

definition session_context_canonical_bytes :: "session_context \<Rightarrow> canonical_error + bytes" where
  "session_context_canonical_bytes c =
    map_ok finish (and_then (writer_new ''rctl-session-context-v1'') (try_chain
      [push_str ''account_id'' (sc_account_id c),
       push_u128 ''session_id'' (sc_session_id c),
       push_str ''controller_device_id'' (sc_controller_device_id c),
       push_str ''controlled_device_id'' (sc_controlled_device_id c),
       push_field ''permissions_digest'' (sc_permissions_digest c),
       push_u16 ''protocol_version'' (sc_protocol_version c),
       push_u64 ''session_expires_at_epoch_millis'' (sc_session_expires_at_epoch_millis c)]))"

record signed_key_exchange_payload =
  ke_session_id :: u128
  ke_device_id :: string
  ke_role :: session_role
  ke_session_context_hash :: bytes
  ke_permissions_digest :: bytes
  ke_session_expires_at_epoch_millis :: u64
  ke_ephemeral_public_key :: bytes
  ke_key_exchange_nonce :: bytes
  ke_selected_transport_path :: transport_path
  ke_selected_candidate_pair_id :: u128
  ke_relay_node_id :: "string option"
  ke_timestamp_epoch_millis :: u64

definition key_exchange_canonical_bytes ::
    "signed_key_exchange_payload \<Rightarrow> canonical_error + bytes" where
  "key_exchange_canonical_bytes p =
    map_ok finish (and_then (writer_new ''rctl-signed-key-exchange-v1'') (try_chain
      [push_u128 ''session_id'' (ke_session_id p),
       push_str ''device_id'' (ke_device_id p),
       push_str ''role'' (role_as_str (ke_role p)),
       push_field ''session_context_hash'' (ke_session_context_hash p),
       push_field ''permissions_digest'' (ke_permissions_digest p),
       push_u64 ''session_expires_at_epoch_millis'' (ke_session_expires_at_epoch_millis p),
       push_field ''ephemeral_public_key'' (ke_ephemeral_public_key p),
       push_field ''key_exchange_nonce'' (ke_key_exchange_nonce p),
       push_str ''selected_transport_path'' (path_as_str (ke_selected_transport_path p)),
       push_u128 ''selected_candidate_pair_id'' (ke_selected_candidate_pair_id p),
       push_optional_str ''relay_node_id'' (ke_relay_node_id p),
       push_u64 ''timestamp'' (ke_timestamp_epoch_millis p)]))"

definition validate_path_binding :: "signed_key_exchange_payload \<Rightarrow> bool" where
  "validate_path_binding p \<longleftrightarrow>
    (is_relay (ke_selected_transport_path p) \<longleftrightarrow> ke_relay_node_id p \<noteq> None)"

record signed_key_exchange =
  ske_payload :: signed_key_exchange_payload
  ske_signature :: bytes

text \<open>\<^verbatim>\<open>self.signature.as_slice().try_into().ok()\<close> into an array of 64 bytes\<close>

definition signature_bytes :: "signed_key_exchange \<Rightarrow> bytes option" where
  "signature_bytes m =
    (if length (ske_signature m) = 64 then Some (ske_signature m) else None)"

record key_confirm =
  kc_session_id :: u128
  kc_device_id :: string
  kc_role :: session_role
  kc_key_exchange_transcript_hash :: bytes
  kc_confirm_mac :: bytes
  kc_timestamp_epoch_millis :: u64

definition key_confirm_canonical_mac_input :: "key_confirm \<Rightarrow> canonical_error + bytes" where
  "key_confirm_canonical_mac_input c =
    map_ok finish (and_then (writer_new ''rctl-key-confirm-v1'') (try_chain
      [push_u128 ''session_id'' (kc_session_id c),
       push_str ''device_id'' (kc_device_id c),
       push_str ''role'' (role_as_str (kc_role c)),
       push_field ''key_exchange_transcript_hash'' (kc_key_exchange_transcript_hash c),
       push_u64 ''timestamp'' (kc_timestamp_epoch_millis c)]))"

record session_kdf_context =
  kdf_account_id :: string
  kdf_session_id :: u128
  kdf_controller_device_id :: string
  kdf_controlled_device_id :: string
  kdf_permissions_digest :: bytes
  kdf_protocol_version :: u16
  kdf_session_expires_at_epoch_millis :: u64
  kdf_selected_transport_path :: transport_path
  kdf_selected_candidate_pair_id :: u128
  kdf_relay_node_id :: "string option"
  kdf_key_exchange_transcript_hash :: bytes

definition salt_canonical_bytes :: "session_kdf_context \<Rightarrow> canonical_error + bytes" where
  "salt_canonical_bytes c =
    map_ok finish (and_then (writer_new ''rctl-hkdf-salt-v1'') (try_chain
      [push_u128 ''session_id'' (kdf_session_id c),
       push_str ''controller_device_id'' (kdf_controller_device_id c),
       push_str ''controlled_device_id'' (kdf_controlled_device_id c),
       push_field ''permissions_digest'' (kdf_permissions_digest c),
       push_u64 ''session_expires_at_epoch_millis'' (kdf_session_expires_at_epoch_millis c)]))"

definition info_base :: "session_kdf_context \<Rightarrow> canonical_error + bytes" where
  "info_base c =
    map_ok finish (and_then (writer_new ''rctl-session-v1'') (try_chain
      [push_str ''account_id'' (kdf_account_id c),
       push_u128 ''session_id'' (kdf_session_id c),
       push_str ''controller_device_id'' (kdf_controller_device_id c),
       push_str ''controlled_device_id'' (kdf_controlled_device_id c),
       push_field ''permissions_digest'' (kdf_permissions_digest c),
       push_u16 ''protocol_version'' (kdf_protocol_version c),
       push_u64 ''session_expires_at_epoch_millis'' (kdf_session_expires_at_epoch_millis c),
       push_str ''selected_transport_path'' (path_as_str (kdf_selected_transport_path c)),
       push_u128 ''selected_candidate_pair_id'' (kdf_selected_candidate_pair_id c),
       push_optional_str ''relay_node_id'' (kdf_relay_node_id c),
       push_field ''key_exchange_transcript_hash'' (kdf_key_exchange_transcript_hash c)]))"

subsection \<open>Field lists\<close>

lemma push_eta:
  "push_str n s = push_field n (str_bytes s)"
  "push_optional_str n os = push_field n (opt_bytes os)"
  "push_bool n b = push_field n [if b then 1 else 0]"
  "push_u16 n x16 = push_field n (to_be_bytes x16)"
  "push_u32 n x32 = push_field n (to_be_bytes x32)"
  "push_u64 n x64 = push_field n (to_be_bytes x64)"
  "push_u128 n x128 = push_field n (to_be_bytes x128)"
  by (rule ext, simp add: push_defs opt_bytes_def)+

definition permissions_fields :: "session_permissions \<Rightarrow> field_list" where
  "permissions_fields p =
    map (\<lambda>(n, b). (n, [if b then 1 else 0]))
      [(''remote_desktop'', sp_remote_desktop p), (''input_control'', sp_input_control p),
       (''clipboard'', sp_clipboard p), (''file_transfer'', sp_file_transfer p),
       (''unattended'', sp_unattended p), (''privacy_screen'', sp_privacy_screen p),
       (''block_local_input'', sp_block_local_input p),
       (''require_prompt'', sp_require_prompt p), (''allow_relay'', sp_allow_relay p)]"

definition session_context_fields :: "session_context \<Rightarrow> field_list" where
  "session_context_fields c =
    [(''domain'', str_bytes ''rctl-session-context-v1''),
     (''account_id'', str_bytes (sc_account_id c)),
     (''session_id'', to_be_bytes (sc_session_id c)),
     (''controller_device_id'', str_bytes (sc_controller_device_id c)),
     (''controlled_device_id'', str_bytes (sc_controlled_device_id c)),
     (''permissions_digest'', sc_permissions_digest c),
     (''protocol_version'', to_be_bytes (sc_protocol_version c)),
     (''session_expires_at_epoch_millis'',
        to_be_bytes (sc_session_expires_at_epoch_millis c))]"

definition key_exchange_fields :: "signed_key_exchange_payload \<Rightarrow> field_list" where
  "key_exchange_fields p =
    [(''domain'', str_bytes ''rctl-signed-key-exchange-v1''),
     (''session_id'', to_be_bytes (ke_session_id p)),
     (''device_id'', str_bytes (ke_device_id p)),
     (''role'', str_bytes (role_as_str (ke_role p))),
     (''session_context_hash'', ke_session_context_hash p),
     (''permissions_digest'', ke_permissions_digest p),
     (''session_expires_at_epoch_millis'',
        to_be_bytes (ke_session_expires_at_epoch_millis p)),
     (''ephemeral_public_key'', ke_ephemeral_public_key p),
     (''key_exchange_nonce'', ke_key_exchange_nonce p),
     (''selected_transport_path'', str_bytes (path_as_str (ke_selected_transport_path p))),
     (''selected_candidate_pair_id'', to_be_bytes (ke_selected_candidate_pair_id p)),
     (''relay_node_id'', opt_bytes (ke_relay_node_id p)),
     (''timestamp'', to_be_bytes (ke_timestamp_epoch_millis p))]"

definition key_confirm_fields :: "key_confirm \<Rightarrow> field_list" where
  "key_confirm_fields c =
    [(''domain'', str_bytes ''rctl-key-confirm-v1''),
     (''session_id'', to_be_bytes (kc_session_id c)),
     (''device_id'', str_bytes (kc_device_id c)),
     (''role'', str_bytes (role_as_str (kc_role c))),
     (''key_exchange_transcript_hash'', kc_key_exchange_transcript_hash c),
     (''timestamp'', to_be_bytes (kc_timestamp_epoch_millis c))]"

definition salt_fields :: "session_kdf_context \<Rightarrow> field_list" where
  "salt_fields c =
    [(''domain'', str_bytes ''rctl-hkdf-salt-v1''),
     (''session_id'', to_be_bytes (kdf_session_id c)),
     (''controller_device_id'', str_bytes (kdf_controller_device_id c)),
     (''controlled_device_id'', str_bytes (kdf_controlled_device_id c)),
     (''permissions_digest'', kdf_permissions_digest c),
     (''session_expires_at_epoch_millis'',
        to_be_bytes (kdf_session_expires_at_epoch_millis c))]"

definition info_fields :: "session_kdf_context \<Rightarrow> field_list" where
  "info_fields c =
    [(''domain'', str_bytes ''rctl-session-v1''),
     (''account_id'', str_bytes (kdf_account_id c)),
     (''session_id'', to_be_bytes (kdf_session_id c)),
     (''controller_device_id'', str_bytes (kdf_controller_device_id c)),
     (''controlled_device_id'', str_bytes (kdf_controlled_device_id c)),
     (''permissions_digest'', kdf_permissions_digest c),
     (''protocol_version'', to_be_bytes (kdf_protocol_version c)),
     (''session_expires_at_epoch_millis'',
        to_be_bytes (kdf_session_expires_at_epoch_millis c)),
     (''selected_transport_path'', str_bytes (path_as_str (kdf_selected_transport_path c))),
     (''selected_candidate_pair_id'', to_be_bytes (kdf_selected_candidate_pair_id c)),
     (''relay_node_id'', opt_bytes (kdf_relay_node_id c)),
     (''key_exchange_transcript_hash'', kdf_key_exchange_transcript_hash c)]"

lemma permissions_canonical:
  "permissions_canonical_bytes p = canonical_encode (permissions_fields p)"
  by (simp add: permissions_canonical_bytes_def permissions_fields_def canonical_encode_def
      writer_without_domain_def push_eta del: try_chain.simps)

lemma session_context_canonical:
  "session_context_canonical_bytes c = canonical_encode (session_context_fields c)"
  by (simp add: session_context_canonical_bytes_def session_context_fields_def
      writer_new_chain [symmetric] push_eta del: try_chain.simps)

lemma key_exchange_canonical:
  "key_exchange_canonical_bytes p = canonical_encode (key_exchange_fields p)"
  by (simp add: key_exchange_canonical_bytes_def key_exchange_fields_def
      writer_new_chain [symmetric] push_eta del: try_chain.simps)

lemma key_confirm_canonical:
  "key_confirm_canonical_mac_input c = canonical_encode (key_confirm_fields c)"
  by (simp add: key_confirm_canonical_mac_input_def key_confirm_fields_def
      writer_new_chain [symmetric] push_eta del: try_chain.simps)

lemma salt_canonical: "salt_canonical_bytes c = canonical_encode (salt_fields c)"
  by (simp add: salt_canonical_bytes_def salt_fields_def
      writer_new_chain [symmetric] push_eta del: try_chain.simps)

lemma info_canonical: "info_base c = canonical_encode (info_fields c)"
  by (simp add: info_base_def info_fields_def
      writer_new_chain [symmetric] push_eta del: try_chain.simps)

subsection \<open>What the canonical bytes determine\<close>

lemma permissions_fields_inject: "permissions_fields p = permissions_fields q \<longleftrightarrow> p = q"
  by (auto simp: permissions_fields_def split: if_splits)

lemma permissions_canonical_total:
  "permissions_canonical_bytes p = Inr (fields_bytes (permissions_fields p))"
  by (simp add: permissions_canonical canonical_encode_ok permissions_fields_def field_fits_def)

lemma session_context_fields_inject:
  "session_context_fields c = session_context_fields d \<longleftrightarrow> c = d"
  by (auto simp: session_context_fields_def)

text \<open>
  An absent relay node and an empty one are written alike, so the bytes alone do not
  tell them apart; the path binding does.
\<close>

lemma opt_bytes_inject:
  "(a = None \<longleftrightarrow> b = None) \<Longrightarrow> opt_bytes a = opt_bytes b \<longleftrightarrow> a = b"
  by (cases a; cases b) (auto simp: opt_bytes_def)

lemma key_exchange_fields_inject:
  assumes "validate_path_binding p" "validate_path_binding q"
    and eq: "key_exchange_fields p = key_exchange_fields q"
  shows "p = q"
proof -
  have path: "ke_selected_transport_path p = ke_selected_transport_path q"
    using eq by (simp add: key_exchange_fields_def)
  then have "ke_relay_node_id p = None \<longleftrightarrow> ke_relay_node_id q = None"
    using assms(1,2) unfolding validate_path_binding_def by metis
  moreover have "opt_bytes (ke_relay_node_id p) = opt_bytes (ke_relay_node_id q)"
    using eq by (simp add: key_exchange_fields_def)
  ultimately have "ke_relay_node_id p = ke_relay_node_id q"
    by (simp add: opt_bytes_inject)
  with eq path show ?thesis
    by (intro signed_key_exchange_payload.equality) (simp_all add: key_exchange_fields_def)
qed

lemma key_confirm_fields_eq:
  assumes "key_confirm_fields c = key_confirm_fields d"
  shows "c = d\<lparr>kc_confirm_mac := kc_confirm_mac c\<rparr>"
  using assms by (intro key_confirm.equality) (simp_all add: key_confirm_fields_def)

lemma info_fields_inject:
  assumes "is_relay (kdf_selected_transport_path c) \<longleftrightarrow> kdf_relay_node_id c \<noteq> None"
    and "is_relay (kdf_selected_transport_path d) \<longleftrightarrow> kdf_relay_node_id d \<noteq> None"
    and eq: "info_fields c = info_fields d"
  shows "c = d"
proof -
  have path: "kdf_selected_transport_path c = kdf_selected_transport_path d"
    using eq by (simp add: info_fields_def)
  then have "kdf_relay_node_id c = None \<longleftrightarrow> kdf_relay_node_id d = None"
    using assms(1,2) by metis
  moreover have "opt_bytes (kdf_relay_node_id c) = opt_bytes (kdf_relay_node_id d)"
    using eq by (simp add: info_fields_def)
  ultimately have "kdf_relay_node_id c = kdf_relay_node_id d"
    by (simp add: opt_bytes_inject)
  with eq path show ?thesis
    by (intro session_kdf_context.equality) (simp_all add: info_fields_def)
qed

end
