(* ===== verification/Rc_E2ee.thy ===== *)
theory Rc_E2ee
  imports Rc_Messages
begin

section \<open>Payload encryption and the replay window\<close>

text \<open>
  \<^verbatim>\<open>crates/remote-crypto/src/e2ee.rs\<close>. The cipher itself (the \<^verbatim>\<open>chacha20poly1305\<close>
  crate) is a pair of parameters \<open>seal\<close> and \<open>unseal\<close> taking key, nonce, associated
  data and message. The replay window is the code's 64-bit bitmap; \<open>window_abs\<close> relates
  it to the set of sequence numbers accepted so far, and the lemmas show that the bitmap
  implements the sliding-window specification and accepts no number twice.
\<close>

unbundle bit_operations_syntax

datatype crypto_error =
    InvalidPublicKey
  | InvalidSignature
  | SignatureMismatch
  | CanonicalEncoding
  | InvalidKeyExchangeContext
  | NonContributoryKeyExchange
  | KeyDerivation
  | AuthenticationFailed
  | InvalidChannel
  | InvalidPayloadLength
  | SequenceExhausted
  | ReplayDetected
  | MessageTooOld
  | TimestampOutsideWindow
  | DeviceRoleMismatch

definition AUTH_TAG_LEN :: nat where
  "AUTH_TAG_LEN = 16"

definition REPLAY_WINDOW_BITS :: u64 where
  "REPLAY_WINDOW_BITS = 64"

type_synonym aead = "bytes \<Rightarrow> bytes \<Rightarrow> bytes \<Rightarrow> bytes \<Rightarrow> bytes option"

subsection \<open>Nonce and associated data\<close>

definition build_nonce :: "bytes \<Rightarrow> channel_id \<Rightarrow> u64 \<Rightarrow> crypto_error + bytes" where
  "build_nonce direction_nonce_prefix channel_id sequence =
    (if sequence > MAX_SECURE_SEQUENCE then Inl SequenceExhausted
     else Inr (direction_nonce_prefix @ to_be_bytes (channel_code channel_id)
               @ slice 2 8 (to_be_bytes sequence)))"

definition build_aad :: "message_header \<Rightarrow> bytes \<Rightarrow> traffic_direction \<Rightarrow> bytes" where
  "build_aad header permissions_digest direction =
    encode_header header @ permissions_digest @ str_bytes (direction_as_str direction)"

subsection \<open>The replay window\<close>

record replay_window =
  rw_highest :: "u64 option"
  rw_bitmap :: u64

definition replay_window_default :: replay_window where
  "replay_window_default = \<lparr>rw_highest = None, rw_bitmap = 0\<rparr>"

definition window_check :: "replay_window \<Rightarrow> u64 \<Rightarrow> crypto_error + unit" where
  "window_check w sequence =
    (case rw_highest w of
       None \<Rightarrow> Inr ()
     | Some highest \<Rightarrow>
         if sequence > highest then Inr ()
         else
           let distance = highest - sequence in
           if distance \<ge> REPLAY_WINDOW_BITS then Inl MessageTooOld
           else if rw_bitmap w AND push_bit (unat distance) 1 \<noteq> 0 then Inl ReplayDetected
           else Inr ())"

text \<open>
  Rust masks a shift amount to six bits for a 64-bit operand (or panics, with overflow
  checks); \<open>window_check_shift\<close> shows that the amount is below 64 whenever the check
  has passed, so that neither happens.
\<close>

definition window_record :: "replay_window \<Rightarrow> u64 \<Rightarrow> replay_window" where
  "window_record w sequence =
    (case rw_highest w of
       None \<Rightarrow> w\<lparr>rw_highest := Some sequence, rw_bitmap := 1\<rparr>
     | Some highest \<Rightarrow>
         if sequence > highest then
           let shift = sequence - highest in
           w\<lparr>rw_bitmap := (if shift \<ge> REPLAY_WINDOW_BITS then 1
                            else push_bit (unat shift) (rw_bitmap w) OR 1),
             rw_highest := Some sequence\<rparr>
         else w\<lparr>rw_bitmap := rw_bitmap w OR push_bit (unat (highest - sequence) mod 64) 1\<rparr>)"

record replay_guard =
  rg_channels :: "replay_window list"

definition replay_guard_default :: replay_guard where
  "replay_guard_default = \<lparr>rg_channels = replicate 9 replay_window_default\<rparr>"

text \<open>\<^verbatim>\<open>channel as usize\<close>\<close>

definition channel_index :: "channel_id \<Rightarrow> nat" where
  "channel_index c = unat (channel_code c)"

definition guard_check :: "replay_guard \<Rightarrow> channel_id \<Rightarrow> u64 \<Rightarrow> crypto_error + unit" where
  "guard_check g channel sequence =
    (if sequence > MAX_SECURE_SEQUENCE then Inl SequenceExhausted
     else window_check (rg_channels g ! channel_index channel) sequence)"

definition guard_record :: "replay_guard \<Rightarrow> channel_id \<Rightarrow> u64 \<Rightarrow> replay_guard" where
  "guard_record g channel sequence =
    g\<lparr>rg_channels := (rg_channels g)[channel_index channel :=
        window_record (rg_channels g ! channel_index channel) sequence]\<rparr>"

subsection \<open>Encryption and decryption of a frame\<close>

definition encrypt_payload ::
    "aead \<Rightarrow> bytes \<Rightarrow> bytes \<Rightarrow> bytes \<Rightarrow> traffic_direction \<Rightarrow> message_header \<Rightarrow> bytes
      \<Rightarrow> crypto_error + message_header \<times> bytes" where
  "encrypt_payload seal key nonce_prefix permissions_digest direction header plaintext =
    and_then (map_err (\<lambda>_. InvalidChannel) (validate_kind_channel header)) (\<lambda>_.
    and_then (ok_or InvalidPayloadLength (u32_try_from (length plaintext + AUTH_TAG_LEN)))
      (\<lambda>encrypted_len.
    let header = header\<lparr>h_payload_len := encrypted_len\<rparr> in
    and_then (build_nonce nonce_prefix (h_channel_id header) (h_sequence header)) (\<lambda>nonce.
    let aad = build_aad header permissions_digest direction in
    and_then (ok_or AuthenticationFailed (seal key nonce aad plaintext)) (\<lambda>ciphertext.
    Inr (header, ciphertext)))))"

text \<open>The fallible part of \<^verbatim>\<open>decrypt_payload\<close>, up to the recording of the sequence.\<close>

definition unseal_frame ::
    "aead \<Rightarrow> bytes \<Rightarrow> bytes \<Rightarrow> bytes \<Rightarrow> traffic_direction \<Rightarrow> replay_guard
      \<Rightarrow> message_header \<Rightarrow> bytes \<Rightarrow> crypto_error + bytes" where
  "unseal_frame unseal key nonce_prefix permissions_digest direction guard header ciphertext =
    and_then (map_err (\<lambda>_. InvalidChannel) (validate_kind_channel header)) (\<lambda>_.
    if unat (h_payload_len header) \<noteq> length ciphertext then Inl InvalidPayloadLength
    else
      and_then (guard_check guard (h_channel_id header) (h_sequence header)) (\<lambda>_.
      and_then (build_nonce nonce_prefix (h_channel_id header) (h_sequence header)) (\<lambda>nonce.
      let aad = build_aad header permissions_digest direction in
      ok_or AuthenticationFailed (unseal key nonce aad ciphertext))))"

definition decrypt_payload ::
    "aead \<Rightarrow> bytes \<Rightarrow> bytes \<Rightarrow> bytes \<Rightarrow> traffic_direction \<Rightarrow> replay_guard
      \<Rightarrow> message_header \<Rightarrow> bytes \<Rightarrow> (crypto_error + bytes) \<times> replay_guard" where
  "decrypt_payload unseal key nonce_prefix permissions_digest direction guard header ciphertext =
    (case unseal_frame unseal key nonce_prefix permissions_digest direction guard header ciphertext of
       Inl e \<Rightarrow> (Inl e, guard)
     | Inr plaintext \<Rightarrow>
         (Inr plaintext, guard_record guard (h_channel_id header) (h_sequence header)))"

subsection \<open>Nonces are unique\<close>

lemma channel_index_less: "channel_index c < 9"
  by (cases c) (simp_all add: channel_index_def)

lemma channel_index_inject [simp]: "channel_index c = channel_index d \<longleftrightarrow> c = d"
  by (cases c; cases d) (simp_all add: channel_index_def)

lemma be_enc_leading_zero: "v < 256 ^ n \<Longrightarrow> be_enc (Suc n) v = 0 # be_enc n v"
proof (induction n arbitrary: v)
  case 0
  then show ?case by simp
next
  case (Suc n)
  then have "v div 256 < 256 ^ n"
    by (simp add: less_mult_imp_div_less mult.commute)
  then have "be_enc (Suc n) (v div 256) = 0 # be_enc n (v div 256)"
    by (rule Suc.IH)
  then show ?case by simp
qed

lemma sequence_bytes:
  assumes "q \<le> MAX_SECURE_SEQUENCE"
  shows "to_be_bytes q = [0, 0] @ slice 2 8 (to_be_bytes q)"
proof -
  from assms have q: "unat q < 256 ^ 6"
    by (simp add: word_le_nat_alt unat_MAX_SECURE_SEQUENCE)
  then have "unat q < 256 ^ 7" by simp
  then have "be_enc (Suc 7) (unat q) = 0 # be_enc (Suc 6) (unat q)"
    using be_enc_leading_zero [of "unat q" 7] by (simp del: be_enc.simps)
  also have "be_enc (Suc 6) (unat q) = 0 # be_enc 6 (unat q)"
    using q by (rule be_enc_leading_zero)
  finally have "be_enc 8 (unat q) = [0, 0] @ be_enc 6 (unat q)"
    by (simp del: be_enc.simps)
  then have "to_be_bytes q = [0, 0] @ be_enc 6 (unat q)"
    by (simp add: to_be_bytes_def)
  then show ?thesis by (simp add: slice_def)
qed

lemma build_nonce_ok:
  "build_nonce p c q = Inr n \<longleftrightarrow>
    q \<le> MAX_SECURE_SEQUENCE
    \<and> n = p @ to_be_bytes (channel_code c) @ slice 2 8 (to_be_bytes q)"
  by (auto simp: build_nonce_def)

lemma build_nonce_inject:
  assumes "build_nonce p c q = Inr n" "build_nonce p d r = Inr n"
  shows "c = d \<and> q = r"
proof -
  from assms have bounds: "q \<le> MAX_SECURE_SEQUENCE" "r \<le> MAX_SECURE_SEQUENCE"
    and eq: "to_be_bytes (channel_code c) @ slice 2 8 (to_be_bytes q) =
      to_be_bytes (channel_code d) @ slice 2 8 (to_be_bytes r)"
    by (auto simp: build_nonce_ok)
  from eq have "c = d" and "slice 2 8 (to_be_bytes q) = slice 2 8 (to_be_bytes r)"
    by (simp_all only: be16.enc_append_inject channel_code_inject)
  then have "to_be_bytes q = to_be_bytes r"
    using sequence_bytes [OF bounds(1)] sequence_bytes [OF bounds(2)] by metis
  with \<open>c = d\<close> show ?thesis by simp
qed

lemma build_aad_inject:
  assumes "length dg = length dg'" and "build_aad h dg dir = build_aad h' dg' dir'"
  shows "h = h' \<and> dg = dg' \<and> dir = dir'"
proof -
  have "encode_header h = encode_header h'"
    and "dg @ str_bytes (direction_as_str dir) = dg' @ str_bytes (direction_as_str dir')"
    using assms(2) by (simp_all add: build_aad_def)
  with assms(1) show ?thesis by (simp add: encode_header_inject)
qed

subsection \<open>The window implements the set of accepted numbers\<close>

definition window_abs :: "replay_window \<Rightarrow> nat set \<Rightarrow> bool" where
  "window_abs w A \<longleftrightarrow>
    (case rw_highest w of
       None \<Rightarrow> A = {}
     | Some h \<Rightarrow>
         unat h \<in> A \<and> (\<forall>a \<in> A. a \<le> unat h)
         \<and> (\<forall>d < 64. bit (rw_bitmap w) d \<longleftrightarrow> d \<le> unat h \<and> unat h - d \<in> A))"

text \<open>The specification: a number is taken once, and only if fewer than 64 behind the newest.\<close>

definition window_spec :: "nat set \<Rightarrow> nat \<Rightarrow> crypto_error + unit" where
  "window_spec A n =
    (if \<exists>a \<in> A. n + 64 \<le> a then Inl MessageTooOld
     else if n \<in> A then Inl ReplayDetected
     else Inr ())"

lemma window_abs_default: "window_abs replay_window_default {}"
  by (simp add: window_abs_def replay_window_default_def)

lemma window_check_spec:
  assumes "window_abs w A"
  shows "window_check w q = window_spec A (unat q)"
proof (cases "rw_highest w")
  case None
  with assms show ?thesis by (simp add: window_abs_def window_check_def window_spec_def)
next
  case (Some h)
  with assms have hA: "unat h \<in> A" and top: "\<And>a. a \<in> A \<Longrightarrow> a \<le> unat h"
    and bits: "\<And>d. d < 64 \<Longrightarrow> bit (rw_bitmap w) d \<longleftrightarrow> d \<le> unat h \<and> unat h - d \<in> A"
    by (auto simp: window_abs_def)
  show ?thesis
  proof (cases "q > h")
    case True
    then have lt: "unat h < unat q" by (simp add: word_less_nat_alt)
    have "unat q \<notin> A" and "\<not> (\<exists>a \<in> A. unat q + 64 \<le> a)"
      using top lt by fastforce+
    with True Some show ?thesis by (simp add: window_check_def window_spec_def)
  next
    case False
    then have le: "unat q \<le> unat h" by (simp add: word_less_nat_alt)
    then have dist: "unat (h - q) = unat h - unat q"
      by (simp add: unat_sub word_le_nat_alt)
    then have far: "REPLAY_WINDOW_BITS \<le> h - q \<longleftrightarrow> unat q + 64 \<le> unat h"
      using le by (simp add: REPLAY_WINDOW_BITS_def word_le_nat_alt) linarith
    have old: "(\<exists>a \<in> A. unat q + 64 \<le> a) \<longleftrightarrow> unat q + 64 \<le> unat h"
      using hA top by (meson order_trans)
    show ?thesis
    proof (cases "unat q + 64 \<le> unat h")
      case True
      with Some \<open>\<not> q > h\<close> far old show ?thesis
        by (simp add: window_check_def window_spec_def Let_def)
    next
      case False
      then have "unat h - unat q < 64" using le by linarith
      then have "bit (rw_bitmap w) (unat (h - q)) \<longleftrightarrow> unat q \<in> A"
        using bits [of "unat h - unat q"] le dist by simp
      with Some \<open>\<not> q > h\<close> far old False show ?thesis
        by (simp add: window_check_def window_spec_def Let_def and_exp_eq_0_iff_not_bit)
    qed
  qed
qed

lemma window_check_shift:
  assumes "window_check w q = Inr ()" "rw_highest w = Some h" "\<not> q > h"
  shows "unat (h - q) < 64"
  using assms
  by (simp add: window_check_def Let_def REPLAY_WINDOW_BITS_def word_le_nat_alt split: if_splits)

text \<open>Moving the newest number from \<open>h\<close> up to \<open>q\<close> shifts every distance by \<open>q - h\<close>.\<close>

lemma shifted_members:
  assumes top: "\<And>a. a \<in> A \<Longrightarrow> a \<le> h" and lt: "h < (q::nat)"
  shows "d \<le> q \<and> (q - d = q \<or> q - d \<in> A) \<longleftrightarrow>
    d = 0 \<or> (q - h \<le> d \<and> d \<le> q \<and> q - d \<in> A)"
proof
  assume l: "d \<le> q \<and> (q - d = q \<or> q - d \<in> A)"
  show "d = 0 \<or> (q - h \<le> d \<and> d \<le> q \<and> q - d \<in> A)"
  proof (cases "d = 0")
    case False
    with lt have "q - d \<noteq> q" by linarith
    with l have "q - d \<in> A" by blast
    then have "q - d \<le> h" by (rule top)
    with l \<open>q - d \<in> A\<close> show ?thesis by linarith
  qed simp
qed (use lt in auto)

lemma shifted_distance:
  assumes "h < (q::nat)" "q - h \<le> d"
  shows "d - (q - h) \<le> h \<and> h - (d - (q - h)) \<in> A \<longleftrightarrow> d \<le> q \<and> q - d \<in> A"
proof -
  have "d - (q - h) \<le> h \<longleftrightarrow> d \<le> q" using assms by linarith
  moreover have "h - (d - (q - h)) = q - d" if "d \<le> q" using assms that by linarith
  ultimately show ?thesis by metis
qed

lemma window_record_abs:
  assumes abs: "window_abs w A" and ok: "window_check w q = Inr ()"
  shows "window_abs (window_record w q) (insert (unat q) A)"
proof (cases "rw_highest w")
  case None
  with abs have "A = {}" by (simp add: window_abs_def)
  with None show ?thesis
    by (auto simp: window_abs_def window_record_def bit_1_iff)
next
  case (Some h)
  with abs have hA: "unat h \<in> A" and top: "\<And>a. a \<in> A \<Longrightarrow> a \<le> unat h"
    and bits: "\<And>d. d < 64 \<Longrightarrow> bit (rw_bitmap w) d \<longleftrightarrow> d \<le> unat h \<and> unat h - d \<in> A"
    by (auto simp: window_abs_def)
  show ?thesis
  proof (cases "q > h")
    case True
    then have lt: "unat h < unat q" and sub: "unat (q - h) = unat q - unat h"
      by (simp_all add: word_less_nat_alt unat_sub word_le_nat_alt)
    have below: "d \<le> unat q \<and> (unat q - d = unat q \<or> unat q - d \<in> A) \<longleftrightarrow>
        d = 0 \<or> (unat q - unat h \<le> d \<and> d \<le> unat q \<and> unat q - d \<in> A)" for d
      by (rule shifted_members [OF _ lt]) (rule top)
    have far: "REPLAY_WINDOW_BITS \<le> q - h \<longleftrightarrow> 64 \<le> unat q - unat h"
      by (simp add: REPLAY_WINDOW_BITS_def word_le_nat_alt sub)
    have new: "bit (if REPLAY_WINDOW_BITS \<le> q - h then 1
          else push_bit (unat (q - h)) (rw_bitmap w) OR 1) d \<longleftrightarrow>
        d \<le> unat q \<and> (unat q - d = unat q \<or> unat q - d \<in> A)" if "d < 64" for d
    proof (cases "64 \<le> unat q - unat h")
      case True
      with far have "REPLAY_WINDOW_BITS \<le> q - h" by blast
      then have one: "bit (if REPLAY_WINDOW_BITS \<le> q - h then 1
          else push_bit (unat (q - h)) (rw_bitmap w) OR 1) d \<longleftrightarrow> d = 0"
        by (simp only: if_True bit_1_iff)
      have "\<not> unat q - unat h \<le> d" using True that by linarith
      with below [of d] one show ?thesis by blast
    next
      case False
      with far have "\<not> REPLAY_WINDOW_BITS \<le> q - h" by blast
      then have shifted: "bit (if REPLAY_WINDOW_BITS \<le> q - h then 1
          else push_bit (unat (q - h)) (rw_bitmap w) OR 1) d \<longleftrightarrow>
          (unat q - unat h \<le> d \<and> bit (rw_bitmap w) (d - (unat q - unat h))) \<or> d = 0"
        using that by (simp only: if_False bit_or_iff bit_push_bit_iff bit_1_iff sub) simp
      have "bit (rw_bitmap w) (d - (unat q - unat h)) \<longleftrightarrow> d \<le> unat q \<and> unat q - d \<in> A"
        if "unat q - unat h \<le> d"
        using bits [of "d - (unat q - unat h)"] \<open>d < 64\<close> shifted_distance [OF lt that]
        by (meson diff_le_self le_less_trans)
      with shifted below [of d] show ?thesis by blast
    qed
    have rec: "rw_highest (window_record w q) = Some q"
      "rw_bitmap (window_record w q) = (if REPLAY_WINDOW_BITS \<le> q - h then 1
          else push_bit (unat (q - h)) (rw_bitmap w) OR 1)"
      using True Some by (simp_all add: window_record_def Let_def)
    show ?thesis
      unfolding window_abs_def rec option.case insert_iff
    proof (intro conjI ballI allI impI disjI1 refl)
      fix a assume "a \<in> insert (unat q) A"
      then show "a \<le> unat q" using top [of a] lt by auto
    qed (rule new)
  next
    case False
    then have le: "unat q \<le> unat h" and sub: "unat (h - q) = unat h - unat q"
      by (simp_all add: word_less_nat_alt unat_sub word_le_nat_alt)
    have "unat h - unat q < 64"
      using window_check_shift [OF ok Some False] by (simp add: sub)
    then have new: "bit (rw_bitmap w OR push_bit (unat (h - q) mod 64) 1) d \<longleftrightarrow>
        d \<le> unat h \<and> (unat h - d = unat q \<or> unat h - d \<in> A)" if "d < 64" for d
      using bits [OF that] that le by (auto simp: bit_or_iff bit_exp_iff sub)
    have rec: "rw_highest (window_record w q) = Some h"
      "rw_bitmap (window_record w q) = rw_bitmap w OR push_bit (unat (h - q) mod 64) 1"
      using False Some by (simp_all add: window_record_def)
    show ?thesis
      unfolding window_abs_def rec option.case insert_iff
    proof (intro conjI ballI allI impI disjI2 hA)
      fix a assume "a \<in> insert (unat q) A"
      then show "a \<le> unat h" using top [of a] le by auto
    qed (rule new)
  qed
qed

text \<open>The window as a machine, and the machine it implements.\<close>

definition window_step :: "replay_window \<Rightarrow> u64 \<Rightarrow> (crypto_error + unit) \<times> replay_window" where
  "window_step w q =
    (case window_check w q of Inl e \<Rightarrow> (Inl e, w) | Inr _ \<Rightarrow> (Inr (), window_record w q))"

definition window_spec_step :: "nat set \<Rightarrow> u64 \<Rightarrow> (crypto_error + unit) \<times> nat set" where
  "window_spec_step A q =
    (case window_spec A (unat q) of Inl e \<Rightarrow> (Inl e, A) | Inr _ \<Rightarrow> (Inr (), insert (unat q) A))"

lemma window_step_simulates:
  assumes "window_abs w A"
  shows "fst (window_step w q) = fst (window_spec_step A q)"
    and "window_abs (snd (window_step w q)) (snd (window_spec_step A q))"
  using assms window_record_abs [OF assms, of q]
  by (auto simp: window_step_def window_spec_step_def window_check_spec split: sum.splits)

lemma window_run_simulates:
  "window_abs w A \<Longrightarrow>
    fst (run_ops window_step w qs) = fst (run_ops window_spec_step A qs)
    \<and> window_abs (snd (run_ops window_step w qs)) (snd (run_ops window_spec_step A qs))"
proof (induction qs arbitrary: w A)
  case Nil
  then show ?case by simp
next
  case (Cons q qs)
  from window_step_simulates [OF Cons.prems, of q] Cons.IH show ?case
    by (simp add: run_ops_Cons_simp del: run_ops.simps)
qed

subsection \<open>What a window refuses, it refuses for ever\<close>

lemma window_spec_insert: "window_spec (insert a A) n = Inr () \<Longrightarrow> window_spec A n = Inr ()"
  by (auto simp: window_spec_def split: if_splits)

lemma window_spec_member: "n \<in> A \<Longrightarrow> window_spec A n \<noteq> Inr ()"
  by (simp add: window_spec_def)

definition guard_abs :: "replay_guard \<Rightarrow> (channel_id \<Rightarrow> nat set) \<Rightarrow> bool" where
  "guard_abs g S \<longleftrightarrow>
    length (rg_channels g) = 9
    \<and> (\<forall>c. window_abs (rg_channels g ! channel_index c) (S c))"

lemma guard_abs_default: "guard_abs replay_guard_default (\<lambda>_. {})"
  using channel_index_less
  by (auto simp: guard_abs_def replay_guard_default_def window_abs_default)

lemma guard_check_spec:
  "guard_abs g S \<Longrightarrow> guard_check g c q =
    (if q > MAX_SECURE_SEQUENCE then Inl SequenceExhausted else window_spec (S c) (unat q))"
  by (simp add: guard_check_def guard_abs_def window_check_spec)

lemma guard_record_abs:
  assumes "guard_abs g S" "guard_check g c q = Inr ()"
  shows "guard_abs (guard_record g c q) (S(c := insert (unat q) (S c)))"
proof -
  have "window_check (rg_channels g ! channel_index c) q = Inr ()"
    using assms(2) by (simp add: guard_check_def split: if_splits)
  then have "window_abs (window_record (rg_channels g ! channel_index c) q) (insert (unat q) (S c))"
    using assms(1) by (simp add: guard_abs_def window_record_abs)
  then show ?thesis
    using assms(1) channel_index_less
    by (auto simp: guard_abs_def guard_record_def nth_list_update)
qed

definition guard_refuses :: "replay_guard \<Rightarrow> (channel_id \<times> u64) set" where
  "guard_refuses g = {(c, q). guard_check g c q \<noteq> Inr ()}"

definition guard_ok :: "replay_guard \<Rightarrow> bool" where
  "guard_ok g \<longleftrightarrow> (\<exists>S. guard_abs g S)"

lemma guard_ok_default [simp]: "guard_ok replay_guard_default"
  using guard_abs_default by (auto simp: guard_ok_def)

lemma guard_record_ok:
  assumes "guard_ok g" "guard_check g c q = Inr ()"
  shows "guard_ok (guard_record g c q)"
    and "guard_refuses g \<subseteq> guard_refuses (guard_record g c q)"
    and "(c, q) \<in> guard_refuses (guard_record g c q)"
proof -
  from assms(1) obtain S where S: "guard_abs g S" by (auto simp: guard_ok_def)
  note S' = guard_record_abs [OF S assms(2)]
  then show "guard_ok (guard_record g c q)" by (auto simp: guard_ok_def)
  show "guard_refuses g \<subseteq> guard_refuses (guard_record g c q)"
    by (auto simp: guard_refuses_def guard_check_spec [OF S] guard_check_spec [OF S']
        dest: window_spec_insert split: if_splits)
  show "(c, q) \<in> guard_refuses (guard_record g c q)"
    by (simp add: guard_refuses_def guard_check_spec [OF S'] window_spec_member)
qed

subsection \<open>Decryption accepts each frame at most once\<close>

lemma unseal_frame_ok:
  "unseal_frame unseal key np dg dir g h ct = Inr pt \<longleftrightarrow>
    kind_accepts_channel (h_kind h) (h_channel_id h)
    \<and> unat (h_payload_len h) = length ct
    \<and> guard_check g (h_channel_id h) (h_sequence h) = Inr ()
    \<and> (\<exists>nonce. build_nonce np (h_channel_id h) (h_sequence h) = Inr nonce
         \<and> unseal key nonce (build_aad h dg dir) ct = Some pt)"
  by (auto simp: unseal_frame_def Let_def result_simps)

lemma decrypt_payload_cases:
  assumes "decrypt_payload unseal key np dg dir g h ct = (r, g')"
  obtains (error) e where "r = Inl e" "g' = g"
  | (opened) pt where "r = Inr pt" "unseal_frame unseal key np dg dir g h ct = Inr pt"
      "guard_check g (h_channel_id h) (h_sequence h) = Inr ()"
      "g' = guard_record g (h_channel_id h) (h_sequence h)"
proof (cases "unseal_frame unseal key np dg dir g h ct")
  case (Inl e)
  with assms show ?thesis by (intro error [of e]) (simp_all add: decrypt_payload_def)
next
  case (Inr pt)
  then have "guard_check g (h_channel_id h) (h_sequence h) = Inr ()"
    by (simp add: unseal_frame_ok)
  with Inr assms show ?thesis by (intro opened [of pt]) (simp_all add: decrypt_payload_def)
qed

definition opened_key :: "message_header \<times> bytes \<Rightarrow> crypto_error + bytes
    \<Rightarrow> (channel_id \<times> u64) option" where
  "opened_key m r =
    (case r of Inl _ \<Rightarrow> None | Inr _ \<Rightarrow> Some (h_channel_id (fst m), h_sequence (fst m)))"

lemma decrypt_payload_step:
  assumes step: "decrypt_payload unseal key np dg dir g h ct = (r, g')" and ok: "guard_ok g"
  shows "guard_ok g'" and "guard_refuses g \<subseteq> guard_refuses g'"
    and "r = Inr pt \<Longrightarrow> (h_channel_id h, h_sequence h) \<notin> guard_refuses g"
    and "r = Inr pt \<Longrightarrow> (h_channel_id h, h_sequence h) \<in> guard_refuses g'"
  using step
  by (cases rule: decrypt_payload_cases;
      use ok guard_record_ok [OF ok] in \<open>simp add: guard_refuses_def\<close>)+

interpretation frames: at_most_once
  "\<lambda>g m. decrypt_payload unseal key np dg dir g (fst m) (snd m)" guard_ok opened_key guard_refuses
  for unseal key np dg dir
proof
  fix g :: replay_guard and m :: "message_header \<times> bytes" and k :: "channel_id \<times> u64"
  assume ok: "guard_ok g"
  obtain r g' where step: "decrypt_payload unseal key np dg dir g (fst m) (snd m) = (r, g')"
    by fastforce
  note facts = decrypt_payload_step [OF step ok]
  show "guard_ok (snd (decrypt_payload unseal key np dg dir g (fst m) (snd m)))"
    using facts(1) by (simp add: step)
  show "guard_refuses g \<subseteq> guard_refuses (snd (decrypt_payload unseal key np dg dir g (fst m) (snd m)))"
    using facts(2) by (simp add: step)
  assume "opened_key m (fst (decrypt_payload unseal key np dg dir g (fst m) (snd m))) = Some k"
  then obtain pt where "r = Inr pt" and k: "k = (h_channel_id (fst m), h_sequence (fst m))"
    by (auto simp: step opened_key_def split: sum.splits)
  with facts(3,4) show "k \<notin> guard_refuses g"
    and "k \<in> guard_refuses (snd (decrypt_payload unseal key np dg dir g (fst m) (snd m)))"
    by (simp_all add: step)
qed

subsection \<open>Round trip\<close>

lemma encrypt_payload_ok:
  "encrypt_payload seal key np dg dir h pt = Inr (h', ct) \<longleftrightarrow>
    kind_accepts_channel (h_kind h) (h_channel_id h)
    \<and> length pt + AUTH_TAG_LEN < 2 ^ 32
    \<and> h' = h\<lparr>h_payload_len := of_nat (length pt + AUTH_TAG_LEN)\<rparr>
    \<and> (\<exists>nonce. build_nonce np (h_channel_id h) (h_sequence h) = Inr nonce
         \<and> seal key nonce (build_aad h' dg dir) pt = Some ct)"
  by (auto simp: encrypt_payload_def Let_def result_simps u32_try_from_def simp del: of_nat_add)

lemma decrypt_encrypt_payload:
  assumes aead: "\<And>k n a m c. seal k n a m = Some c \<Longrightarrow>
      unseal k n a c = Some m \<and> length c = length m + AUTH_TAG_LEN"
    and enc: "encrypt_payload seal key np dg dir h pt = Inr (h', ct)"
    and fresh: "guard_check g (h_channel_id h) (h_sequence h) = Inr ()"
  shows "decrypt_payload unseal key np dg dir g h' ct =
    (Inr pt, guard_record g (h_channel_id h) (h_sequence h))"
proof -
  from enc obtain nonce where e: "kind_accepts_channel (h_kind h) (h_channel_id h)"
    "length pt + AUTH_TAG_LEN < 2 ^ 32"
    "h' = h\<lparr>h_payload_len := of_nat (length pt + AUTH_TAG_LEN)\<rparr>"
    "build_nonce np (h_channel_id h) (h_sequence h) = Inr nonce"
    "seal key nonce (build_aad h' dg dir) pt = Some ct"
    by (simp only: encrypt_payload_ok) blast
  from aead [OF e(5)] have dec: "unseal key nonce (build_aad h' dg dir) ct = Some pt"
    and len: "length ct = length pt + AUTH_TAG_LEN" by auto
  have "unat (h_payload_len h') = length ct"
    using e(2) by (simp add: e(3) len unat_of_nat del: of_nat_add)
  moreover have same: "h_kind h' = h_kind h" "h_channel_id h' = h_channel_id h"
    "h_sequence h' = h_sequence h" by (simp_all add: e(3))
  ultimately have "unseal_frame unseal key np dg dir g h' ct = Inr pt"
    using e(1,4) dec fresh by (simp only: unseal_frame_ok same) blast
  then show ?thesis by (simp only: decrypt_payload_def sum.case same)
qed

end
