(* ===== verification/Rc_Keys.thy ===== *)
theory Rc_Keys
  imports Rc_E2ee
begin

section \<open>Key exchange, key derivation and key confirmation\<close>

text \<open>
  \<^verbatim>\<open>crates/remote-crypto/src/session.rs\<close> and \<^verbatim>\<open>identity.rs\<close>. The cryptographic crates
  (\<^verbatim>\<open>sha2\<close>, \<^verbatim>\<open>hmac\<close>, \<^verbatim>\<open>hkdf\<close>, \<^verbatim>\<open>ed25519-dalek\<close>, \<^verbatim>\<open>x25519-dalek\<close>) are the fields of the
  record \<open>primitives\<close>, a parameter of every function that calls them.
\<close>

record primitives =
  pr_sha256 :: "bytes \<Rightarrow> bytes"
  \<comment> \<open>\<^verbatim>\<open>Hmac::new_from_slice(key)\<close>, \<^verbatim>\<open>update\<close>, \<^verbatim>\<open>finalize\<close>; \<open>None\<close> is a refused key\<close>
  pr_hmac :: "bytes \<Rightarrow> bytes \<Rightarrow> bytes option"
  \<comment> \<open>\<^verbatim>\<open>Hkdf::new(Some(salt), secret).expand(info, out)\<close> for an output length\<close>
  pr_hkdf :: "bytes \<Rightarrow> bytes \<Rightarrow> bytes \<Rightarrow> nat \<Rightarrow> bytes option"
  \<comment> \<open>Ed25519: public key of a private key, signature, verification (\<open>None\<close>: bad key)\<close>
  pr_public :: "bytes \<Rightarrow> bytes"
  pr_sign :: "bytes \<Rightarrow> bytes \<Rightarrow> bytes"
  pr_verify :: "bytes \<Rightarrow> bytes \<Rightarrow> bytes \<Rightarrow> bool option"
  \<comment> \<open>X25519: public key of a secret and the shared secret\<close>
  pr_x_public :: "bytes \<Rightarrow> bytes"
  pr_x_shared :: "bytes \<Rightarrow> bytes \<Rightarrow> bytes"
  \<comment> \<open>ChaCha20-Poly1305\<close>
  pr_seal :: aead
  pr_unseal :: aead

subsection \<open>Identity keys\<close>

record device_key_pair =
  dk_public_key :: bytes
  dk_private_key :: bytes

definition from_private_key :: "primitives \<Rightarrow> bytes \<Rightarrow> device_key_pair" where
  "from_private_key pr private_key =
    \<lparr>dk_public_key = pr_public pr private_key, dk_private_key = private_key\<rparr>"

definition try_from_platform_keys ::
    "primitives \<Rightarrow> bytes \<Rightarrow> bytes \<Rightarrow> crypto_error + device_key_pair" where
  "try_from_platform_keys pr public_key private_key =
    (let key_pair = from_private_key pr private_key in
     if dk_public_key key_pair = public_key then Inr key_pair else Inl InvalidPublicKey)"

definition sign_digest :: "primitives \<Rightarrow> device_key_pair \<Rightarrow> bytes \<Rightarrow> bytes" where
  "sign_digest pr key digest = pr_sign pr (dk_private_key key) digest"

definition sign_canonical :: "primitives \<Rightarrow> device_key_pair \<Rightarrow> bytes \<Rightarrow> bytes" where
  "sign_canonical pr key canonical_bytes = sign_digest pr key (pr_sha256 pr canonical_bytes)"

definition verify_digest_signature ::
    "primitives \<Rightarrow> bytes \<Rightarrow> bytes \<Rightarrow> bytes \<Rightarrow> crypto_error + unit" where
  "verify_digest_signature pr public_key digest signature =
    (case pr_verify pr public_key digest signature of
       None \<Rightarrow> Inl InvalidPublicKey
     | Some valid \<Rightarrow> if valid then Inr () else Inl SignatureMismatch)"

definition verify_canonical_signature ::
    "primitives \<Rightarrow> bytes \<Rightarrow> bytes \<Rightarrow> bytes \<Rightarrow> crypto_error + unit" where
  "verify_canonical_signature pr public_key canonical_bytes signature =
    verify_digest_signature pr public_key (pr_sha256 pr canonical_bytes) signature"

record ephemeral_key_pair =
  ek_secret :: bytes
  ek_public_key :: bytes

definition from_secret_bytes :: "primitives \<Rightarrow> bytes \<Rightarrow> ephemeral_key_pair" where
  "from_secret_bytes pr secret = \<lparr>ek_secret = secret, ek_public_key = pr_x_public pr secret\<rparr>"

definition diffie_hellman ::
    "primitives \<Rightarrow> ephemeral_key_pair \<Rightarrow> bytes \<Rightarrow> crypto_error + bytes" where
  "diffie_hellman pr kp peer_public_key =
    (let shared_secret = pr_x_shared pr (ek_secret kp) peer_public_key in
     if shared_secret = replicate 32 0 then Inl NonContributoryKeyExchange
     else Inr shared_secret)"

subsection \<open>Derived keys\<close>

record derived_session_keys =
  sk_controller_to_controlled_key :: bytes
  sk_controller_to_controlled_nonce_prefix :: bytes
  sk_controlled_to_controller_key :: bytes
  sk_controlled_to_controller_nonce_prefix :: bytes
  sk_key_confirmation_controller_to_controlled :: bytes
  sk_key_confirmation_controlled_to_controller :: bytes

fun traffic_key :: "derived_session_keys \<Rightarrow> traffic_direction \<Rightarrow> bytes" where
  "traffic_key k ControllerToControlled = sk_controller_to_controlled_key k"
| "traffic_key k ControlledToController = sk_controlled_to_controller_key k"

fun nonce_prefix :: "derived_session_keys \<Rightarrow> traffic_direction \<Rightarrow> bytes" where
  "nonce_prefix k ControllerToControlled = sk_controller_to_controlled_nonce_prefix k"
| "nonce_prefix k ControlledToController = sk_controlled_to_controller_nonce_prefix k"

fun confirmation_key :: "derived_session_keys \<Rightarrow> traffic_direction \<Rightarrow> bytes" where
  "confirmation_key k ControllerToControlled = sk_key_confirmation_controller_to_controlled k"
| "confirmation_key k ControlledToController = sk_key_confirmation_controlled_to_controller k"

definition permissions_digest ::
    "primitives \<Rightarrow> session_permissions \<Rightarrow> crypto_error + bytes" where
  "permissions_digest pr permissions =
    map_err (\<lambda>_. CanonicalEncoding)
      (map_ok (pr_sha256 pr) (permissions_canonical_bytes permissions))"

definition session_context_hash :: "primitives \<Rightarrow> session_context \<Rightarrow> crypto_error + bytes" where
  "session_context_hash pr context =
    map_err (\<lambda>_. CanonicalEncoding)
      (map_ok (pr_sha256 pr) (session_context_canonical_bytes context))"

definition sign_key_exchange ::
    "primitives \<Rightarrow> signed_key_exchange_payload \<Rightarrow> device_key_pair
      \<Rightarrow> crypto_error + signed_key_exchange" where
  "sign_key_exchange pr payload device_key =
    (if \<not> validate_path_binding payload then Inl InvalidKeyExchangeContext
     else
       and_then (map_err (\<lambda>_. CanonicalEncoding) (key_exchange_canonical_bytes payload))
         (\<lambda>canonical.
       Inr \<lparr>ske_payload = payload, ske_signature = sign_canonical pr device_key canonical\<rparr>))"

definition verify_key_exchange ::
    "primitives \<Rightarrow> signed_key_exchange \<Rightarrow> signed_key_exchange_payload \<Rightarrow> bytes
      \<Rightarrow> crypto_error + unit" where
  "verify_key_exchange pr message expected_payload device_public_key =
    (if ske_payload message \<noteq> expected_payload \<or> \<not> validate_path_binding (ske_payload message)
     then Inl InvalidKeyExchangeContext
     else
       and_then (map_err (\<lambda>_. CanonicalEncoding)
           (key_exchange_canonical_bytes (ske_payload message))) (\<lambda>canonical.
       and_then (ok_or InvalidSignature (signature_bytes message)) (\<lambda>signature.
       verify_canonical_signature pr device_public_key canonical signature)))"

text \<open>The transcript before hashing, and its hash.\<close>

definition key_exchange_transcript ::
    "signed_key_exchange \<Rightarrow> signed_key_exchange \<Rightarrow> crypto_error + bytes" where
  "key_exchange_transcript controller controlled =
    (if ke_role (ske_payload controller) \<noteq> Controller
        \<or> ke_role (ske_payload controlled) \<noteq> Controlled
     then Inl DeviceRoleMismatch
     else
       and_then (map_err (\<lambda>_. CanonicalEncoding)
           (key_exchange_canonical_bytes (ske_payload controller))) (\<lambda>controller_canonical.
       and_then (map_err (\<lambda>_. CanonicalEncoding)
           (key_exchange_canonical_bytes (ske_payload controlled))) (\<lambda>controlled_canonical.
       and_then (ok_or InvalidSignature (signature_bytes controller)) (\<lambda>controller_signature.
       and_then (ok_or InvalidSignature (signature_bytes controlled)) (\<lambda>controlled_signature.
       Inr (controller_canonical @ controller_signature
            @ controlled_canonical @ controlled_signature))))))"

definition key_exchange_transcript_hash ::
    "primitives \<Rightarrow> signed_key_exchange \<Rightarrow> signed_key_exchange \<Rightarrow> crypto_error + bytes" where
  "key_exchange_transcript_hash pr controller controlled =
    map_ok (pr_sha256 pr) (key_exchange_transcript controller controlled)"

definition expand ::
    "primitives \<Rightarrow> bytes \<Rightarrow> bytes \<Rightarrow> nat \<Rightarrow> bytes \<Rightarrow> string \<Rightarrow> crypto_error + bytes" where
  "expand pr salt shared_secret n base label =
    ok_or KeyDerivation (pr_hkdf pr salt shared_secret (base @ str_bytes label) n)"

definition derive_session_keys ::
    "primitives \<Rightarrow> bytes \<Rightarrow> session_kdf_context \<Rightarrow> crypto_error + derived_session_keys" where
  "derive_session_keys pr shared_secret context =
    (if is_relay (kdf_selected_transport_path context) \<noteq> (kdf_relay_node_id context \<noteq> None)
     then Inl InvalidKeyExchangeContext
     else
       and_then (map_err (\<lambda>_. CanonicalEncoding)
           (map_ok (pr_sha256 pr) (salt_canonical_bytes context))) (\<lambda>salt.
       and_then (map_err (\<lambda>_. CanonicalEncoding) (info_base context)) (\<lambda>base.
       and_then (expand pr salt shared_secret 32 base ''controller_to_controlled_key'') (\<lambda>k1.
       and_then (expand pr salt shared_secret 4 base ''controller_to_controlled_nonce_prefix'') (\<lambda>n1.
       and_then (expand pr salt shared_secret 32 base ''controlled_to_controller_key'') (\<lambda>k2.
       and_then (expand pr salt shared_secret 4 base ''controlled_to_controller_nonce_prefix'') (\<lambda>n2.
       and_then (expand pr salt shared_secret 32 base
           ''key_confirmation_controller_to_controlled'') (\<lambda>c1.
       and_then (expand pr salt shared_secret 32 base
           ''key_confirmation_controlled_to_controller'') (\<lambda>c2.
       Inr \<lparr>sk_controller_to_controlled_key = k1,
            sk_controller_to_controlled_nonce_prefix = n1,
            sk_controlled_to_controller_key = k2,
            sk_controlled_to_controller_nonce_prefix = n2,
            sk_key_confirmation_controller_to_controlled = c1,
            sk_key_confirmation_controlled_to_controller = c2\<rparr>)))))))))"

subsection \<open>Key confirmation\<close>

definition KEY_CONFIRM_WINDOW_MILLIS :: u64 where
  "KEY_CONFIRM_WINDOW_MILLIS = 30000"

definition create_key_confirm ::
    "primitives \<Rightarrow> u128 \<Rightarrow> string \<Rightarrow> session_role \<Rightarrow> bytes \<Rightarrow> u64 \<Rightarrow> derived_session_keys
      \<Rightarrow> crypto_error + key_confirm" where
  "create_key_confirm pr session_id device_id role transcript_hash timestamp keys =
    (let confirm = \<lparr>kc_session_id = session_id, kc_device_id = device_id, kc_role = role,
           kc_key_exchange_transcript_hash = transcript_hash,
           kc_confirm_mac = replicate 32 0, kc_timestamp_epoch_millis = timestamp\<rparr> in
     and_then (map_err (\<lambda>_. CanonicalEncoding) (key_confirm_canonical_mac_input confirm))
       (\<lambda>canonical.
     let direction = from_sender_role role in
     and_then (ok_or KeyDerivation (pr_hmac pr (confirmation_key keys direction) canonical))
       (\<lambda>mac. Inr (confirm\<lparr>kc_confirm_mac := mac\<rparr>))))"

record key_confirm_replay_guard =
  kg_accepted :: "bytes set"

definition key_confirm_replay_guard_default :: key_confirm_replay_guard where
  "key_confirm_replay_guard_default = \<lparr>kg_accepted = {}\<rparr>"

text \<open>The checks before the fingerprint is inserted; the result is the fingerprint.\<close>

definition key_confirm_checked ::
    "primitives \<Rightarrow> key_confirm \<Rightarrow> string \<Rightarrow> session_role \<Rightarrow> bytes \<Rightarrow> u64 \<Rightarrow> derived_session_keys
      \<Rightarrow> crypto_error + bytes" where
  "key_confirm_checked pr confirm expected_device_id expected_role expected_transcript_hash now keys =
    (if kc_device_id confirm \<noteq> expected_device_id \<or> kc_role confirm \<noteq> expected_role
     then Inl DeviceRoleMismatch
     else if kc_key_exchange_transcript_hash confirm \<noteq> expected_transcript_hash
     then Inl InvalidKeyExchangeContext
     else if abs_diff now (kc_timestamp_epoch_millis confirm) > KEY_CONFIRM_WINDOW_MILLIS
     then Inl TimestampOutsideWindow
     else
       and_then (map_err (\<lambda>_. CanonicalEncoding) (key_confirm_canonical_mac_input confirm))
         (\<lambda>canonical.
       let direction = from_sender_role (kc_role confirm) in
       and_then (ok_or KeyDerivation (pr_hmac pr (confirmation_key keys direction) canonical))
         (\<lambda>mac.
       if mac \<noteq> kc_confirm_mac confirm then Inl AuthenticationFailed
       else Inr (pr_sha256 pr (canonical @ kc_confirm_mac confirm)))))"

definition key_confirm_verify ::
    "primitives \<Rightarrow> key_confirm_replay_guard \<Rightarrow> key_confirm \<Rightarrow> string \<Rightarrow> session_role \<Rightarrow> bytes
      \<Rightarrow> u64 \<Rightarrow> derived_session_keys \<Rightarrow> (crypto_error + unit) \<times> key_confirm_replay_guard" where
  "key_confirm_verify pr g confirm expected_device_id expected_role expected_transcript_hash now keys =
    (case key_confirm_checked pr confirm expected_device_id expected_role
            expected_transcript_hash now keys of
       Inl e \<Rightarrow> (Inl e, g)
     | Inr fingerprint \<Rightarrow>
         if fingerprint \<in> kg_accepted g then (Inl ReplayDetected, g)
         else (Inr (), g\<lparr>kg_accepted := insert fingerprint (kg_accepted g)\<rparr>))"

subsection \<open>Signatures\<close>

definition signature_scheme :: "primitives \<Rightarrow> bool" where
  "signature_scheme pr \<longleftrightarrow>
    (\<forall>sk m. length (pr_sign pr sk m) = 64
       \<and> pr_verify pr (pr_public pr sk) m (pr_sign pr sk m) = Some True)"

lemma verify_canonical_signature_ok:
  "verify_canonical_signature pr pk m sig = Inr u \<longleftrightarrow>
    pr_verify pr pk (pr_sha256 pr m) sig = Some True"
  by (auto simp: verify_canonical_signature_def verify_digest_signature_def split: option.splits)

lemma sign_verify_key_exchange:
  assumes "signature_scheme pr"
    and "sign_key_exchange pr p (from_private_key pr sk) = Inr m"
  shows "verify_key_exchange pr m p (pr_public pr sk) = Inr ()"
  using assms
  by (auto simp: sign_key_exchange_def verify_key_exchange_def result_simps signature_scheme_def
      signature_bytes_def sign_canonical_def sign_digest_def from_private_key_def
      verify_canonical_signature_ok)

lemma verify_key_exchange_ok:
  "verify_key_exchange pr m p pk = Inr u \<longleftrightarrow>
    ske_payload m = p \<and> validate_path_binding p \<and> length (ske_signature m) = 64
    \<and> (\<exists>c. key_exchange_canonical_bytes p = Inr c
         \<and> pr_verify pr pk (pr_sha256 pr c) (ske_signature m) = Some True)"
  by (auto simp: verify_key_exchange_def result_simps signature_bytes_def
      verify_canonical_signature_ok)

subsection \<open>The transcript and the derivation inputs are unambiguous\<close>

lemma fields_bytes_append_inject:
  assumes "\<forall>f \<in> set fs. field_fits f" "\<forall>g \<in> set gs. field_fits g" "length fs = length gs"
    and "fields_bytes fs @ r = fields_bytes gs @ s"
  shows "fs = gs \<and> r = s"
  using assms(3,1,2,4)
proof (induction fs gs rule: list_induct2)
  case Nil
  then show ?case by (simp add: fields_bytes_def)
next
  case (Cons f fs g gs)
  have "field_bytes f @ fields_bytes fs @ r = field_bytes g @ fields_bytes gs @ s"
    using Cons.prems(3) by (simp add: fields_bytes_def)
  then have "f = g" and "fields_bytes fs @ r = fields_bytes gs @ s"
    using Cons.prems(1,2) by (simp_all add: field_bytes_append_inject)
  with Cons show ?case by simp
qed

lemma key_exchange_prefix_inject:
  assumes "key_exchange_canonical_bytes p = Inr a" "key_exchange_canonical_bytes q = Inr b"
    and "validate_path_binding p" "validate_path_binding q" and "a @ r = b @ s"
  shows "p = q \<and> r = s"
proof -
  have "key_exchange_fields p = key_exchange_fields q \<and> r = s"
    using assms(1,2,5)
    by (intro fields_bytes_append_inject)
      (simp_all add: key_exchange_canonical canonical_encode_ok key_exchange_fields_def)
  then show ?thesis using key_exchange_fields_inject assms(3,4) by blast
qed

lemma signature_bytes_Some:
  "signature_bytes m = Some s \<longleftrightarrow> s = ske_signature m \<and> length s = 64"
  by (auto simp: signature_bytes_def)

lemma transcript_inject:
  assumes t: "key_exchange_transcript a b = Inr t" "key_exchange_transcript c d = Inr t"
    and v: "validate_path_binding (ske_payload a)" "validate_path_binding (ske_payload b)"
      "validate_path_binding (ske_payload c)" "validate_path_binding (ske_payload d)"
  shows "a = c \<and> b = d"
proof -
  from t(1) obtain ca cb where 1: "key_exchange_canonical_bytes (ske_payload a) = Inr ca"
    "key_exchange_canonical_bytes (ske_payload b) = Inr cb" "length (ske_signature a) = 64"
    "length (ske_signature b) = 64" "t = ca @ ske_signature a @ cb @ ske_signature b"
    by (auto simp: key_exchange_transcript_def result_simps signature_bytes_Some split: if_splits)
  from t(2) obtain cc cd where 2: "key_exchange_canonical_bytes (ske_payload c) = Inr cc"
    "key_exchange_canonical_bytes (ske_payload d) = Inr cd" "length (ske_signature c) = 64"
    "length (ske_signature d) = 64" "t = cc @ ske_signature c @ cd @ ske_signature d"
    by (auto simp: key_exchange_transcript_def result_simps signature_bytes_Some split: if_splits)
  have "ske_payload a = ske_payload c \<and> ske_signature a @ cb @ ske_signature b =
      ske_signature c @ cd @ ske_signature d"
    using key_exchange_prefix_inject [OF 1(1) 2(1) v(1,3)] 1(5) 2(5) by metis
  then have ac: "ske_payload a = ske_payload c" "ske_signature a = ske_signature c"
    and rest: "cb @ ske_signature b = cd @ ske_signature d"
    using 1(3) 2(3) by simp_all
  have "ske_payload b = ske_payload d \<and> ske_signature b = ske_signature d"
    using key_exchange_prefix_inject [OF 1(2) 2(2) v(2,4) rest] .
  with ac show ?thesis by (simp add: signed_key_exchange.equality)
qed

lemma info_label_inject:
  assumes "info_base c = Inr a" "info_base d = Inr b"
    and "is_relay (kdf_selected_transport_path c) \<longleftrightarrow> kdf_relay_node_id c \<noteq> None"
    and "is_relay (kdf_selected_transport_path d) \<longleftrightarrow> kdf_relay_node_id d \<noteq> None"
    and "a @ str_bytes l = b @ str_bytes m"
  shows "c = d \<and> l = m"
proof -
  have "info_fields c = info_fields d \<and> str_bytes l = str_bytes m"
    using assms(1,2,5)
    by (intro fields_bytes_append_inject)
      (simp_all add: info_canonical canonical_encode_ok info_fields_def)
  then show ?thesis using info_fields_inject assms(3,4) by simp
qed

subsection \<open>Key confirmation\<close>

lemma key_confirm_checked_ok:
  "key_confirm_checked pr c dev role th now keys = Inr fp \<longleftrightarrow>
    kc_device_id c = dev \<and> kc_role c = role \<and> kc_key_exchange_transcript_hash c = th
    \<and> abs_diff now (kc_timestamp_epoch_millis c) \<le> KEY_CONFIRM_WINDOW_MILLIS
    \<and> (\<exists>m. key_confirm_canonical_mac_input c = Inr m
         \<and> pr_hmac pr (confirmation_key keys (from_sender_role role)) m = Some (kc_confirm_mac c)
         \<and> fp = pr_sha256 pr (m @ kc_confirm_mac c))"
  by (auto simp: key_confirm_checked_def Let_def result_simps not_less)

lemma mac_input_update [simp]:
  "key_confirm_canonical_mac_input (c\<lparr>kc_confirm_mac := mac\<rparr>) = key_confirm_canonical_mac_input c"
  by (simp add: key_confirm_canonical key_confirm_fields_def)

lemma create_key_confirm_fields:
  assumes "create_key_confirm pr sid dev role th ts keys = Inr c"
  shows "kc_session_id c = sid" "kc_device_id c = dev" "kc_role c = role"
    "kc_key_exchange_transcript_hash c = th" "kc_timestamp_epoch_millis c = ts"
  using assms by (auto simp: create_key_confirm_def Let_def result_simps)

text \<open>A confirmation is accepted by a peer with the same keys and transcript, inside the window.\<close>

lemma create_then_checked:
  assumes create: "create_key_confirm pr sid dev role th ts keys = Inr c"
    and time: "abs_diff now ts \<le> KEY_CONFIRM_WINDOW_MILLIS"
  shows "\<exists>fp. key_confirm_checked pr c dev role th now keys = Inr fp"
proof -
  obtain m where "key_confirm_canonical_mac_input c = Inr m"
    "pr_hmac pr (confirmation_key keys (from_sender_role role)) m = Some (kc_confirm_mac c)"
    using create
    by (auto simp: create_key_confirm_def Let_def result_simps key_confirm_canonical
        key_confirm_fields_def)
  with create_key_confirm_fields [OF create] time show ?thesis
    by (simp add: key_confirm_checked_ok)
qed

lemma key_confirm_verify_ok:
  "key_confirm_verify pr g c dev role th now keys = (Inr u, g') \<longleftrightarrow>
    (\<exists>fp. key_confirm_checked pr c dev role th now keys = Inr fp \<and> fp \<notin> kg_accepted g
      \<and> g' = g\<lparr>kg_accepted := insert fp (kg_accepted g)\<rparr>)"
  by (auto simp: key_confirm_verify_def split: sum.splits)

lemma key_confirm_verify_error:
  "key_confirm_verify pr g c dev role th now keys = (Inl e, g') \<Longrightarrow> g' = g"
  by (auto simp: key_confirm_verify_def split: sum.splits if_splits)

end
