(* ===== verification/Rc_Session.thy ===== *)
theory Rc_Session
  imports Rc_Keys
begin

section \<open>The secure session\<close>

text \<open>
  \<^verbatim>\<open>crates/remote-core/src/session_crypto.rs\<close>: the object that gates all traffic of one
  session. It confirms keys, seals and opens frames, checks the permission of every message
  kind and can be invalidated. Methods taking \<^verbatim>\<open>&mut self\<close> return the result and the new
  state; \<open>session_step\<close> collects them as the operations of one machine, so that runs of
  arbitrary interleaved calls can be quantified over.
\<close>

datatype secure_session_state = AwaitingKeyConfirm | Ready | Invalidated

datatype secure_session_error =
    KeyConfirmationRequired
  | SessionInvalidated
  | PermissionDenied
  | SessionMismatch
  | PathChanged
  | PermissionsChanged
  | Crypto crypto_error

record secure_session =
  ss_session_id :: u128
  ss_local_role :: session_role
  ss_permissions :: session_permissions
  ss_permissions_digest :: bytes
  ss_path :: transport_path
  ss_candidate_pair_id :: u128
  ss_relay_node_id :: "string option"
  ss_key_exchange_transcript_hash :: bytes
  ss_keys :: derived_session_keys
  ss_send_sequences :: "u64 list"
  ss_receive_replay_guard :: replay_guard
  ss_key_confirm_replay_guard :: key_confirm_replay_guard
  ss_local_confirm_sent :: bool
  ss_peer_confirmed :: bool
  ss_invalidated :: bool

definition session_new ::
    "u128 \<Rightarrow> session_role \<Rightarrow> session_permissions \<Rightarrow> bytes \<Rightarrow> transport_path \<Rightarrow> u128
      \<Rightarrow> string option \<Rightarrow> bytes \<Rightarrow> derived_session_keys \<Rightarrow> secure_session_error + secure_session" where
  "session_new session_id local_role permissions digest path candidate_pair_id relay_node_id
      transcript_hash keys =
    (if is_relay path \<noteq> (relay_node_id \<noteq> None) then Inl PathChanged
     else Inr \<lparr>ss_session_id = session_id, ss_local_role = local_role,
               ss_permissions = permissions, ss_permissions_digest = digest,
               ss_path = path, ss_candidate_pair_id = candidate_pair_id,
               ss_relay_node_id = relay_node_id,
               ss_key_exchange_transcript_hash = transcript_hash, ss_keys = keys,
               ss_send_sequences = replicate 9 0,
               ss_receive_replay_guard = replay_guard_default,
               ss_key_confirm_replay_guard = key_confirm_replay_guard_default,
               ss_local_confirm_sent = False, ss_peer_confirmed = False,
               ss_invalidated = False\<rparr>)"

definition session_state :: "secure_session \<Rightarrow> secure_session_state" where
  "session_state s =
    (if ss_invalidated s then Invalidated
     else if ss_local_confirm_sent s \<and> ss_peer_confirmed s then Ready
     else AwaitingKeyConfirm)"

definition ensure_not_invalidated :: "secure_session \<Rightarrow> secure_session_error + unit" where
  "ensure_not_invalidated s = (if ss_invalidated s then Inl SessionInvalidated else Inr ())"

definition ensure_ready :: "secure_session \<Rightarrow> secure_session_error + unit" where
  "ensure_ready s =
    and_then (ensure_not_invalidated s) (\<lambda>_.
    if ss_local_confirm_sent s \<and> ss_peer_confirmed s then Inr () else Inl KeyConfirmationRequired)"

fun kind_permitted :: "session_permissions \<Rightarrow> message_kind \<Rightarrow> bool" where
  "kind_permitted p KeyExchangeMessage = True"
| "kind_permitted p KeyConfirm = True"
| "kind_permitted p ErrorReport = True"
| "kind_permitted p InputEvent = sp_input_control p"
| "kind_permitted p MediaCapabilities = sp_remote_desktop p"
| "kind_permitted p MediaConfigRequest = sp_remote_desktop p"
| "kind_permitted p MediaConfigState = sp_remote_desktop p"
| "kind_permitted p MediaQualityRequest = sp_remote_desktop p"
| "kind_permitted p MediaQualityState = sp_remote_desktop p"
| "kind_permitted p KeyframeRequest = sp_remote_desktop p"
| "kind_permitted p VideoFrameInfo = sp_remote_desktop p"
| "kind_permitted p VideoFrameData = sp_remote_desktop p"
| "kind_permitted p DisplayList = sp_remote_desktop p"
| "kind_permitted p DisplaySelect = sp_remote_desktop p"
| "kind_permitted p DisplayChanged = sp_remote_desktop p"
| "kind_permitted p ClipboardPermissionRequest = sp_clipboard p"
| "kind_permitted p ClipboardPermissionState = sp_clipboard p"
| "kind_permitted p ClipboardText = sp_clipboard p"
| "kind_permitted p FileTransferRequest = sp_file_transfer p"
| "kind_permitted p FileTransferAck = sp_file_transfer p"
| "kind_permitted p FileChunk = sp_file_transfer p"
| "kind_permitted p FileTransferCancel = sp_file_transfer p"
| "kind_permitted p PrivacyModeRequest = (sp_privacy_screen p \<or> sp_block_local_input p)"
| "kind_permitted p PrivacyModeState = (sp_privacy_screen p \<or> sp_block_local_input p)"
| "kind_permitted p PrivacyModeRestore = (sp_privacy_screen p \<or> sp_block_local_input p)"
| "kind_permitted p RebootRequest = True"
| "kind_permitted p RebootState = True"
| "kind_permitted p RebootCancel = True"
| "kind_permitted p RebootResumeHint = True"
| "kind_permitted p Stats = True"

definition authorize :: "secure_session \<Rightarrow> message_kind \<Rightarrow> secure_session_error + unit" where
  "authorize s kind =
    (if kind_permitted (ss_permissions s) kind then Inr () else Inl PermissionDenied)"

subsection \<open>Operations\<close>

definition create_local_key_confirm ::
    "primitives \<Rightarrow> secure_session \<Rightarrow> string \<Rightarrow> u64
      \<Rightarrow> (secure_session_error + key_confirm) \<times> secure_session" where
  "create_local_key_confirm pr s device_id timestamp =
    (case ensure_not_invalidated s of
       Inl e \<Rightarrow> (Inl e, s)
     | Inr _ \<Rightarrow>
         if ss_local_confirm_sent s then (Inl (Crypto ReplayDetected), s)
         else
           case create_key_confirm pr (ss_session_id s) device_id (ss_local_role s)
                  (ss_key_exchange_transcript_hash s) timestamp (ss_keys s) of
             Inl e \<Rightarrow> (Inl (Crypto e), s)
           | Inr confirm \<Rightarrow> (Inr confirm, s\<lparr>ss_local_confirm_sent := True\<rparr>))"

fun opposite_role :: "session_role \<Rightarrow> session_role" where
  "opposite_role Controller = Controlled"
| "opposite_role Controlled = Controller"

definition verify_peer_key_confirm ::
    "primitives \<Rightarrow> secure_session \<Rightarrow> key_confirm \<Rightarrow> string \<Rightarrow> u64
      \<Rightarrow> (secure_session_error + unit) \<times> secure_session" where
  "verify_peer_key_confirm pr s confirm expected_peer_device_id now =
    (case ensure_not_invalidated s of
       Inl e \<Rightarrow> (Inl e, s)
     | Inr _ \<Rightarrow>
         if ss_peer_confirmed s
         then (Inl (Crypto ReplayDetected), s\<lparr>ss_invalidated := True\<rparr>)
         else if kc_session_id confirm \<noteq> ss_session_id s \<or> kc_role confirm = ss_local_role s
         then (Inl SessionMismatch, s\<lparr>ss_invalidated := True\<rparr>)
         else
           let (verification, guard) =
             key_confirm_verify pr (ss_key_confirm_replay_guard s) confirm
               expected_peer_device_id (opposite_role (ss_local_role s))
               (ss_key_exchange_transcript_hash s) now (ss_keys s);
             s = s\<lparr>ss_key_confirm_replay_guard := guard\<rparr>
           in case verification of
                Inl e \<Rightarrow> (Inl (Crypto e), s\<lparr>ss_invalidated := True\<rparr>)
              | Inr _ \<Rightarrow> (Inr (), s\<lparr>ss_peer_confirmed := True\<rparr>))"

text \<open>The fallible part of \<^verbatim>\<open>seal\<close>, and \<^verbatim>\<open>seal\<close> itself, which then advances the sequence.\<close>

definition seal_frame ::
    "primitives \<Rightarrow> secure_session \<Rightarrow> message_kind \<Rightarrow> channel_id \<Rightarrow> u16 \<Rightarrow> bytes
      \<Rightarrow> secure_session_error + message_header \<times> bytes" where
  "seal_frame pr s kind channel flags plaintext =
    and_then (ensure_ready s) (\<lambda>_.
    and_then (authorize s kind) (\<lambda>_.
    let sequence = ss_send_sequences s ! channel_index channel in
    if sequence > MAX_SECURE_SEQUENCE then Inl (Crypto SequenceExhausted)
    else
      and_then (map_err (\<lambda>_. Crypto InvalidChannel)
          (header_new_on_channel kind channel (ss_session_id s) sequence 0)) (\<lambda>header.
      let header = header\<lparr>h_flags := flags\<rparr>;
          direction = from_sender_role (ss_local_role s)
      in map_err Crypto
           (encrypt_payload (pr_seal pr) (traffic_key (ss_keys s) direction)
             (nonce_prefix (ss_keys s) direction) (ss_permissions_digest s) direction
             header plaintext))))"

definition session_seal ::
    "primitives \<Rightarrow> secure_session \<Rightarrow> message_kind \<Rightarrow> channel_id \<Rightarrow> u16 \<Rightarrow> bytes
      \<Rightarrow> (secure_session_error + message_header \<times> bytes) \<times> secure_session" where
  "session_seal pr s kind channel flags plaintext =
    (case seal_frame pr s kind channel flags plaintext of
       Inl e \<Rightarrow> (Inl e, s)
     | Inr encrypted \<Rightarrow>
         (Inr encrypted,
          s\<lparr>ss_send_sequences := (ss_send_sequences s)[channel_index channel :=
              saturating_add (ss_send_sequences s ! channel_index channel) 1]\<rparr>))"

definition session_open ::
    "primitives \<Rightarrow> secure_session \<Rightarrow> message_header \<Rightarrow> bytes
      \<Rightarrow> (secure_session_error + bytes) \<times> secure_session" where
  "session_open pr s header ciphertext =
    (case ensure_ready s of
       Inl e \<Rightarrow> (Inl e, s)
     | Inr _ \<Rightarrow>
         if h_session_id header \<noteq> ss_session_id s then (Inl SessionMismatch, s)
         else
           let direction = reverse (from_sender_role (ss_local_role s));
               (opened, guard) =
                 decrypt_payload (pr_unseal pr) (traffic_key (ss_keys s) direction)
                   (nonce_prefix (ss_keys s) direction) (ss_permissions_digest s) direction
                   (ss_receive_replay_guard s) header ciphertext;
               s = s\<lparr>ss_receive_replay_guard := guard\<rparr>
           in case opened of
                Inl e \<Rightarrow> (Inl (Crypto e), s)
              | Inr plaintext \<Rightarrow>
                  (and_then (authorize s (h_kind header)) (\<lambda>_. Inr plaintext), s))"

definition invalidate_if_binding_changed ::
    "secure_session \<Rightarrow> bytes \<Rightarrow> transport_path \<Rightarrow> u128 \<Rightarrow> string option
      \<Rightarrow> (secure_session_error + unit) \<times> secure_session" where
  "invalidate_if_binding_changed s digest path candidate_pair_id relay_node_id =
    (if digest \<noteq> ss_permissions_digest s
     then (Inl PermissionsChanged, s\<lparr>ss_invalidated := True\<rparr>)
     else if path \<noteq> ss_path s \<or> candidate_pair_id \<noteq> ss_candidate_pair_id s
       \<or> relay_node_id \<noteq> ss_relay_node_id s
     then (Inl PathChanged, s\<lparr>ss_invalidated := True\<rparr>)
     else (Inr (), s))"

definition invalidate_for_reboot :: "secure_session \<Rightarrow> secure_session" where
  "invalidate_for_reboot s = s\<lparr>ss_invalidated := True\<rparr>"

definition restore_send_sequence ::
    "secure_session \<Rightarrow> channel_id \<Rightarrow> u64 \<Rightarrow> (secure_session_error + unit) \<times> secure_session" where
  "restore_send_sequence s channel next_sequence =
    (case ensure_not_invalidated s of
       Inl e \<Rightarrow> (Inl e, s)
     | Inr _ \<Rightarrow>
         if next_sequence < ss_send_sequences s ! channel_index channel
            \<or> next_sequence > MAX_SECURE_SEQUENCE
         then (Inl (Crypto ReplayDetected), s)
         else (Inr (), s\<lparr>ss_send_sequences :=
                 (ss_send_sequences s)[channel_index channel := next_sequence]\<rparr>))"

subsection \<open>The machine\<close>

datatype session_op =
    CreateConfirm string u64
  | VerifyConfirm key_confirm string u64
  | Seal message_kind channel_id u16 bytes
  | Open message_header bytes
  | CheckBinding bytes transport_path u128 "string option"
  | Reboot
  | RestoreSequence channel_id u64

datatype session_out =
    Confirmed key_confirm
  | Done
  | Sealed message_header bytes
  | Opened bytes

definition session_step ::
    "primitives \<Rightarrow> secure_session \<Rightarrow> session_op
      \<Rightarrow> (secure_session_error + session_out) \<times> secure_session" where
  "session_step pr s x =
    (case x of
       CreateConfirm d t \<Rightarrow> apfst (map_ok Confirmed) (create_local_key_confirm pr s d t)
     | VerifyConfirm c d t \<Rightarrow> apfst (map_ok (\<lambda>_. Done)) (verify_peer_key_confirm pr s c d t)
     | Seal k ch f pt \<Rightarrow> apfst (map_ok (case_prod Sealed)) (session_seal pr s k ch f pt)
     | Open h ct \<Rightarrow> apfst (map_ok Opened) (session_open pr s h ct)
     | CheckBinding d p c r \<Rightarrow>
         apfst (map_ok (\<lambda>_. Done)) (invalidate_if_binding_changed s d p c r)
     | Reboot \<Rightarrow> (Inr Done, invalidate_for_reboot s)
     | RestoreSequence ch q \<Rightarrow> apfst (map_ok (\<lambda>_. Done)) (restore_send_sequence s ch q))"

subsection \<open>What each operation does\<close>

lemma ensure_ready_ok [result_simps]: "ensure_ready s = Inr u \<longleftrightarrow> session_state s = Ready"
  by (simp add: ensure_ready_def ensure_not_invalidated_def session_state_def result_simps)

lemma ensure_not_invalidated_ok [result_simps]:
  "ensure_not_invalidated s = Inr u \<longleftrightarrow> \<not> ss_invalidated s"
  by (simp add: ensure_not_invalidated_def)

lemma authorize_ok [result_simps]:
  "authorize s k = Inr u \<longleftrightarrow> kind_permitted (ss_permissions s) k"
  by (simp add: authorize_def)

definition send_header :: "secure_session \<Rightarrow> message_kind \<Rightarrow> channel_id \<Rightarrow> u16 \<Rightarrow> message_header" where
  "send_header s kind channel flags =
    \<lparr>h_version = PROTOCOL_VERSION, h_kind = kind, h_flags = flags, h_channel_id = channel,
     h_session_id = ss_session_id s, h_sequence = ss_send_sequences s ! channel_index channel,
     h_payload_len = 0\<rparr>"

lemma send_header_simps [simp]:
  "h_kind (send_header s k c f) = k" "h_channel_id (send_header s k c f) = c"
  "h_session_id (send_header s k c f) = ss_session_id s"
  "h_sequence (send_header s k c f) = ss_send_sequences s ! channel_index c"
  by (simp_all add: send_header_def)

lemma seal_frame_ok:
  "seal_frame pr s k c f pt = Inr (h, ct) \<longleftrightarrow>
    session_state s = Ready \<and> kind_permitted (ss_permissions s) k
    \<and> ss_send_sequences s ! channel_index c \<le> MAX_SECURE_SEQUENCE
    \<and> encrypt_payload (pr_seal pr) (traffic_key (ss_keys s) (from_sender_role (ss_local_role s)))
        (nonce_prefix (ss_keys s) (from_sender_role (ss_local_role s))) (ss_permissions_digest s)
        (from_sender_role (ss_local_role s)) (send_header s k c f) pt = Inr (h, ct)"
  by (auto simp: seal_frame_def Let_def result_simps header_new_on_channel_ok header_new_def
      send_header_def encrypt_payload_ok not_less)

lemma session_seal_ok:
  "session_seal pr s k c f pt = (Inr (h, ct), s') \<longleftrightarrow>
    seal_frame pr s k c f pt = Inr (h, ct)
    \<and> s' = s\<lparr>ss_send_sequences := (ss_send_sequences s)[channel_index c :=
        saturating_add (ss_send_sequences s ! channel_index c) 1]\<rparr>"
  by (auto simp: session_seal_def split: sum.splits)

lemma seal_frame_header:
  assumes "seal_frame pr s k c f pt = Inr (h, ct)"
  shows "h_kind h = k" "h_channel_id h = c" "h_session_id h = ss_session_id s"
    "h_sequence h = ss_send_sequences s ! channel_index c"
    "h_sequence h \<le> MAX_SECURE_SEQUENCE"
  using assms by (auto simp: seal_frame_ok encrypt_payload_ok)

abbreviation receive_direction :: "secure_session \<Rightarrow> traffic_direction" where
  "receive_direction s \<equiv> reverse (from_sender_role (ss_local_role s))"

abbreviation receive_frame ::
    "primitives \<Rightarrow> secure_session \<Rightarrow> message_header \<Rightarrow> bytes
      \<Rightarrow> (crypto_error + bytes) \<times> replay_guard" where
  "receive_frame pr s h ct \<equiv>
    decrypt_payload (pr_unseal pr) (traffic_key (ss_keys s) (receive_direction s))
      (nonce_prefix (ss_keys s) (receive_direction s)) (ss_permissions_digest s)
      (receive_direction s) (ss_receive_replay_guard s) h ct"

lemma session_open_ok:
  "session_open pr s h ct = (Inr pt, s') \<longleftrightarrow>
    session_state s = Ready \<and> h_session_id h = ss_session_id s
    \<and> kind_permitted (ss_permissions s) (h_kind h)
    \<and> (\<exists>g. receive_frame pr s h ct = (Inr pt, g) \<and> s' = s\<lparr>ss_receive_replay_guard := g\<rparr>)"
proof (cases "session_state s = Ready")
  case True
  then have "ensure_ready s = Inr ()" by (simp add: result_simps)
  with True show ?thesis
    by (auto simp: session_open_def Let_def result_simps authorize_def
        simp del: ensure_ready_ok split: sum.splits prod.splits if_splits)
next
  case False
  then have "ensure_ready s \<noteq> Inr ()" by (simp add: result_simps)
  with False show ?thesis by (auto simp: session_open_def split: sum.splits)
qed

lemma verify_peer_key_confirm_ok:
  "verify_peer_key_confirm pr s c d t = (Inr u, s') \<longleftrightarrow>
    \<not> ss_invalidated s \<and> \<not> ss_peer_confirmed s \<and> kc_session_id c = ss_session_id s
    \<and> kc_role c \<noteq> ss_local_role s
    \<and> (\<exists>g. key_confirm_verify pr (ss_key_confirm_replay_guard s) c d
            (opposite_role (ss_local_role s)) (ss_key_exchange_transcript_hash s) t (ss_keys s)
          = (Inr u, g)
        \<and> s' = s\<lparr>ss_key_confirm_replay_guard := g, ss_peer_confirmed := True\<rparr>)"
  by (auto simp: verify_peer_key_confirm_def ensure_not_invalidated_def Let_def
      split: sum.splits prod.splits)

lemma create_local_key_confirm_ok:
  "create_local_key_confirm pr s d t = (Inr c, s') \<longleftrightarrow>
    \<not> ss_invalidated s \<and> \<not> ss_local_confirm_sent s
    \<and> create_key_confirm pr (ss_session_id s) d (ss_local_role s)
        (ss_key_exchange_transcript_hash s) t (ss_keys s) = Inr c
    \<and> s' = s\<lparr>ss_local_confirm_sent := True\<rparr>"
  by (auto simp: create_local_key_confirm_def ensure_not_invalidated_def split: sum.splits)

subsection \<open>The binding of a session never changes\<close>

definition session_binding where
  "session_binding s =
    (ss_session_id s, ss_local_role s, ss_permissions s, ss_permissions_digest s,
     ss_key_exchange_transcript_hash s, ss_keys s)"

lemmas session_step_defs =
  session_step_def create_local_key_confirm_def verify_peer_key_confirm_def session_seal_def
  session_open_def invalidate_if_binding_changed_def invalidate_for_reboot_def
  restore_send_sequence_def

lemma session_step_binding [simp]:
  "session_binding (snd (session_step pr s x)) = session_binding s"
  by (cases x)
    (auto simp: session_step_defs session_binding_def Let_def
      split: sum.splits prod.splits if_splits)

lemma session_run_binding [simp]:
  "session_binding (snd (run_ops (session_step pr) s xs)) = session_binding s"
  by (induction xs arbitrary: s) (simp_all add: split_beta)

subsection \<open>An invalidated session stays invalidated\<close>

interpretation invalid: guarded_machine "session_step pr" ss_invalidated for pr
proof
  fix s :: secure_session and x
  assume "ss_invalidated s"
  then show "ss_invalidated (snd (session_step pr s x))"
    by (cases x)
      (simp_all add: session_step_defs ensure_not_invalidated_def ensure_ready_def seal_frame_def)
qed

lemma invalidated_result:
  assumes "ss_invalidated s"
  shows "fst (session_step pr s x) \<in> {Inl SessionInvalidated, Inl PermissionsChanged,
    Inl PathChanged, Inr Done}"
  using assms
  by (cases x)
    (auto simp: session_step_defs ensure_not_invalidated_def ensure_ready_def seal_frame_def)

subsection \<open>Sequence numbers\<close>

definition session_ok :: "secure_session \<Rightarrow> bool" where
  "session_ok s \<longleftrightarrow>
    length (ss_send_sequences s) = 9
    \<and> (\<forall>q \<in> set (ss_send_sequences s). q \<le> MAX_SECURE_SEQUENCE + 1)
    \<and> guard_ok (ss_receive_replay_guard s)"

definition sent_numbers :: "secure_session \<Rightarrow> (channel_id \<times> u64) set" where
  "sent_numbers s = {(c, q). q < ss_send_sequences s ! channel_index c}"

definition sealed_key :: "session_op \<Rightarrow> secure_session_error + session_out
    \<Rightarrow> (channel_id \<times> u64) option" where
  "sealed_key x r =
    (case r of Inr (Sealed h ct) \<Rightarrow> Some (h_channel_id h, h_sequence h) | _ \<Rightarrow> None)"

definition received_key :: "session_op \<Rightarrow> secure_session_error + session_out
    \<Rightarrow> (channel_id \<times> u64) option" where
  "received_key x r =
    (case (x, r) of (Open h ct, Inr (Opened pt)) \<Rightarrow> Some (h_channel_id h, h_sequence h)
     | _ \<Rightarrow> None)"

lemma sealed_key_simps [simp]:
  "sealed_key x (Inl e) = None" "sealed_key x (Inr (Confirmed c)) = None"
  "sealed_key x (Inr Done) = None" "sealed_key x (Inr (Opened pt)) = None"
  "sealed_key x (Inr (Sealed h ct)) = Some (h_channel_id h, h_sequence h)"
  by (simp_all add: sealed_key_def)

lemma session_new_ok:
  "session_new sid role p dg path pair relay th keys = Inr s \<Longrightarrow> session_ok s"
  by (auto simp: session_new_def session_ok_def split: if_splits)

lemma next_sequence:
  assumes "q \<le> MAX_SECURE_SEQUENCE"
  shows "saturating_add q 1 = q + 1 \<and> q < q + 1 \<and> q + 1 \<le> MAX_SECURE_SEQUENCE + 1"
proof -
  have "unat q \<le> 2 ^ 48 - 1"
    using assms by (simp add: word_le_nat_alt unat_MAX_SECURE_SEQUENCE)
  then have bound: "unat q + 1 < 2 ^ 64" by simp
  then have succ: "unat (q + 1) = unat q + 1" by (simp add: unat_word_ariths)
  have "unat (MAX_SECURE_SEQUENCE + 1) = 2 ^ 48"
    by (simp add: unat_word_ariths unat_MAX_SECURE_SEQUENCE)
  with succ bound \<open>unat q \<le> 2 ^ 48 - 1\<close> show ?thesis
    by (simp add: saturating_add_def word_less_nat_alt word_le_nat_alt)
qed

definition sequences_ok :: "u64 list \<Rightarrow> bool" where
  "sequences_ok qs \<longleftrightarrow> length qs = 9 \<and> (\<forall>q \<in> set qs. q \<le> MAX_SECURE_SEQUENCE + 1)"

text \<open>The only two ways in which the list of send sequences changes.\<close>

lemma sequences_update:
  assumes "sequences_ok qs" "qs ! channel_index c \<le> v" "v \<le> MAX_SECURE_SEQUENCE + 1"
  shows "sequences_ok (qs[channel_index c := v])"
    and "qs ! channel_index d \<le> qs[channel_index c := v] ! channel_index d"
  using assms channel_index_less [of c]
  by (auto simp: sequences_ok_def nth_list_update dest!: set_update_subset_insert [THEN subsetD])

lemma session_step_sequences:
  assumes "sequences_ok (ss_send_sequences s)"
  shows "ss_send_sequences (snd (session_step pr s x)) = ss_send_sequences s
    \<or> (\<exists>c v. ss_send_sequences (snd (session_step pr s x)) =
          (ss_send_sequences s)[channel_index c := v]
        \<and> ss_send_sequences s ! channel_index c \<le> v \<and> v \<le> MAX_SECURE_SEQUENCE + 1)"
proof (cases x)
  case (Seal k c f pt)
  show ?thesis
  proof (cases "seal_frame pr s k c f pt")
    case (Inr r)
    obtain h ct where "r = (h, ct)" by fastforce
    with Inr have "ss_send_sequences s ! channel_index c \<le> MAX_SECURE_SEQUENCE"
      by (simp add: seal_frame_ok)
    note n = next_sequence [OF this]
    have "ss_send_sequences (snd (session_step pr s x)) = (ss_send_sequences s)[channel_index c :=
        ss_send_sequences s ! channel_index c + 1]"
      using Inr Seal n by (simp add: session_step_def session_seal_def)
    with n show ?thesis by (meson order.strict_implies_order)
  qed (simp add: Seal session_step_def session_seal_def)
next
  case (RestoreSequence c q)
  have "q \<le> MAX_SECURE_SEQUENCE + 1" if "q \<le> MAX_SECURE_SEQUENCE"
    using next_sequence [OF that] next_sequence [of MAX_SECURE_SEQUENCE] that by force
  with RestoreSequence show ?thesis
    by (auto simp: session_step_def restore_send_sequence_def not_less split: sum.splits)
qed (auto simp: session_step_defs Let_def split: sum.splits prod.splits if_splits)

lemma session_step_guard:
  "ss_receive_replay_guard (snd (session_step pr s x)) = ss_receive_replay_guard s
    \<or> (\<exists>h ct. x = Open h ct
        \<and> ss_receive_replay_guard (snd (session_step pr s x)) = snd (receive_frame pr s h ct))"
  by (cases x)
    (auto simp: session_step_defs Let_def split: sum.splits prod.splits if_splits)

lemma session_ok_sequences:
  "session_ok s \<longleftrightarrow> sequences_ok (ss_send_sequences s) \<and> guard_ok (ss_receive_replay_guard s)"
  by (auto simp: session_ok_def sequences_ok_def)

lemma receive_frame_guard:
  assumes "guard_ok (ss_receive_replay_guard s)"
  shows "guard_ok (snd (receive_frame pr s h ct))"
    and "guard_refuses (ss_receive_replay_guard s) \<subseteq> guard_refuses (snd (receive_frame pr s h ct))"
  by (rule decrypt_payload_step(1) [OF prod.collapse [symmetric] assms])
    (rule decrypt_payload_step(2) [OF prod.collapse [symmetric] assms])

lemma session_step_ok:
  assumes "session_ok s"
  shows "session_ok (snd (session_step pr s x))"
    and "sent_numbers s \<subseteq> sent_numbers (snd (session_step pr s x))"
    and "guard_refuses (ss_receive_replay_guard s)
      \<subseteq> guard_refuses (ss_receive_replay_guard (snd (session_step pr s x)))"
proof -
  from assms have q: "sequences_ok (ss_send_sequences s)"
    and g: "guard_ok (ss_receive_replay_guard s)" by (simp_all add: session_ok_sequences)
  have "sequences_ok (ss_send_sequences (snd (session_step pr s x)))"
    and mono: "ss_send_sequences s ! channel_index d
      \<le> ss_send_sequences (snd (session_step pr s x)) ! channel_index d" for d
    using session_step_sequences [OF q, of pr x] q by (auto simp: sequences_update)
  moreover have "guard_ok (ss_receive_replay_guard (snd (session_step pr s x)))"
    and refuses: "guard_refuses (ss_receive_replay_guard s)
      \<subseteq> guard_refuses (ss_receive_replay_guard (snd (session_step pr s x)))"
    using session_step_guard [of pr s x] receive_frame_guard [OF g] g by (metis, metis order_refl)
  ultimately show "session_ok (snd (session_step pr s x))" by (simp add: session_ok_sequences)
  show "sent_numbers s \<subseteq> sent_numbers (snd (session_step pr s x))"
    using mono by (auto simp: sent_numbers_def intro: less_le_trans)
  show "guard_refuses (ss_receive_replay_guard s)
      \<subseteq> guard_refuses (ss_receive_replay_guard (snd (session_step pr s x)))"
    by (rule refuses)
qed

lemma session_step_Sealed:
  "session_step pr s x = (Inr (Sealed h ct), s') \<longleftrightarrow>
    (\<exists>k c f pt. x = Seal k c f pt \<and> session_seal pr s k c f pt = (Inr (h, ct), s'))"
  by (cases x) (auto simp: session_step_def apfst_def map_prod_def result_simps split: prod.splits)

lemma session_step_Opened:
  "session_step pr s x = (Inr (Opened pt), s') \<longleftrightarrow>
    (\<exists>h ct. x = Open h ct \<and> session_open pr s h ct = (Inr pt, s'))"
  by (cases x) (auto simp: session_step_def apfst_def map_prod_def result_simps split: prod.splits)

lemma seal_spends:
  assumes "session_ok s" "session_seal pr s k c f pt = (Inr (h, ct), s')"
  shows "(h_channel_id h, h_sequence h) \<notin> sent_numbers s"
    and "(h_channel_id h, h_sequence h) \<in> sent_numbers s'"
proof -
  from assms(2) have frame: "seal_frame pr s k c f pt = Inr (h, ct)"
    and s': "s' = s\<lparr>ss_send_sequences := (ss_send_sequences s)[channel_index c :=
        saturating_add (ss_send_sequences s ! channel_index c) 1]\<rparr>"
    by (simp_all add: session_seal_ok)
  note h = seal_frame_header [OF frame]
  then show "(h_channel_id h, h_sequence h) \<notin> sent_numbers s" by (simp add: sent_numbers_def)
  have "channel_index c < length (ss_send_sequences s)"
    using assms(1) channel_index_less by (simp add: session_ok_def)
  with h next_sequence [OF h(5)] show "(h_channel_id h, h_sequence h) \<in> sent_numbers s'"
    by (simp add: sent_numbers_def s')
qed

lemma sealed_key_Some:
  "sealed_key x (fst (session_step pr s x)) = Some q \<longleftrightarrow>
    (\<exists>k c f pt h ct. x = Seal k c f pt \<and> q = (h_channel_id h, h_sequence h)
      \<and> session_seal pr s k c f pt = (Inr (h, ct), snd (session_step pr s x)))"
proof -
  have "sealed_key x (fst (session_step pr s x)) = Some q \<longleftrightarrow>
    (\<exists>h ct. q = (h_channel_id h, h_sequence h)
      \<and> session_step pr s x = (Inr (Sealed h ct), snd (session_step pr s x)))"
    by (auto simp: sealed_key_def prod_eq_iff split: sum.splits session_out.splits)
  then show ?thesis unfolding session_step_Sealed by blast
qed

lemma received_key_Some:
  "received_key x (fst (session_step pr s x)) = Some q \<longleftrightarrow>
    (\<exists>h ct pt. x = Open h ct \<and> q = (h_channel_id h, h_sequence h)
      \<and> session_open pr s h ct = (Inr pt, snd (session_step pr s x)))"
proof -
  have "received_key x (fst (session_step pr s x)) = Some q \<longleftrightarrow>
    (\<exists>h ct pt. x = Open h ct \<and> q = (h_channel_id h, h_sequence h)
      \<and> session_step pr s x = (Inr (Opened pt), snd (session_step pr s x)))"
    by (auto simp: received_key_def prod_eq_iff
        split: sum.splits session_out.splits session_op.splits)
  then show ?thesis unfolding session_step_Opened by blast
qed

text \<open>No run of calls, in any order, seals two frames under one channel and sequence.\<close>

interpretation sealing: at_most_once "session_step pr" session_ok sealed_key sent_numbers for pr
proof
  fix s :: secure_session and x :: session_op and q :: "channel_id \<times> u64"
  assume ok: "session_ok s"
  show "session_ok (snd (session_step pr s x))"
    and "sent_numbers s \<subseteq> sent_numbers (snd (session_step pr s x))"
    using session_step_ok [OF ok] by blast+
  assume "sealed_key x (fst (session_step pr s x)) = Some q"
  then show "q \<notin> sent_numbers s" and "q \<in> sent_numbers (snd (session_step pr s x))"
    using seal_spends [OF ok] by (auto simp: sealed_key_Some)
qed

text \<open>The headers a run has sealed, and the nonce each of them was encrypted under.\<close>

definition sealed_headers ::
    "(session_op \<times> (secure_session_error + session_out)) list \<Rightarrow> message_header list" where
  "sealed_headers tr =
    List.map_filter (\<lambda>(x, r). case r of Inr (Sealed h ct) \<Rightarrow> Some h | _ \<Rightarrow> None) tr"

definition frame_nonce :: "secure_session \<Rightarrow> message_header \<Rightarrow> crypto_error + bytes" where
  "frame_nonce s h =
    build_nonce (nonce_prefix (ss_keys s) (from_sender_role (ss_local_role s)))
      (h_channel_id h) (h_sequence h)"

lemma sealed_headers_simps [simp]:
  "sealed_headers [] = []"
  "sealed_headers ((x, r) # tr) =
    (case r of Inr (Sealed h ct) \<Rightarrow> h # sealed_headers tr | _ \<Rightarrow> sealed_headers tr)"
  by (simp_all add: sealed_headers_def List.map_filter_def split: sum.splits session_out.splits)

lemma sealed_headers_keys:
  "sealing.issued_keys tr = map (\<lambda>h. (h_channel_id h, h_sequence h)) (sealed_headers tr)"
  by (induction tr) (auto split: sum.splits session_out.splits)

lemma sealed_headers_member:
  "h \<in> set (sealed_headers tr) \<longleftrightarrow> (\<exists>x ct. (x, Inr (Sealed h ct)) \<in> set tr)"
  by (induction tr) (auto split: sum.splits session_out.splits)

lemma sealed_headers_bound:
  assumes "h \<in> set (sealed_headers (fst (run_ops (session_step pr) s xs)))"
  shows "h_sequence h \<le> MAX_SECURE_SEQUENCE"
proof -
  from assms obtain x ct where "(x, Inr (Sealed h ct)) \<in> set (fst (run_ops (session_step pr) s xs))"
    by (auto simp: sealed_headers_member)
  then obtain t where "Inr (Sealed h ct) = fst (session_step pr t x)"
    using run_ops_member by metis
  then have "session_step pr t x = (Inr (Sealed h ct), snd (session_step pr t x))"
    by (simp add: prod_eq_iff)
  then show ?thesis
    unfolding session_step_Sealed using seal_frame_header(5) by (auto simp: session_seal_ok)
qed

lemma sealed_nonces:
  assumes "session_ok s"
  shows "distinct (map (frame_nonce s) (sealed_headers (fst (run_ops (session_step pr) s xs))))"
proof -
  let ?hs = "sealed_headers (fst (run_ops (session_step pr) s xs))"
  have "distinct (map (\<lambda>h. (h_channel_id h, h_sequence h)) ?hs)"
    using sealing.run_issued_distinct [OF assms] by (simp add: sealed_headers_keys)
  then have keys: "distinct ?hs" "inj_on (\<lambda>h. (h_channel_id h, h_sequence h)) (set ?hs)"
    by (simp_all only: distinct_map)
  have nonce_key: "(h_channel_id h, h_sequence h) = (h_channel_id k, h_sequence k)"
    if "h \<in> set ?hs" "k \<in> set ?hs" "frame_nonce s h = frame_nonce s k" for h k
  proof -
    have "h_sequence h \<le> MAX_SECURE_SEQUENCE" by (rule sealed_headers_bound) (rule that(1))
    then obtain n where "frame_nonce s h = Inr n" by (simp add: frame_nonce_def build_nonce_ok)
    with that(3) show ?thesis using build_nonce_inject by (simp add: frame_nonce_def)
  qed
  have "inj_on (frame_nonce s) (set ?hs)"
    by (rule inj_onI) (rule inj_onD [OF keys(2) nonce_key]; assumption)
  with keys(1) show ?thesis by (simp only: distinct_map simp_thms)
qed

text \<open>No run of calls opens a frame of one channel and sequence twice.\<close>

interpretation receiving: at_most_once "session_step pr" session_ok received_key
  "\<lambda>s. guard_refuses (ss_receive_replay_guard s)" for pr
proof
  fix s :: secure_session and x :: session_op and q :: "channel_id \<times> u64"
  assume ok: "session_ok s"
  then have g: "guard_ok (ss_receive_replay_guard s)" by (simp add: session_ok_def)
  show "guard_refuses (ss_receive_replay_guard s)
      \<subseteq> guard_refuses (ss_receive_replay_guard (snd (session_step pr s x)))"
    using session_step_ok [OF ok] by blast
  assume "received_key x (fst (session_step pr s x)) = Some q"
  then obtain h ct pt where q: "q = (h_channel_id h, h_sequence h)"
    and op: "session_open pr s h ct = (Inr pt, snd (session_step pr s x))"
    unfolding received_key_Some by blast
  from op obtain g' where dec: "receive_frame pr s h ct = (Inr pt, g')"
    and s': "snd (session_step pr s x) = s\<lparr>ss_receive_replay_guard := g'\<rparr>"
    unfolding session_open_ok by blast
  from decrypt_payload_step(3,4) [OF dec g refl]
  show "q \<notin> guard_refuses (ss_receive_replay_guard s)"
    and "q \<in> guard_refuses (ss_receive_replay_guard (snd (session_step pr s x)))"
    by (simp_all add: q s')
qed

subsection \<open>Nothing is sealed or opened before both confirmations\<close>

lemma session_step_confirm:
  "ss_peer_confirmed (snd (session_step pr s x)) \<Longrightarrow> \<not> ss_peer_confirmed s \<Longrightarrow>
    \<exists>c d t. x = VerifyConfirm c d t
      \<and> verify_peer_key_confirm pr s c d t = (Inr (), snd (session_step pr s x))"
  by (cases x)
    (auto simp: session_step_defs Let_def split: sum.splits prod.splits if_splits)

lemma session_step_confirm_local:
  "ss_local_confirm_sent (snd (session_step pr s x)) \<Longrightarrow> \<not> ss_local_confirm_sent s \<Longrightarrow>
    \<exists>d t c. x = CreateConfirm d t
      \<and> create_local_key_confirm pr s d t = (Inr c, snd (session_step pr s x))"
  by (cases x)
    (auto simp: session_step_defs Let_def split: sum.splits prod.splits if_splits)

text \<open>
  \<open>authentic_confirm\<close>: the confirmation carries the MAC of the session's own
  confirmation key for the peer's direction, over the session's own transcript.
\<close>

definition authentic_confirm :: "primitives \<Rightarrow> secure_session \<Rightarrow> session_op \<Rightarrow> bool" where
  "authentic_confirm pr s x \<longleftrightarrow>
    (case x of
       VerifyConfirm c d t \<Rightarrow>
         kc_session_id c = ss_session_id s \<and> kc_device_id c = d
         \<and> kc_role c = opposite_role (ss_local_role s)
         \<and> kc_key_exchange_transcript_hash c = ss_key_exchange_transcript_hash s
         \<and> abs_diff t (kc_timestamp_epoch_millis c) \<le> KEY_CONFIRM_WINDOW_MILLIS
         \<and> (\<exists>m. key_confirm_canonical_mac_input c = Inr m
              \<and> pr_hmac pr (confirmation_key (ss_keys s)
                    (from_sender_role (opposite_role (ss_local_role s)))) m
                = Some (kc_confirm_mac c))
     | _ \<Rightarrow> False)"

lemma authentic_confirm_binding:
  "session_binding s = session_binding s' \<Longrightarrow> authentic_confirm pr s x = authentic_confirm pr s' x"
  by (auto simp: authentic_confirm_def session_binding_def split: session_op.splits)

lemma verified_authentic:
  "verify_peer_key_confirm pr s c d t = (Inr u, s') \<Longrightarrow> authentic_confirm pr s (VerifyConfirm c d t)"
  by (auto simp: verify_peer_key_confirm_ok key_confirm_verify_ok key_confirm_checked_ok
      authentic_confirm_def)

lemma run_confirmed:
  assumes "ss_peer_confirmed (snd (run_ops (session_step pr) s xs))" "\<not> ss_peer_confirmed s"
  shows "\<exists>x. (x, Inr Done) \<in> set (fst (run_ops (session_step pr) s xs)) \<and> authentic_confirm pr s x"
  using assms
proof (induction xs arbitrary: s)
  case Nil
  then show ?case by simp
next
  case (Cons x xs)
  let ?s' = "snd (session_step pr s x)"
  show ?case
  proof (cases "ss_peer_confirmed ?s'")
    case True
    then obtain c d t where x: "x = VerifyConfirm c d t"
      and ok: "verify_peer_key_confirm pr s c d t = (Inr (), ?s')"
      using session_step_confirm Cons.prems(2) by blast
    then have "fst (session_step pr s x) = Inr Done"
      by (cases "verify_peer_key_confirm pr s c d t") (simp add: session_step_def)
    with verified_authentic [OF ok] x show ?thesis
      by (auto simp: run_ops_Cons_simp simp del: run_ops.simps)
  next
    case False
    moreover have "ss_peer_confirmed (snd (run_ops (session_step pr) ?s' xs))"
      using Cons.prems(1) by (simp add: run_ops_Cons_simp del: run_ops.simps)
    ultimately obtain y where "(y, Inr Done) \<in> set (fst (run_ops (session_step pr) ?s' xs))"
      "authentic_confirm pr ?s' y" using Cons.IH by blast
    then show ?thesis using authentic_confirm_binding [of ?s' s]
      by (auto simp: run_ops_Cons_simp simp del: run_ops.simps)
  qed
qed

lemma run_confirmed_local:
  assumes "ss_local_confirm_sent (snd (run_ops (session_step pr) s xs))" "\<not> ss_local_confirm_sent s"
  shows "\<exists>x c. (x, Inr (Confirmed c)) \<in> set (fst (run_ops (session_step pr) s xs))"
  using assms
proof (induction xs arbitrary: s)
  case Nil
  then show ?case by simp
next
  case (Cons x xs)
  show ?case
  proof (cases "ss_local_confirm_sent (snd (session_step pr s x))")
    case True
    then obtain d t c where "x = CreateConfirm d t"
      "create_local_key_confirm pr s d t = (Inr c, snd (session_step pr s x))"
      using session_step_confirm_local Cons.prems(2) by blast
    then have "fst (session_step pr s x) = Inr (Confirmed c)"
      by (cases "create_local_key_confirm pr s d t") (simp add: session_step_def)
    then show ?thesis by (auto simp: run_ops_Cons_simp simp del: run_ops.simps)
  next
    case False
    with Cons show ?thesis by (fastforce simp: run_ops_Cons_simp simp del: run_ops.simps)
  qed
qed

subsection \<open>Two ends of a session\<close>

definition session_peers :: "secure_session \<Rightarrow> secure_session \<Rightarrow> bool" where
  "session_peers a b \<longleftrightarrow>
    ss_session_id a = ss_session_id b \<and> ss_local_role b = opposite_role (ss_local_role a)
    \<and> ss_permissions_digest a = ss_permissions_digest b \<and> ss_keys a = ss_keys b
    \<and> ss_key_exchange_transcript_hash a = ss_key_exchange_transcript_hash b"

lemma opposite_direction [simp]:
  "reverse (from_sender_role (opposite_role r)) = from_sender_role r"
  "opposite_role (opposite_role r) = r" "opposite_role r \<noteq> r" "r \<noteq> opposite_role r"
  by (cases r; simp)+

definition aead_scheme :: "primitives \<Rightarrow> bool" where
  "aead_scheme pr \<longleftrightarrow> (\<forall>k n a m c. pr_seal pr k n a m = Some c \<longrightarrow>
    pr_unseal pr k n a c = Some m \<and> length c = length m + AUTH_TAG_LEN)"

lemma open_sealed:
  assumes aead: "aead_scheme pr" and peers: "session_peers a b"
    and seal: "session_seal pr a k c f pt = (Inr (h, ct), a')"
    and ready: "session_state b = Ready" and permitted: "kind_permitted (ss_permissions b) k"
    and fresh: "guard_check (ss_receive_replay_guard b) c (h_sequence h) = Inr ()"
  shows "session_open pr b h ct =
    (Inr pt, b\<lparr>ss_receive_replay_guard :=
       guard_record (ss_receive_replay_guard b) c (h_sequence h)\<rparr>)"
proof -
  from seal have frame: "seal_frame pr a k c f pt = Inr (h, ct)" by (simp add: session_seal_ok)
  note hd = seal_frame_header [OF frame]
  have unseal: "\<And>k n a m c. pr_seal pr k n a m = Some c \<Longrightarrow>
      pr_unseal pr k n a c = Some m \<and> length c = length m + AUTH_TAG_LEN"
    using aead by (simp add: aead_scheme_def)
  have enc: "encrypt_payload (pr_seal pr) (traffic_key (ss_keys b) (receive_direction b))
      (nonce_prefix (ss_keys b) (receive_direction b)) (ss_permissions_digest b)
      (receive_direction b) (send_header a k c f) pt = Inr (h, ct)"
    using frame peers by (simp add: seal_frame_ok session_peers_def)
  have "receive_frame pr b h ct =
      (Inr pt, guard_record (ss_receive_replay_guard b) c (h_sequence h))"
    using decrypt_encrypt_payload [OF unseal enc] fresh hd by simp
  with ready permitted hd peers show ?thesis
    by (simp add: session_open_ok session_peers_def)
qed

lemma confirm_accepted:
  assumes peers: "session_peers a b"
    and create: "create_local_key_confirm pr a d t = (Inr c, a')"
    and time: "abs_diff now t \<le> KEY_CONFIRM_WINDOW_MILLIS"
    and fresh: "\<not> ss_invalidated b" "\<not> ss_peer_confirmed b"
      "kg_accepted (ss_key_confirm_replay_guard b) = {}"
  shows "\<exists>b'. verify_peer_key_confirm pr b c d now = (Inr (), b') \<and> ss_peer_confirmed b'
    \<and> ss_local_confirm_sent b' = ss_local_confirm_sent b \<and> \<not> ss_invalidated b'"
proof -
  from create have mk: "create_key_confirm pr (ss_session_id a) d (ss_local_role a)
      (ss_key_exchange_transcript_hash a) t (ss_keys a) = Inr c"
    by (simp add: create_local_key_confirm_ok)
  note f = create_key_confirm_fields [OF mk]
  obtain fp where "key_confirm_checked pr c d (ss_local_role a)
      (ss_key_exchange_transcript_hash a) now (ss_keys a) = Inr fp"
    using create_then_checked [OF mk time] by blast
  then have "key_confirm_checked pr c d (opposite_role (ss_local_role b))
      (ss_key_exchange_transcript_hash b) now (ss_keys b) = Inr fp"
    using peers by (simp add: session_peers_def)
  with fresh f peers show ?thesis
    by (simp add: verify_peer_key_confirm_ok key_confirm_verify_ok session_peers_def)
qed

end
