(* ===== verification/Rc_Ordering.thy ===== *)
theory Rc_Ordering
  imports Rc_Session
begin

section \<open>The order of a session's calls\<close>

text \<open>
  What a secure session guarantees about sequences of calls: data only after both key
  confirmations and only of kinds the permissions allow, nothing after invalidation, and that
  two fresh peers that exchange confirmations become ready.
\<close>

text \<open>The kind of the frame that a call sealed or opened.\<close>

fun data_kind :: "session_op \<Rightarrow> secure_session_error + session_out \<Rightarrow> message_kind option" where
  "data_kind (Seal k _ _ _) (Inr (Sealed _ _)) = Some k"
| "data_kind (Open h _) (Inr (Opened _)) = Some (h_kind h)"
| "data_kind _ _ = None"

lemma data_kind_step:
  assumes "data_kind x (fst (session_step pr s x)) = Some k"
  shows "session_state s = Ready \<and> kind_permitted (ss_permissions s) k"
proof -
  obtain r s' where step: "session_step pr s x = (r, s')" by fastforce
  consider h ct c f pt where "x = Seal k c f pt" "r = Inr (Sealed h ct)"
    | h ct pt where "x = Open h ct" "r = Inr (Opened pt)" "k = h_kind h"
    using assms step by (cases "(x, r)" rule: data_kind.cases) auto
  then show ?thesis
  proof cases
    case 1
    then show ?thesis
      using step by (auto simp: session_step_Sealed session_seal_ok seal_frame_ok)
  next
    case 2
    then show ?thesis using step by (auto simp: session_step_Opened session_open_ok)
  qed
qed

lemma ready_confirmed:
  "session_state s = Ready \<longleftrightarrow>
    \<not> ss_invalidated s \<and> ss_local_confirm_sent s \<and> ss_peer_confirmed s"
  by (simp add: session_state_def)

lemma session_new_unconfirmed:
  assumes "session_new sid role p dg path pair relay th keys = Inr s"
  shows "\<not> ss_local_confirm_sent s" "\<not> ss_peer_confirmed s" "\<not> ss_invalidated s"
    "ss_permissions s = p" "kg_accepted (ss_key_confirm_replay_guard s) = {}"
  using assms by (auto simp: session_new_def key_confirm_replay_guard_default_def split: if_splits)

lemma run_permissions: "ss_permissions (snd (run_ops (session_step pr) s xs)) = ss_permissions s"
  using session_run_binding [of pr s xs] by (simp add: session_binding_def)

lemma data_at:
  assumes "n < length xs" "fst (run_ops (session_step pr) s xs) ! n = (x, r)"
    and "data_kind x r = Some k"
  shows "session_state (snd (run_ops (session_step pr) s (take n xs))) = Ready
    \<and> kind_permitted (ss_permissions s) k"
  using assms data_kind_step [of x pr "snd (run_ops (session_step pr) s (take n xs))" k]
  by (auto simp: run_ops_nth run_permissions)

lemma data_after_confirms:
  assumes new: "session_new sid role p dg path pair relay th keys = Inr s"
    and n: "n < length xs" and at: "fst (run_ops (session_step pr) s xs) ! n = (x, r)"
    and data: "data_kind x r = Some k"
  shows "(\<exists>y c. (y, Inr (Confirmed c)) \<in> set (take n (fst (run_ops (session_step pr) s xs))))
    \<and> (\<exists>y. (y, Inr Done) \<in> set (take n (fst (run_ops (session_step pr) s xs)))
         \<and> authentic_confirm pr s y)"
proof -
  let ?s = "snd (run_ops (session_step pr) s (take n xs))"
  have "ss_local_confirm_sent ?s" "ss_peer_confirmed ?s"
    using data_at [OF n at data] by (simp_all add: ready_confirmed)
  then show ?thesis
    using run_confirmed [of pr s "take n xs"] run_confirmed_local [of pr s "take n xs"]
      session_new_unconfirmed [OF new] by (simp add: run_ops_take_prefix)
qed

lemma invalidated_data:
  "ss_invalidated s \<Longrightarrow> (x, r) \<in> set (fst (run_ops (session_step pr) s xs)) \<Longrightarrow>
    data_kind x r = None \<and> (\<forall>c. r \<noteq> Inr (Confirmed c))"
proof -
  assume inv: "ss_invalidated s" and "(x, r) \<in> set (fst (run_ops (session_step pr) s xs))"
  then obtain n where "r = fst (session_step pr (snd (run_ops (session_step pr) s (take n xs))) x)"
    using run_ops_member by metis
  then have "r \<in> {Inl SessionInvalidated, Inl PermissionsChanged, Inl PathChanged, Inr Done}"
    using invalidated_result [OF invalid.run_prefix_inv [OF inv]] by simp
  then show ?thesis by (cases x) auto
qed

lemma reboot_invalidates: "ss_invalidated (snd (session_step pr s Reboot))"
  by (simp add: session_step_def invalidate_for_reboot_def)

lemma changed_binding_invalidates:
  assumes "d \<noteq> ss_permissions_digest s \<or> p \<noteq> ss_path s \<or> c \<noteq> ss_candidate_pair_id s
    \<or> r \<noteq> ss_relay_node_id s"
  shows "ss_invalidated (snd (session_step pr s (CheckBinding d p c r)))"
  using assms by (auto simp: session_step_def invalidate_if_binding_changed_def)

subsection \<open>Two peers become ready\<close>

lemma create_peers:
  assumes "session_peers a b" "create_local_key_confirm pr a d t = (Inr c, a')"
  shows "session_peers a' b" "ss_local_confirm_sent a'" "\<not> ss_invalidated a'"
    "ss_peer_confirmed a' = ss_peer_confirmed a"
    "ss_key_confirm_replay_guard a' = ss_key_confirm_replay_guard a"
  using assms by (auto simp: create_local_key_confirm_ok session_peers_def)

lemma session_peers_sym: "session_peers a b \<Longrightarrow> session_peers b a"
  by (simp add: session_peers_def)

lemma one_side_ready:
  assumes peers: "session_peers a b" and a: "create_local_key_confirm pr a da ta = (Inr ca, a')"
    and b: "create_local_key_confirm pr b db tb = (Inr cb, b')"
    and fresh: "\<not> ss_peer_confirmed a" "kg_accepted (ss_key_confirm_replay_guard a) = {}"
    and time: "abs_diff now tb \<le> KEY_CONFIRM_WINDOW_MILLIS"
  shows "session_state (snd (run_ops (session_step pr) a
    [CreateConfirm da ta, VerifyConfirm cb db now])) = Ready"
proof -
  note a' = create_peers [OF peers a]
  obtain a'' where "verify_peer_key_confirm pr a' cb db now = (Inr (), a'')"
    and "ss_peer_confirmed a''" "ss_local_confirm_sent a''" "\<not> ss_invalidated a''"
    using confirm_accepted [OF session_peers_sym [OF a'(1)] b time] a' fresh by auto
  with a show ?thesis by (simp add: session_step_def ready_confirmed)
qed

end
