(* ===== verification/Rc_Policy.thy ===== *)
theory Rc_Policy
  imports Rc_Messages
begin

section \<open>The session policy decision\<close>

text \<open>
  \<^verbatim>\<open>crates/remote-core/src/policy.rs\<close>: how the requested permissions, the
  capabilities of the controlled device, the second factor and the abuse verdict are
  combined into the effective permissions of a session. The digest function is the
  \<^verbatim>\<open>sha2\<close> crate and a parameter.
\<close>

datatype anti_abuse_decision =
  AbuseAllow | WarnUser | Cooldown | AbuseDeny | Suspend | RelayQuarantine

definition blocks_session :: "anti_abuse_decision \<Rightarrow> bool" where
  "blocks_session d \<longleftrightarrow> d = Cooldown \<or> d = AbuseDeny \<or> d = Suspend"

datatype session_access_decision = Allow | RequirePrompt | RequireMfa | Deny

record policy_input =
  pi_requested :: session_permissions
  pi_controlled_capabilities :: session_permissions
  pi_mfa_verified :: bool
  pi_mfa_required :: bool
  pi_blacklisted :: bool
  pi_anti_abuse :: anti_abuse_decision

record policy_decision =
  pd_access :: session_access_decision
  pd_anti_abuse :: anti_abuse_decision
  pd_effective_permissions :: session_permissions
  pd_permissions_digest :: bytes

definition intersect :: "session_permissions \<Rightarrow> session_permissions \<Rightarrow> session_permissions" where
  "intersect l r =
    \<lparr>sp_remote_desktop = (sp_remote_desktop l \<and> sp_remote_desktop r),
     sp_input_control = (sp_input_control l \<and> sp_input_control r),
     sp_clipboard = (sp_clipboard l \<and> sp_clipboard r),
     sp_file_transfer = (sp_file_transfer l \<and> sp_file_transfer r),
     sp_unattended = (sp_unattended l \<and> sp_unattended r),
     sp_privacy_screen = (sp_privacy_screen l \<and> sp_privacy_screen r),
     sp_block_local_input = (sp_block_local_input l \<and> sp_block_local_input r),
     sp_require_prompt = (sp_require_prompt l \<or> sp_require_prompt r),
     sp_allow_relay = (sp_allow_relay l \<and> sp_allow_relay r)\<rparr>"

definition evaluate :: "(bytes \<Rightarrow> bytes) \<Rightarrow> policy_input \<Rightarrow> policy_decision" where
  "evaluate sha256 input =
    (let blocked = pi_blacklisted input \<or> blocks_session (pi_anti_abuse input);
         p0 = intersect (pi_requested input) (pi_controlled_capabilities input);
         p1 = p0\<lparr>sp_require_prompt := sp_require_prompt (pi_requested input)\<rparr>;
         p2 = (if pi_anti_abuse input = RelayQuarantine then p1\<lparr>sp_allow_relay := False\<rparr> else p1);
         p3 = (if \<not> pi_mfa_verified input
               then p2\<lparr>sp_unattended := False, sp_privacy_screen := False,
                       sp_block_local_input := False\<rparr>
               else p2);
         p4 = (if blocked then session_permissions_default else p3);
         access =
           (if blocked then Deny
            else if pi_mfa_required input \<and> \<not> pi_mfa_verified input then RequireMfa
            else if sp_require_prompt p4 then RequirePrompt
            else Allow);
         digest = (case permissions_canonical_bytes p4 of
                     Inl _ \<Rightarrow> replicate 32 0
                   | Inr bs \<Rightarrow> sha256 bs)
     in \<lparr>pd_access = access, pd_anti_abuse = pi_anti_abuse input,
         pd_effective_permissions = p4, pd_permissions_digest = digest\<rparr>)"

subsection \<open>The specification: permissions as a set of capabilities\<close>

text \<open>
  The eight grants of a permission record; \<open>require_prompt\<close> is a restriction, not a
  grant, and not among them.
\<close>

datatype capability =
  CRemoteDesktop | CInputControl | CClipboard | CFileTransfer | CUnattended
  | CPrivacyScreen | CBlockLocalInput | CAllowRelay

fun grants :: "session_permissions \<Rightarrow> capability \<Rightarrow> bool" where
  "grants p CRemoteDesktop = sp_remote_desktop p"
| "grants p CInputControl = sp_input_control p"
| "grants p CClipboard = sp_clipboard p"
| "grants p CFileTransfer = sp_file_transfer p"
| "grants p CUnattended = sp_unattended p"
| "grants p CPrivacyScreen = sp_privacy_screen p"
| "grants p CBlockLocalInput = sp_block_local_input p"
| "grants p CAllowRelay = sp_allow_relay p"

definition blocked_input :: "policy_input \<Rightarrow> bool" where
  "blocked_input i \<longleftrightarrow> pi_blacklisted i \<or> blocks_session (pi_anti_abuse i)"

definition needs_mfa :: "capability \<Rightarrow> bool" where
  "needs_mfa c \<longleftrightarrow> c \<in> {CUnattended, CPrivacyScreen, CBlockLocalInput}"

text \<open>The capabilities the decision grants, stated at once.\<close>

definition policy_spec :: "policy_input \<Rightarrow> capability set" where
  "policy_spec i =
    {c. \<not> blocked_input i \<and> grants (pi_requested i) c \<and> grants (pi_controlled_capabilities i) c
        \<and> (needs_mfa c \<longrightarrow> pi_mfa_verified i)
        \<and> (c = CAllowRelay \<longrightarrow> pi_anti_abuse i \<noteq> RelayQuarantine)}"

lemma grants_intersect: "grants (intersect l r) c \<longleftrightarrow> grants l c \<and> grants r c"
  by (cases c) (simp_all add: intersect_def)

lemma evaluate_grants:
  "grants (pd_effective_permissions (evaluate sha256 i)) c \<longleftrightarrow> c \<in> policy_spec i"
  by (cases c) (auto simp: evaluate_def Let_def policy_spec_def blocked_input_def needs_mfa_def
      intersect_def session_permissions_default_def)

lemma evaluate_blocked:
  assumes "blocked_input i"
  shows "pd_access (evaluate sha256 i) = Deny"
    and "pd_effective_permissions (evaluate sha256 i) = session_permissions_default"
  using assms by (simp_all add: evaluate_def Let_def blocked_input_def)

lemma evaluate_prompt:
  "sp_require_prompt (pd_effective_permissions (evaluate sha256 i)) \<longleftrightarrow>
    blocked_input i \<or> sp_require_prompt (pi_requested i)"
  by (simp add: evaluate_def Let_def blocked_input_def session_permissions_default_def)

lemma evaluate_access:
  "pd_access (evaluate sha256 i) =
    (if blocked_input i then Deny
     else if pi_mfa_required i \<and> \<not> pi_mfa_verified i then RequireMfa
     else if sp_require_prompt (pi_requested i) then RequirePrompt
     else Allow)"
  by (simp add: evaluate_def Let_def blocked_input_def)

lemma evaluate_digest:
  "pd_permissions_digest (evaluate sha256 i) =
    sha256 (fields_bytes (permissions_fields (pd_effective_permissions (evaluate sha256 i))))"
  by (simp add: evaluate_def Let_def permissions_canonical_total)

end
