(* ===== verification/Rc_Scheduler.thy ===== *)
theory Rc_Scheduler
  imports Rc_Header "HOL-Library.Multiset"
begin

section \<open>The priority scheduler\<close>

text \<open>
  \<^verbatim>\<open>crates/remote-transport/src/scheduler.rs\<close>: six FIFO queues by channel class, one slot
  for the latest realtime input, and a byte budget. \<^verbatim>\<open>VecDeque\<close> is a list with its front at
  the head. Besides the invariant, the lemmas show exact byte accounting, strict priority
  between classes, and that every channel but the realtime one is a loss-free FIFO.
\<close>

definition DEFAULT_MAX_QUEUED_BYTES :: nat where
  "DEFAULT_MAX_QUEUED_BYTES = 8 * 1024 * 1024"

definition PRIORITY_LEVELS :: nat where
  "PRIORITY_LEVELS = 6"

datatype scheduler_error = InvalidChannel | PayloadLengthMismatch | Backpressure

record scheduled_packet =
  pk_header :: message_header
  pk_payload :: bytes

definition wire_len :: "scheduled_packet \<Rightarrow> nat" where
  "wire_len packet = usize_saturating_add HEADER_LEN (length (pk_payload packet))"

record priority_scheduler =
  sd_queues :: "scheduled_packet list list"
  sd_latest_realtime_input :: "scheduled_packet option"
  sd_max_queued_bytes :: nat
  sd_queued_bytes :: nat

definition scheduler_new :: "nat \<Rightarrow> priority_scheduler" where
  "scheduler_new max_queued_bytes =
    \<lparr>sd_queues = replicate PRIORITY_LEVELS [], sd_latest_realtime_input = None,
     sd_max_queued_bytes = max_queued_bytes, sd_queued_bytes = 0\<rparr>"

definition scheduler_default :: priority_scheduler where
  "scheduler_default = scheduler_new DEFAULT_MAX_QUEUED_BYTES"

fun channel_priority :: "channel_id \<Rightarrow> nat" where
  "channel_priority SecureControl = 0"
| "channel_priority InputReliable = 0"
| "channel_priority DeviceControl = 0"
| "channel_priority MediaControl = 1"
| "channel_priority Video = 2"
| "channel_priority Clipboard = 3"
| "channel_priority FileTransfer = 4"
| "channel_priority Telemetry = 5"
| "channel_priority InputRealtime = 0"

abbreviation packet_channel :: "scheduled_packet \<Rightarrow> channel_id" where
  "packet_channel p \<equiv> h_channel_id (pk_header p)"

definition enqueue ::
    "priority_scheduler \<Rightarrow> scheduled_packet \<Rightarrow> (scheduler_error + unit) \<times> priority_scheduler" where
  "enqueue s packet =
    (case validate_kind_channel (pk_header packet) of
       Inl _ \<Rightarrow> (Inl scheduler_error.InvalidChannel, s)
     | Inr _ \<Rightarrow>
         if unat (h_payload_len (pk_header packet)) \<noteq> length (pk_payload packet)
         then (Inl PayloadLengthMismatch, s)
         else if packet_channel packet = InputRealtime then
           let replaced_len = (case sd_latest_realtime_input s of None \<Rightarrow> 0 | Some p \<Rightarrow> wire_len p);
               projected = usize_saturating_add (sd_queued_bytes s - replaced_len) (wire_len packet)
           in if projected > sd_max_queued_bytes s then (Inl Backpressure, s)
              else (Inr (), s\<lparr>sd_latest_realtime_input := Some packet,
                              sd_queued_bytes := projected\<rparr>)
         else
           let projected = usize_saturating_add (sd_queued_bytes s) (wire_len packet);
               i = channel_priority (packet_channel packet)
           in if projected > sd_max_queued_bytes s then (Inl Backpressure, s)
              else (Inr (), s\<lparr>sd_queued_bytes := projected,
                              sd_queues := (sd_queues s)[i := sd_queues s ! i @ [packet]]\<rparr>))"

text \<open>\<^verbatim>\<open>queues.iter_mut().find_map(|queue| queue.pop_front())\<close>\<close>

fun pop_first :: "'a list list \<Rightarrow> 'a option \<times> 'a list list" where
  "pop_first [] = (None, [])"
| "pop_first ((x # q) # qs) = (Some x, q # qs)"
| "pop_first ([] # qs) = (let (r, qs') = pop_first qs in (r, [] # qs'))"

definition pop_next :: "priority_scheduler \<Rightarrow> scheduled_packet option \<times> priority_scheduler" where
  "pop_next s =
    (let (packet, s) =
       (case sd_latest_realtime_input s of
          Some p \<Rightarrow> (Some p, s\<lparr>sd_latest_realtime_input := None\<rparr>)
        | None \<Rightarrow>
            let (r, qs) = pop_first (sd_queues s) in (r, s\<lparr>sd_queues := qs\<rparr>))
     in case packet of
          None \<Rightarrow> (None, s)
        | Some p \<Rightarrow> (Some p, s\<lparr>sd_queued_bytes := sd_queued_bytes s - wire_len p\<rparr>))"

definition scheduler_is_empty :: "priority_scheduler \<Rightarrow> bool" where
  "scheduler_is_empty s \<longleftrightarrow>
    sd_latest_realtime_input s = None \<and> list_all (\<lambda>q. q = []) (sd_queues s)"

subsection \<open>The machine and its invariant\<close>

datatype scheduler_op = Enqueue scheduled_packet | PopNext

datatype scheduler_out =
    EnqueueResult "scheduler_error + unit"
  | PopResult "scheduled_packet option"

fun scheduler_step :: "priority_scheduler \<Rightarrow> scheduler_op \<Rightarrow> scheduler_out \<times> priority_scheduler" where
  "scheduler_step s (Enqueue p) = apfst EnqueueResult (enqueue s p)"
| "scheduler_step s PopNext = apfst PopResult (pop_next s)"

definition held_packets :: "priority_scheduler \<Rightarrow> scheduled_packet list" where
  "held_packets s =
    (case sd_latest_realtime_input s of None \<Rightarrow> [] | Some p \<Rightarrow> [p]) @ concat (sd_queues s)"

definition scheduler_ok :: "priority_scheduler \<Rightarrow> bool" where
  "scheduler_ok s \<longleftrightarrow>
    length (sd_queues s) = PRIORITY_LEVELS
    \<and> (\<forall>i < PRIORITY_LEVELS. \<forall>p \<in> set (sd_queues s ! i).
         channel_priority (packet_channel p) = i \<and> packet_channel p \<noteq> InputRealtime)
    \<and> (\<forall>p. sd_latest_realtime_input s = Some p \<longrightarrow> packet_channel p = InputRealtime)
    \<and> sd_queued_bytes s = sum_list (map wire_len (held_packets s))
    \<and> sd_queued_bytes s \<le> sd_max_queued_bytes s
    \<and> sd_max_queued_bytes s < usize_max"

lemma scheduler_new_ok: "m < usize_max \<Longrightarrow> scheduler_ok (scheduler_new m)"
  by (auto simp: scheduler_ok_def scheduler_new_def held_packets_def PRIORITY_LEVELS_def)

lemma channel_priority_less [simp]: "channel_priority c < PRIORITY_LEVELS"
  by (cases c) (simp_all add: PRIORITY_LEVELS_def)

lemma projected_exact:
  "usize_saturating_add a b \<le> m \<Longrightarrow> m < usize_max \<Longrightarrow> usize_saturating_add a b = a + b"
  by (simp add: usize_saturating_add_def min_def split: if_splits)

lemma concat_update_append:
  "i < length qs \<Longrightarrow> sum_list (map f (concat (qs[i := qs ! i @ [x]]))) =
    sum_list (map f (concat qs)) + (f x :: nat)"
proof (induction qs arbitrary: i)
  case Nil
  then show ?case by simp
next
  case (Cons q qs)
  then show ?case by (cases i) simp_all
qed

lemma enqueue_ok:
  "enqueue s p = (Inr u, s') \<longleftrightarrow>
    kind_accepts_channel (h_kind (pk_header p)) (packet_channel p)
    \<and> unat (h_payload_len (pk_header p)) = length (pk_payload p)
    \<and> (if packet_channel p = InputRealtime then
         let n = usize_saturating_add (sd_queued_bytes s -
               (case sd_latest_realtime_input s of None \<Rightarrow> 0 | Some r \<Rightarrow> wire_len r)) (wire_len p)
         in n \<le> sd_max_queued_bytes s
            \<and> s' = s\<lparr>sd_latest_realtime_input := Some p, sd_queued_bytes := n\<rparr>
       else
         let n = usize_saturating_add (sd_queued_bytes s) (wire_len p);
             i = channel_priority (packet_channel p)
         in n \<le> sd_max_queued_bytes s
            \<and> s' = s\<lparr>sd_queued_bytes := n,
                     sd_queues := (sd_queues s)[i := sd_queues s ! i @ [p]]\<rparr>)"
  by (cases "validate_kind_channel (pk_header p)")
    (auto simp: enqueue_def validate_kind_channel_def Let_def not_less split: if_splits)

lemma enqueue_error: "enqueue s p = (Inl e, s') \<Longrightarrow> s' = s"
  by (auto simp: enqueue_def Let_def split: sum.splits if_splits)

lemma pop_first_None: "fst (pop_first qs) = None \<longleftrightarrow> list_all (\<lambda>q. q = []) qs"
  by (induction qs rule: pop_first.induct) (simp_all add: split_beta)

lemma pop_first_None_id: "pop_first qs = (None, qs') \<Longrightarrow> qs' = qs"
  by (induction qs arbitrary: qs' rule: pop_first.induct) (auto split: prod.splits)

lemma pop_first_Some:
  assumes "pop_first qs = (Some x, qs')"
  obtains i where "i < length qs" "\<forall>j < i. qs ! j = []" "qs ! i = x # tl (qs ! i)"
    "qs' = qs[i := tl (qs ! i)]"
proof -
  have "\<exists>i < length qs. (\<forall>j < i. qs ! j = []) \<and> qs ! i = x # tl (qs ! i)
      \<and> qs' = qs[i := tl (qs ! i)]"
    using assms
  proof (induction qs arbitrary: qs' rule: pop_first.induct)
    case 1
    then show ?case by simp
  next
    case (2 y q qs)
    then show ?case by (intro exI [of _ 0]) simp
  next
    case (3 qs)
    then obtain rest where rest: "pop_first qs = (Some x, rest)" "qs' = [] # rest"
      by (auto split: prod.splits)
    with "3.IH" obtain i where "i < length qs" "\<forall>j < i. qs ! j = []" "qs ! i = x # tl (qs ! i)"
      "rest = qs[i := tl (qs ! i)]" by blast
    with rest(2) show ?case
      by (intro exI [of _ "Suc i"]) (auto simp: less_Suc_eq_0_disj)
  qed
  with that show ?thesis by blast
qed

lemma concat_update_tl:
  "i < length qs \<Longrightarrow> qs ! i = x # q \<Longrightarrow> sum_list (map f (concat qs)) =
    sum_list (map f (concat (qs[i := q]))) + (f x :: nat)"
proof (induction qs arbitrary: i)
  case Nil
  then show ?case by simp
next
  case (Cons r qs)
  then show ?case by (cases i) simp_all
qed

lemma set_concat_nth: "x \<in> set (concat qs) \<longleftrightarrow> (\<exists>j < length qs. x \<in> set (qs ! j))"
  by (simp add: Bex_def in_set_conv_nth [of _ qs]) blast

lemma set_update_tl:
  "j < length qs \<Longrightarrow> x \<in> set (qs[i := tl (qs ! i)] ! j) \<Longrightarrow> x \<in> set (qs ! j)"
  by (cases "i = j"; cases "qs ! i") simp_all

text \<open>The three outcomes of \<^verbatim>\<open>pop_next\<close>.\<close>

lemma pop_next_cases:
  assumes "pop_next s = (r, s')"
  obtains (empty) "r = None" "s' = s" "scheduler_is_empty s"
  | (realtime) p where "r = Some p" "sd_latest_realtime_input s = Some p"
      "s' = s\<lparr>sd_latest_realtime_input := None, sd_queued_bytes := sd_queued_bytes s - wire_len p\<rparr>"
  | (queued) p i where "r = Some p" "sd_latest_realtime_input s = None"
      "i < length (sd_queues s)" "\<forall>j < i. sd_queues s ! j = []"
      "sd_queues s ! i = p # tl (sd_queues s ! i)"
      "s' = s\<lparr>sd_queues := (sd_queues s)[i := tl (sd_queues s ! i)],
             sd_queued_bytes := sd_queued_bytes s - wire_len p\<rparr>"
proof (cases "sd_latest_realtime_input s")
  case (Some p)
  with assms show ?thesis by (intro realtime [of p]) (auto simp: pop_next_def)
next
  case None
  show ?thesis
  proof (cases "pop_first (sd_queues s)")
    case (Pair o' qs)
    show ?thesis
    proof (cases o')
      case None
      then have "list_all (\<lambda>q. q = []) (sd_queues s)" "qs = sd_queues s"
        using Pair pop_first_None [of "sd_queues s"] pop_first_None_id by auto
      with None Pair assms \<open>sd_latest_realtime_input s = None\<close> show ?thesis
        by (intro empty) (auto simp: pop_next_def scheduler_is_empty_def)
    next
      case (Some p)
      with Pair have "pop_first (sd_queues s) = (Some p, qs)" by simp
      then obtain i where "i < length (sd_queues s)" "\<forall>j < i. sd_queues s ! j = []"
        "sd_queues s ! i = p # tl (sd_queues s ! i)"
        "qs = (sd_queues s)[i := tl (sd_queues s ! i)]"
        by (rule pop_first_Some)
      with Some Pair assms None show ?thesis
        by (intro queued [of p i]) (simp_all add: pop_next_def)
    qed
  qed
qed

lemma enqueue_preserves:
  assumes ok: "scheduler_ok s" and enq: "enqueue s p = (r, s')"
  shows "scheduler_ok s'"
proof (cases r)
  case (Inl e)
  with enq ok enqueue_error show ?thesis by blast
next
  case (Inr u)
  let ?i = "channel_priority (packet_channel p)"
  have i: "?i < length (sd_queues s)" using ok by (simp add: scheduler_ok_def)
  show ?thesis
  proof (cases "packet_channel p = InputRealtime")
    case True
    with enq Inr ok show ?thesis
      by (auto simp: enqueue_ok scheduler_ok_def Let_def held_packets_def
          dest!: projected_exact split: option.splits)
  next
    case False
    then have "s' = s\<lparr>sd_queued_bytes := sd_queued_bytes s + wire_len p,
        sd_queues := (sd_queues s)[?i := sd_queues s ! ?i @ [p]]\<rparr>"
      and "sd_queued_bytes s + wire_len p \<le> sd_max_queued_bytes s"
      using enq Inr ok projected_exact [of "sd_queued_bytes s" "wire_len p" "sd_max_queued_bytes s"]
      by (auto simp: enqueue_ok Let_def scheduler_ok_def)
    with ok False i show ?thesis
      by (auto simp: scheduler_ok_def held_packets_def concat_update_append nth_list_update)
  qed
qed

lemma pop_next_preserves:
  assumes ok: "scheduler_ok s" and pop: "pop_next s = (r, s')"
  shows "scheduler_ok s'"
  using pop
proof (cases rule: pop_next_cases)
  case empty
  with ok show ?thesis by simp
next
  case (realtime p)
  with ok show ?thesis by (auto simp: scheduler_ok_def held_packets_def)
next
  case (queued p i)
  have "sum_list (map wire_len (concat (sd_queues s))) =
      sum_list (map wire_len (concat ((sd_queues s)[i := tl (sd_queues s ! i)]))) + wire_len p"
    using queued(3,5) by (rule concat_update_tl)
  with queued ok show ?thesis
    by (auto simp: scheduler_ok_def held_packets_def dest!: set_update_tl [rotated])
qed

subsection \<open>Priority\<close>

lemma pop_next_priority:
  assumes ok: "scheduler_ok s" and pop: "pop_next s = (Some p, s')"
    and realtime: "packet_channel p \<noteq> InputRealtime"
  shows "sd_latest_realtime_input s = None"
    and "q \<in> set (held_packets s') \<Longrightarrow>
      channel_priority (packet_channel p) \<le> channel_priority (packet_channel q)"
proof -
  have "sd_latest_realtime_input s = None
    \<and> (q \<in> set (held_packets s') \<longrightarrow>
        channel_priority (packet_channel p) \<le> channel_priority (packet_channel q))"
    using pop
  proof (cases rule: pop_next_cases)
    case (queued p' i)
    from queued(1) have [simp]: "p' = p" by simp
    have len: "length (sd_queues s) = PRIORITY_LEVELS"
      and prio: "\<And>j x. j < PRIORITY_LEVELS \<Longrightarrow> x \<in> set (sd_queues s ! j) \<Longrightarrow>
        channel_priority (packet_channel x) = j"
      using ok by (auto simp: scheduler_ok_def)
    have "p \<in> set (sd_queues s ! i)" using queued(5) by (metis \<open>p' = p\<close> list.set_intros(1))
    then have pi: "channel_priority (packet_channel p) = i" using prio queued(3) len by simp
    have "i \<le> channel_priority (packet_channel q)" if "q \<in> set (held_packets s')"
    proof -
      from that queued(2,6) obtain j where j: "j < length (sd_queues s)"
        "q \<in> set ((sd_queues s)[i := tl (sd_queues s ! i)] ! j)"
        by (auto simp: held_packets_def set_concat_nth simp del: set_concat)
      then have "q \<in> set (sd_queues s ! j)" by (rule set_update_tl)
      moreover from this have "\<not> j < i" using queued(4) by auto
      ultimately show ?thesis using prio j(1) len by auto
    qed
    with queued(2) pi show ?thesis by simp
  next
    case (realtime p')
    with ok assms(3) show ?thesis by (auto simp: scheduler_ok_def)
  qed simp
  then show "sd_latest_realtime_input s = None"
    and "q \<in> set (held_packets s') \<Longrightarrow>
      channel_priority (packet_channel p) \<le> channel_priority (packet_channel q)" by blast+
qed

lemma pop_next_latest:
  "enqueue s p = (Inr u, s') \<Longrightarrow> packet_channel p = InputRealtime \<Longrightarrow>
    fst (pop_next s') = Some p"
  by (auto simp: enqueue_ok Let_def pop_next_def)

lemma pop_next_empty: "scheduler_is_empty s \<longleftrightarrow> fst (pop_next s) = None"
  by (auto simp: pop_next_def scheduler_is_empty_def pop_first_None [symmetric] split_beta
      split: option.splits)

subsection \<open>Every reliable channel is a FIFO\<close>

definition on_channel :: "channel_id \<Rightarrow> scheduled_packet \<Rightarrow> bool" where
  "on_channel c p \<longleftrightarrow> packet_channel p = c \<and> c \<noteq> InputRealtime"

definition channel_held :: "channel_id \<Rightarrow> priority_scheduler \<Rightarrow> scheduled_packet list" where
  "channel_held c s = filter (on_channel c) (sd_queues s ! channel_priority c)"

fun channel_accepted :: "channel_id \<Rightarrow> scheduler_op \<Rightarrow> scheduler_out \<Rightarrow> scheduled_packet list" where
  "channel_accepted c (Enqueue p) (EnqueueResult (Inr _)) = (if on_channel c p then [p] else [])"
| "channel_accepted c _ _ = []"

fun channel_delivered :: "channel_id \<Rightarrow> scheduler_op \<Rightarrow> scheduler_out \<Rightarrow> scheduled_packet list" where
  "channel_delivered c _ (PopResult (Some p)) = (if on_channel c p then [p] else [])"
| "channel_delivered c _ _ = []"

lemma enqueue_held:
  assumes ok: "scheduler_ok s" and enq: "enqueue s p = (Inr u, s')"
  shows "channel_held c s' = channel_held c s @ (if on_channel c p then [p] else [])"
proof -
  let ?i = "channel_priority (packet_channel p)"
  have i: "?i < length (sd_queues s)" using ok by (simp add: scheduler_ok_def)
  show ?thesis
  proof (cases "packet_channel p = InputRealtime")
    case True
    with enq show ?thesis by (auto simp: enqueue_ok Let_def channel_held_def on_channel_def)
  next
    case False
    with enq have "sd_queues s' = (sd_queues s)[?i := sd_queues s ! ?i @ [p]]"
      by (simp add: enqueue_ok Let_def)
    with i False show ?thesis
      by (auto simp: channel_held_def on_channel_def nth_list_update)
  qed
qed

lemma pop_next_held:
  assumes ok: "scheduler_ok s" and pop: "pop_next s = (r, s')"
  shows "channel_held c s =
    (case r of Some p \<Rightarrow> if on_channel c p then [p] else [] | None \<Rightarrow> []) @ channel_held c s'"
  using pop
proof (cases rule: pop_next_cases)
  case empty
  then show ?thesis by simp
next
  case (realtime p)
  with ok have "\<not> on_channel c p" by (auto simp: scheduler_ok_def on_channel_def)
  with realtime show ?thesis by (simp add: channel_held_def)
next
  case (queued p i)
  have i: "channel_priority (packet_channel p) = i"
    using ok queued(3,5) by (metis list.set_intros(1) scheduler_ok_def)
  show ?thesis
  proof (cases "channel_priority c = i")
    case True
    have "channel_held c s = filter (on_channel c) (p # tl (sd_queues s ! i))"
      using queued(5) True by (simp add: channel_held_def)
    moreover have "channel_held c s' = filter (on_channel c) (tl (sd_queues s ! i))"
      using queued(3,6) True by (simp add: channel_held_def)
    ultimately show ?thesis using queued(1) by simp
  next
    case False
    then have "\<not> on_channel c p" using i by (auto simp: on_channel_def)
    with False queued show ?thesis by (simp add: channel_held_def)
  qed
qed

interpretation channel_queue: fifo_machine scheduler_step scheduler_ok
  "channel_held c" "channel_accepted c" "channel_delivered c" for c
proof
  fix s :: priority_scheduler and x :: scheduler_op
  assume ok: "scheduler_ok s"
  show "scheduler_ok (snd (scheduler_step s x))"
    using enqueue_preserves [OF ok prod.collapse [symmetric]]
      pop_next_preserves [OF ok prod.collapse [symmetric]]
    by (cases x) simp_all
  show "channel_held c s @ channel_accepted c x (fst (scheduler_step s x)) =
    channel_delivered c x (fst (scheduler_step s x)) @ channel_held c (snd (scheduler_step s x))"
  proof (cases x)
    case (Enqueue p)
    obtain r s' where enq: "enqueue s p = (r, s')" by fastforce
    show ?thesis
    proof (cases r)
      case (Inl e)
      with Enqueue enq enqueue_error [of s p e s'] show ?thesis by simp
    next
      case (Inr u)
      with Enqueue enq enqueue_held [OF ok, of p u s' c] show ?thesis by simp
    qed
  next
    case PopNext
    obtain r s' where pop: "pop_next s = (r, s')" by fastforce
    from PopNext pop pop_next_held [OF ok pop, of c] show ?thesis by (cases r) simp_all
  qed
qed

lemma channel_held_new: "channel_held c (scheduler_new m) = []"
  by (simp add: channel_held_def scheduler_new_def)

lemma scheduler_limit_step:
  "sd_max_queued_bytes (snd (scheduler_step s x)) = sd_max_queued_bytes s"
  by (cases x)
    (auto simp: enqueue_def pop_next_def Let_def split: sum.splits option.splits prod.splits)

lemma scheduler_limit:
  "sd_max_queued_bytes (snd (run_ops scheduler_step s xs)) = sd_max_queued_bytes s"
  by (induction xs arbitrary: s) (simp_all add: split_beta scheduler_limit_step)

subsection \<open>Draining\<close>

lemma mset_concat_update_tl:
  "i < length qs \<Longrightarrow> qs ! i = x # q \<Longrightarrow>
    mset (concat qs) = add_mset x (mset (concat (qs[i := q])))"
proof (induction qs arbitrary: i)
  case Nil
  then show ?case by simp
next
  case (Cons q' qs)
  then show ?case by (cases i) simp_all
qed

lemma pop_next_takes_one:
  assumes "pop_next s = (Some p, s')"
  shows "mset (held_packets s) = add_mset p (mset (held_packets s'))"
  using assms
proof (cases rule: pop_next_cases)
  case (realtime p')
  with assms show ?thesis by (simp add: held_packets_def)
next
  case (queued p' i)
  with assms mset_concat_update_tl [OF queued(3,5)] show ?thesis by (simp add: held_packets_def)
qed simp

lemma empty_held: "scheduler_is_empty s \<longleftrightarrow> held_packets s = []"
  by (auto simp: scheduler_is_empty_def held_packets_def list_all_iff split: option.splits)

fun popped :: "scheduler_out \<Rightarrow> scheduled_packet option" where
  "popped (PopResult r) = r"
| "popped (EnqueueResult _) = None"

lemma drain:
  "length (held_packets s) = n \<Longrightarrow>
    scheduler_is_empty (snd (run_ops scheduler_step s (replicate n PopNext)))
    \<and> mset (map (popped \<circ> snd) (fst (run_ops scheduler_step s (replicate n PopNext)))) =
        image_mset Some (mset (held_packets s))"
proof (induction n arbitrary: s)
  case 0
  then show ?case by (simp add: empty_held)
next
  case (Suc n)
  obtain r s' where pop: "pop_next s = (r, s')" by fastforce
  have "\<not> scheduler_is_empty s" using Suc.prems by (auto simp: empty_held)
  then obtain p where p: "r = Some p" using pop pop_next_empty [of s] by auto
  have held: "mset (held_packets s) = add_mset p (mset (held_packets s'))"
    using pop p pop_next_takes_one by simp
  then have "length (held_packets s') = n"
    using Suc.prems by (metis add_right_cancel size_add_mset size_mset Suc_eq_plus1)
  from Suc.IH [OF this] show ?case using pop p held by (simp add: split_beta)
qed

end
