(* ===== verification/Rc_Reconnect.thy ===== *)
theory Rc_Reconnect
  imports Rc_Messages "HOL-Library.Sublist"
begin

section \<open>The connection state machine\<close>

text \<open>
  \<^verbatim>\<open>crates/remote-transport/src/reconnect.rs\<close>: the phases of a connection, the binding of the
  secure path and the decision whether a reconnect may keep the session keys. The methods
  are functions returning result and state; \<open>conn_history\<close> is the inductive relation
  between the calls that succeeded so far and the state they lead to.
\<close>

definition DEFAULT_RECONNECT_WINDOW_MILLIS :: u64 where
  "DEFAULT_RECONNECT_WINDOW_MILLIS = 30000"

datatype connection_phase =
    Idle
  | Preparing
  | GatheringCandidates
  | ExchangingCandidates
  | Racing
  | EstablishingSecureSession
  | Connected
  | Degraded
  | Reconnecting
  | Closed
  | Failed

datatype reconnect_trigger =
    HeartbeatTimeout
  | TransportClosed
  | SustainedHighRtt
  | SustainedHighLoss
  | NetworkInterfaceChanged

datatype key_reuse_decision = ResumeExistingKeys | RekeyRequired

record secure_path_binding =
  pb_transport_path :: transport_path
  pb_candidate_pair_id :: u128
  pb_relay_node_id :: "string option"
  pb_permissions_digest :: bytes

definition path_binding_validate :: "secure_path_binding \<Rightarrow> bool" where
  "path_binding_validate b \<longleftrightarrow> is_relay (pb_transport_path b) = (pb_relay_node_id b \<noteq> None)"

record reconnect_config =
  rc_key_reuse_window_millis :: u64

definition reconnect_config_default :: reconnect_config where
  "reconnect_config_default = \<lparr>rc_key_reuse_window_millis = DEFAULT_RECONNECT_WINDOW_MILLIS\<rparr>"

datatype reconnect_error = InvalidState | InvalidPathBinding | ReconnectForbidden

record connection_state_machine =
  cm_phase :: connection_phase
  cm_config :: reconnect_config
  cm_active_binding :: "secure_path_binding option"
  cm_pending_binding :: "secure_path_binding option"
  cm_last_authenticated_activity :: "u64 option"
  cm_reconnect_forbidden :: bool

type_synonym 'a conn_result = "(reconnect_error + 'a) \<times> connection_state_machine"

definition connection_new :: "reconnect_config \<Rightarrow> connection_state_machine" where
  "connection_new config =
    \<lparr>cm_phase = Idle, cm_config = config, cm_active_binding = None, cm_pending_binding = None,
     cm_last_authenticated_activity = None, cm_reconnect_forbidden = False\<rparr>"

definition transition ::
    "connection_state_machine \<Rightarrow> connection_phase \<Rightarrow> connection_phase \<Rightarrow> unit conn_result" where
  "transition m expected next_phase =
    (if cm_phase m \<noteq> expected then (Inl InvalidState, m)
     else (Inr (), m\<lparr>cm_phase := next_phase\<rparr>))"

definition connection_start :: "connection_state_machine \<Rightarrow> unit conn_result" where
  "connection_start m = transition m Idle Preparing"

definition permissions_prepared :: "connection_state_machine \<Rightarrow> unit conn_result" where
  "permissions_prepared m = transition m Preparing GatheringCandidates"

definition candidates_gathered :: "connection_state_machine \<Rightarrow> unit conn_result" where
  "candidates_gathered m = transition m GatheringCandidates ExchangingCandidates"

definition candidates_exchanged :: "connection_state_machine \<Rightarrow> unit conn_result" where
  "candidates_exchanged m = transition m ExchangingCandidates Racing"

definition set_pending_binding ::
    "connection_state_machine \<Rightarrow> secure_path_binding \<Rightarrow> unit conn_result" where
  "set_pending_binding m binding =
    (if \<not> path_binding_validate binding then (Inl InvalidPathBinding, m)
     else (Inr (), m\<lparr>cm_pending_binding := Some binding\<rparr>))"

definition initial_path_selected ::
    "connection_state_machine \<Rightarrow> secure_path_binding \<Rightarrow> key_reuse_decision conn_result" where
  "initial_path_selected m binding =
    (if cm_phase m \<noteq> Racing then (Inl InvalidState, m)
     else
       case set_pending_binding m binding of
         (Inl e, m) \<Rightarrow> (Inl e, m)
       | (Inr _, m) \<Rightarrow> (Inr RekeyRequired, m\<lparr>cm_phase := EstablishingSecureSession\<rparr>))"

definition secure_session_established ::
    "connection_state_machine \<Rightarrow> u64 \<Rightarrow> unit conn_result" where
  "secure_session_established m now =
    (if cm_phase m \<noteq> EstablishingSecureSession then (Inl InvalidState, m)
     else
       let m = (case cm_pending_binding m of
                  Some binding \<Rightarrow>
                    m\<lparr>cm_pending_binding := None, cm_active_binding := Some binding\<rparr>
                | None \<Rightarrow> m)
       in if cm_active_binding m = None then (Inl InvalidState, m)
          else (Inr (), m\<lparr>cm_last_authenticated_activity := Some now, cm_phase := Connected\<rparr>))"

definition record_authenticated_activity ::
    "connection_state_machine \<Rightarrow> u64 \<Rightarrow> unit conn_result" where
  "record_authenticated_activity m now =
    (if cm_phase m \<notin> {Connected, Degraded} then (Inl InvalidState, m)
     else (Inr (), m\<lparr>cm_last_authenticated_activity := Some now\<rparr>))"

definition mark_degraded :: "connection_state_machine \<Rightarrow> unit conn_result" where
  "mark_degraded m = transition m Connected Degraded"

definition begin_reconnect ::
    "connection_state_machine \<Rightarrow> reconnect_trigger \<Rightarrow> unit conn_result" where
  "begin_reconnect m trigger =
    (if cm_reconnect_forbidden m then (Inl ReconnectForbidden, m)
     else if cm_phase m \<notin> {Connected, Degraded} then (Inl InvalidState, m)
     else (Inr (), m\<lparr>cm_phase := Reconnecting\<rparr>))"

definition reconnect_path_selected ::
    "connection_state_machine \<Rightarrow> secure_path_binding \<Rightarrow> u64 \<Rightarrow> key_reuse_decision conn_result" where
  "reconnect_path_selected m binding now =
    (if cm_reconnect_forbidden m then (Inl ReconnectForbidden, m)
     else if cm_phase m \<noteq> Reconnecting then (Inl InvalidState, m)
     else if \<not> path_binding_validate binding then (Inl InvalidPathBinding, m)
     else
       let within_window = (case cm_last_authenticated_activity m of
             None \<Rightarrow> False
           | Some last_activity \<Rightarrow>
               saturating_sub now last_activity \<le> rc_key_reuse_window_millis (cm_config m));
           unchanged = (cm_active_binding m = Some binding);
           decision = (if within_window \<and> unchanged then ResumeExistingKeys else RekeyRequired)
       in (Inr decision, m\<lparr>cm_pending_binding := Some binding,
                           cm_phase := EstablishingSecureSession\<rparr>))"

definition forbid_reconnect_and_close :: "connection_state_machine \<Rightarrow> connection_state_machine" where
  "forbid_reconnect_and_close m =
    m\<lparr>cm_reconnect_forbidden := True, cm_active_binding := None, cm_pending_binding := None,
      cm_last_authenticated_activity := None, cm_phase := Closed\<rparr>"

definition close_by_local_or_remote_user ::
    "connection_state_machine \<Rightarrow> connection_state_machine" where
  "close_by_local_or_remote_user m = forbid_reconnect_and_close m"

definition close_for_remote_reboot :: "connection_state_machine \<Rightarrow> connection_state_machine" where
  "close_for_remote_reboot m = forbid_reconnect_and_close m"

definition connection_fail :: "connection_state_machine \<Rightarrow> connection_state_machine" where
  "connection_fail m = m\<lparr>cm_pending_binding := None, cm_phase := Failed\<rparr>"

subsection \<open>The machine\<close>

datatype conn_op =
    Start
  | PermissionsPrepared
  | CandidatesGathered
  | CandidatesExchanged
  | InitialPathSelected secure_path_binding
  | SecureSessionEstablished u64
  | RecordActivity u64
  | MarkDegraded
  | BeginReconnect reconnect_trigger
  | ReconnectPathSelected secure_path_binding u64
  | CloseByUser
  | CloseForReboot
  | Fail

definition conn_step ::
    "connection_state_machine \<Rightarrow> conn_op \<Rightarrow> key_reuse_decision option conn_result" where
  "conn_step m x =
    (case x of
       Start \<Rightarrow> apfst (map_ok (\<lambda>_. None)) (connection_start m)
     | PermissionsPrepared \<Rightarrow> apfst (map_ok (\<lambda>_. None)) (permissions_prepared m)
     | CandidatesGathered \<Rightarrow> apfst (map_ok (\<lambda>_. None)) (candidates_gathered m)
     | CandidatesExchanged \<Rightarrow> apfst (map_ok (\<lambda>_. None)) (candidates_exchanged m)
     | InitialPathSelected b \<Rightarrow> apfst (map_ok Some) (initial_path_selected m b)
     | SecureSessionEstablished t \<Rightarrow> apfst (map_ok (\<lambda>_. None)) (secure_session_established m t)
     | RecordActivity t \<Rightarrow> apfst (map_ok (\<lambda>_. None)) (record_authenticated_activity m t)
     | MarkDegraded \<Rightarrow> apfst (map_ok (\<lambda>_. None)) (mark_degraded m)
     | BeginReconnect g \<Rightarrow> apfst (map_ok (\<lambda>_. None)) (begin_reconnect m g)
     | ReconnectPathSelected b t \<Rightarrow> apfst (map_ok Some) (reconnect_path_selected m b t)
     | CloseByUser \<Rightarrow> (Inr None, close_by_local_or_remote_user m)
     | CloseForReboot \<Rightarrow> (Inr None, close_for_remote_reboot m)
     | Fail \<Rightarrow> (Inr None, connection_fail m))"

lemmas conn_defs =
  connection_start_def permissions_prepared_def candidates_gathered_def candidates_exchanged_def
  initial_path_selected_def set_pending_binding_def secure_session_established_def
  record_authenticated_activity_def mark_degraded_def begin_reconnect_def
  reconnect_path_selected_def close_by_local_or_remote_user_def close_for_remote_reboot_def
  forbid_reconnect_and_close_def connection_fail_def transition_def

inductive conn_history ::
    "reconnect_config \<Rightarrow> conn_op list \<Rightarrow> connection_state_machine \<Rightarrow> bool" for config where
  initial: "conn_history config [] (connection_new config)"
| succeeds: "conn_history config h m \<Longrightarrow> conn_step m x = (Inr r, m') \<Longrightarrow>
    conn_history config (h @ [x]) m'"
| refused: "conn_history config h m \<Longrightarrow> conn_step m x = (Inl e, m') \<Longrightarrow> conn_history config h m'"

inductive_cases conn_history_NilE: "conn_history config [] m"
inductive_cases conn_history_snocE: "conn_history config (h @ [x]) m"

subsection \<open>Invariant\<close>

definition conn_ok :: "connection_state_machine \<Rightarrow> bool" where
  "conn_ok m \<longleftrightarrow>
    (cm_phase m = EstablishingSecureSession \<longrightarrow> cm_pending_binding m \<noteq> None)
    \<and> (cm_phase m \<in> {Connected, Degraded, Reconnecting} \<longrightarrow>
         cm_active_binding m \<noteq> None \<and> cm_last_authenticated_activity m \<noteq> None)
    \<and> (\<forall>b. cm_pending_binding m = Some b \<longrightarrow> path_binding_validate b)
    \<and> (\<forall>b. cm_active_binding m = Some b \<longrightarrow> path_binding_validate b)
    \<and> (cm_reconnect_forbidden m \<longrightarrow>
         cm_phase m \<in> {Closed, Failed} \<and> cm_active_binding m = None
         \<and> cm_pending_binding m = None \<and> cm_last_authenticated_activity m = None)"

lemma connection_new_ok: "conn_ok (connection_new config)"
  by (simp add: conn_ok_def connection_new_def)

interpretation connection: guarded_machine conn_step conn_ok
proof
  fix m :: connection_state_machine and x :: conn_op
  assume "conn_ok m"
  then show "conn_ok (snd (conn_step m x))"
    by (cases x)
      (auto simp: conn_step_def conn_defs conn_ok_def Let_def split: option.splits)
qed

lemma conn_step_ok: "conn_ok m \<Longrightarrow> conn_step m x = (r, m') \<Longrightarrow> conn_ok m'"
  using connection.step_inv by (metis snd_conv)

lemma conn_history_ok: "conn_history config h m \<Longrightarrow> conn_ok m"
  by (induction rule: conn_history.induct) (auto simp: connection_new_ok intro: conn_step_ok)

text \<open>A refused call changes nothing.\<close>

lemma conn_step_refuses:
  "conn_ok m \<Longrightarrow> fst (conn_step m x) = Inl e \<Longrightarrow> snd (conn_step m x) = m"
  by (cases x)
    (auto simp: conn_step_def conn_defs conn_ok_def Let_def split: if_splits option.splits)

lemma conn_step_error:
  "conn_ok m \<Longrightarrow> conn_step m x = (Inl e, m') \<Longrightarrow> m' = m"
  using conn_step_refuses by (metis fst_conv snd_conv)

lemma established_never_fails:
  "conn_ok m \<Longrightarrow> cm_phase m = EstablishingSecureSession \<Longrightarrow>
    \<exists>b. cm_pending_binding m = Some b \<and>
      secure_session_established m t =
        (Inr (), m\<lparr>cm_pending_binding := None, cm_active_binding := Some b,
           cm_last_authenticated_activity := Some t, cm_phase := Connected\<rparr>)"
  by (auto simp: conn_ok_def secure_session_established_def)

subsection \<open>Reuse of keys\<close>

lemma resume_iff:
  assumes "conn_ok m"
  shows "fst (reconnect_path_selected m b now) = Inr ResumeExistingKeys \<longleftrightarrow>
    cm_phase m = Reconnecting \<and> cm_active_binding m = Some b
    \<and> (\<exists>t. cm_last_authenticated_activity m = Some t
         \<and> saturating_sub now t \<le> rc_key_reuse_window_millis (cm_config m))"
  using assms by (auto simp: reconnect_path_selected_def conn_ok_def Let_def split: option.splits)

fun activity_time :: "conn_op \<Rightarrow> u64 option" where
  "activity_time (SecureSessionEstablished t) = Some t"
| "activity_time (RecordActivity t) = Some t"
| "activity_time _ = None"

lemma conn_step_activity:
  "cm_last_authenticated_activity (snd (conn_step m x)) \<in>
    {cm_last_authenticated_activity m, None, activity_time x}"
  by (cases x) (auto simp: conn_step_def conn_defs Let_def split: option.splits)

lemma conn_step_config: "cm_config (snd (conn_step m x)) = cm_config m"
  by (cases x) (auto simp: conn_step_def conn_defs Let_def split: option.splits)

lemma last_activity_history:
  "conn_history config h m \<Longrightarrow> cm_last_authenticated_activity m = Some t \<Longrightarrow>
    \<exists>x \<in> set h. activity_time x = Some t"
proof (induction arbitrary: t rule: conn_history.induct)
  case initial
  then show ?case by (simp add: connection_new_def)
next
  case (succeeds h m x r m')
  have "cm_last_authenticated_activity m' = cm_last_authenticated_activity m
      \<or> cm_last_authenticated_activity m' = None
      \<or> cm_last_authenticated_activity m' = activity_time x"
    using conn_step_activity [of m x] succeeds.hyps(2) by simp
  with succeeds.IH succeeds.prems show ?case by fastforce
next
  case (refused h m x e m')
  with conn_step_error conn_history_ok show ?case by blast
qed

lemma config_history: "conn_history config h m \<Longrightarrow> cm_config m = config"
proof (induction rule: conn_history.induct)
  case initial
  then show ?case by (simp add: connection_new_def)
next
  case (succeeds h m x r m')
  with conn_step_config [of m x] show ?case by simp
next
  case (refused h m x e m')
  with conn_step_error conn_history_ok show ?case by blast
qed

subsection \<open>A closed connection never comes back\<close>

lemma forbidden_step:
  assumes "conn_ok m" "cm_reconnect_forbidden m"
  shows "cm_reconnect_forbidden (snd (conn_step m x))"
    and "fst (conn_step m x) = Inr r \<Longrightarrow> x \<in> {CloseByUser, CloseForReboot, Fail}"
  using assms
  by (cases x; auto simp: conn_step_def conn_defs conn_ok_def Let_def split: if_splits)+

interpretation closed: guarded_machine conn_step "\<lambda>m. conn_ok m \<and> cm_reconnect_forbidden m"
  by unfold_locales (simp add: connection.step_inv forbidden_step(1))

subsection \<open>The phases are passed in order\<close>

fun stage :: "conn_op \<Rightarrow> nat option" where
  "stage Start = Some 0"
| "stage PermissionsPrepared = Some 1"
| "stage CandidatesGathered = Some 2"
| "stage CandidatesExchanged = Some 3"
| "stage (InitialPathSelected _) = Some 4"
| "stage (SecureSessionEstablished _) = Some 5"
| "stage _ = None"

fun stages_passed :: "connection_phase \<Rightarrow> nat" where
  "stages_passed Idle = 0"
| "stages_passed Preparing = 1"
| "stages_passed GatheringCandidates = 2"
| "stages_passed ExchangingCandidates = 3"
| "stages_passed Racing = 4"
| "stages_passed EstablishingSecureSession = 5"
| "stages_passed Connected = 6"
| "stages_passed Degraded = 6"
| "stages_passed Reconnecting = 6"
| "stages_passed Closed = 0"
| "stages_passed Failed = 0"

lemma stages_step:
  "stages_passed (cm_phase (snd (conn_step m x))) \<le> stages_passed (cm_phase m)
    \<or> (stages_passed (cm_phase (snd (conn_step m x))) = Suc (stages_passed (cm_phase m))
       \<and> stage x = Some (stages_passed (cm_phase m)))"
  by (cases x) (auto simp: conn_step_def conn_defs Let_def split: option.splits)

lemma subseq_prefix: "subseq xs ys \<Longrightarrow> subseq xs (ys @ zs)"
  using list_emb_append_mono [of "(=)" xs ys "[]" zs] by simp

lemma subseq_upt: "n \<le> m \<Longrightarrow> subseq [0..<n] [0..<m]"
  using upt_add_eq_append [of 0 n "m - n"] by (simp add: subseq_prefix)

lemma phases_history:
  "conn_history config h m \<Longrightarrow>
    subseq [0..<stages_passed (cm_phase m)] (List.map_filter stage h)"
proof (induction rule: conn_history.induct)
  case initial
  then show ?case by (simp add: connection_new_def)
next
  case (succeeds h m x r m')
  let ?n = "stages_passed (cm_phase m)"
  have app: "List.map_filter stage (h @ [x]) = List.map_filter stage h @ List.map_filter stage [x]"
    by (simp add: List.map_filter_def)
  have "stages_passed (cm_phase m') \<le> ?n
      \<or> (stages_passed (cm_phase m') = Suc ?n \<and> stage x = Some ?n)"
    using stages_step [of m x] succeeds.hyps(2) by simp
  then show ?case
  proof
    assume "stages_passed (cm_phase m') \<le> ?n"
    then have "subseq [0..<stages_passed (cm_phase m')] (List.map_filter stage h)"
      using succeeds.IH subseq_upt subseq_order.trans by blast
    then show ?thesis by (simp only: app subseq_prefix)
  next
    assume "stages_passed (cm_phase m') = Suc ?n \<and> stage x = Some ?n"
    then have "[0..<stages_passed (cm_phase m')] = [0..<?n] @ [?n]"
      and "List.map_filter stage [x] = [?n]" by (simp_all add: List.map_filter_def)
    then show ?thesis using succeeds.IH by (simp only: app list_emb_append_mono subseq_order.refl)
  qed
next
  case (refused h m x e m')
  with conn_step_error conn_history_ok show ?case by blast
qed

end
