(* ===== verification/Rc_Binding.thy ===== *)
theory Rc_Binding
  imports Rc_Keys
begin

section \<open>Candidate and relay bindings\<close>

text \<open>
  \<^verbatim>\<open>crates/remote-transport/src/binding.rs\<close> with the messages of
  \<^verbatim>\<open>crates/remote-protocol/src/candidates.rs\<close>: candidate identifiers, the hashes that bind
  tokens to candidates and relay allocations, the validation of a relay open and the two
  replay guards. \<^verbatim>\<open>ct_eq\<close> is equality of byte strings.
\<close>

definition OBSERVE_TOKEN_MAX_TTL_MILLIS :: u64 where
  "OBSERVE_TOKEN_MAX_TTL_MILLIS = 30000"

definition CANDIDATE_TOKEN_MAX_TTL_MILLIS :: u64 where
  "CANDIDATE_TOKEN_MAX_TTL_MILLIS = 60000"

definition RELAY_TOKEN_MAX_TTL_MILLIS :: u64 where
  "RELAY_TOKEN_MAX_TTL_MILLIS = 60000"

datatype binding_error =
    CanonicalEncoding
  | CandidateIdMismatch
  | InvalidCandidateKindSource
  | InvalidRelayNodeBinding
  | TokenMismatch
  | TokenBindingMismatch
  | TokenExpired
  | TokenTtlExceeded
  | TokenSignatureInvalid
  | AuthorizationUnavailable
  | AuthorizationExpired
  | SessionClosed
  | RelayNotAllowed
  | RelayNodeNotAllowed
  | RelayEpochMismatch
  | PermissionsMismatch
  | DeviceMismatch
  | DeviceKeyVersionMismatch
  | DeviceKeyRevoked
  | DeviceSignatureInvalid
  | NonceReplay
  | ProbeReplay
  | InvalidEndpoint
  | LanAddressForbidden
  | LanPortForbidden
  | LanCandidateLimitExceeded
  | LanClaimMissing
  | LanClaimHashMismatch
  | TimestampOutsideWindow
  | InvalidInterfaceHash
  | ObserveContextMismatch
  | ObserveResultMismatch
  | InvalidRequestedTtl
  | ProbeRoleMismatch
  | ProbeMalformed
  | ProbeRateLimited
  | LanNotRoutable
  | InvalidState

subsection \<open>Messages\<close>

record connection_candidate_dto =
  cd_candidate_id :: u128
  cd_session_id :: u128
  cd_device_id :: string
  cd_role :: session_role
  cd_kind :: transport_path
  cd_endpoint :: string
  cd_source :: candidate_source
  cd_observe_result_id :: "string option"
  cd_priority :: u32
  cd_rtt_ms :: "u32 option"
  cd_loss_ppm :: "u32 option"
  cd_jitter_ms :: "u32 option"
  cd_relay_node_id :: "string option"

record candidate_authorization =
  ca_candidate_token :: bytes
  ca_candidate_token_binding_hash :: bytes
  ca_expires_at_epoch_millis :: u64

record relay_allocation =
  ra_session_id :: u128
  ra_device_id :: string
  ra_role :: session_role
  ra_controller_device_id :: string
  ra_controlled_device_id :: string
  ra_relay_node_id :: string
  ra_transport :: transport_path
  ra_public_endpoint :: string
  ra_permissions_digest :: bytes
  ra_relay_token_epoch :: u64
  ra_issued_at_epoch_millis :: u64
  ra_expires_at_epoch_millis :: u64
  ra_relay_token_id :: string
  ra_session_relay_token :: bytes
  ra_token_binding_hash :: bytes

record relay_open =
  ro_session_id :: u128
  ro_device_id :: string
  ro_role :: session_role
  ro_controller_device_id :: string
  ro_controlled_device_id :: string
  ro_relay_node_id :: string
  ro_transport :: transport_path
  ro_permissions_digest :: bytes
  ro_relay_token_epoch :: u64
  ro_issued_at_epoch_millis :: u64
  ro_expires_at_epoch_millis :: u64
  ro_relay_token_id :: string
  ro_relay_open_nonce :: bytes
  ro_session_relay_token :: bytes
  ro_token_binding_hash :: bytes
  ro_device_signature :: bytes

subsection \<open>Candidate identifiers and token bindings\<close>

definition validate_candidate_shape :: "connection_candidate_dto \<Rightarrow> binding_error + unit" where
  "validate_candidate_shape c =
    (if (cd_kind c, cd_source c) \<notin> {(LanDirect, LocalInterface), (UdpP2p, UdpObserved),
          (QuicRelay, RelayAllocated), (Tls443Relay, RelayAllocated)}
     then Inl InvalidCandidateKindSource
     else if is_relay (cd_kind c) \<noteq> (cd_relay_node_id c \<noteq> None) then Inl InvalidRelayNodeBinding
     else if (cd_source c = UdpObserved) \<noteq> (cd_observe_result_id c \<noteq> None)
     then Inl InvalidCandidateKindSource
     else Inr ())"

definition candidate_id_bytes :: "connection_candidate_dto \<Rightarrow> canonical_error + bytes" where
  "candidate_id_bytes c =
    map_ok finish (and_then (writer_new ''rctl-candidate-id-v1'') (try_chain
      [push_u128 ''session_id'' (cd_session_id c),
       push_str ''device_id'' (cd_device_id c),
       push_str ''role'' (role_as_str (cd_role c)),
       push_str ''kind'' (path_as_str (cd_kind c)),
       push_str ''endpoint'' (cd_endpoint c),
       push_str ''source'' (source_as_str (cd_source c)),
       push_optional_str ''relay_node_id'' (cd_relay_node_id c)]))"

definition digest_prefix :: "bytes \<Rightarrow> u128" where
  "digest_prefix digest = from_be_bytes (slice 0 16 digest)"

definition candidate_id ::
    "(bytes \<Rightarrow> bytes) \<Rightarrow> connection_candidate_dto \<Rightarrow> binding_error + u128" where
  "candidate_id sha candidate =
    and_then (validate_candidate_shape candidate) (\<lambda>_.
    and_then (map_err (\<lambda>_. CanonicalEncoding) (candidate_id_bytes candidate)) (\<lambda>bs.
    Inr (digest_prefix (sha bs))))"

definition candidate_pair_id_bytes ::
    "u128 \<Rightarrow> u128 \<Rightarrow> u128 \<Rightarrow> transport_path \<Rightarrow> string option \<Rightarrow> canonical_error + bytes" where
  "candidate_pair_id_bytes session_id controller_candidate_id controlled_candidate_id path relay_node_id =
    map_ok finish (and_then (writer_new ''rctl-candidate-pair-id-v1'') (try_chain
      [push_u128 ''session_id'' session_id,
       push_u128 ''controller_candidate_id'' controller_candidate_id,
       push_u128 ''controlled_candidate_id'' controlled_candidate_id,
       push_str ''selected_transport_path'' (path_as_str path),
       push_optional_str ''relay_node_id'' relay_node_id]))"

definition candidate_pair_id ::
    "(bytes \<Rightarrow> bytes) \<Rightarrow> u128 \<Rightarrow> u128 \<Rightarrow> u128 \<Rightarrow> transport_path \<Rightarrow> string option
      \<Rightarrow> binding_error + u128" where
  "candidate_pair_id sha session_id controller_candidate_id controlled_candidate_id path relay_node_id =
    (if is_relay path \<noteq> (relay_node_id \<noteq> None) then Inl InvalidRelayNodeBinding
     else
       and_then (map_err (\<lambda>_. CanonicalEncoding) (candidate_pair_id_bytes session_id
           controller_candidate_id controlled_candidate_id path relay_node_id)) (\<lambda>bs.
       Inr (digest_prefix (sha bs))))"

definition candidate_token_binding_bytes ::
    "connection_candidate_dto \<Rightarrow> u64 \<Rightarrow> canonical_error + bytes" where
  "candidate_token_binding_bytes c expires_at =
    map_ok finish (and_then (writer_new ''rctl-candidate-token-binding-v1'') (try_chain
      [push_u128 ''session_id'' (cd_session_id c),
       push_str ''device_id'' (cd_device_id c),
       push_str ''role'' (role_as_str (cd_role c)),
       push_u128 ''candidate_id'' (cd_candidate_id c),
       push_str ''kind'' (path_as_str (cd_kind c)),
       push_str ''endpoint'' (cd_endpoint c),
       push_str ''source'' (source_as_str (cd_source c)),
       push_optional_str ''observe_result_id'' (cd_observe_result_id c),
       push_u64 ''expires_at_epoch_millis'' expires_at]))"

definition candidate_token_binding_hash ::
    "(bytes \<Rightarrow> bytes) \<Rightarrow> connection_candidate_dto \<Rightarrow> u64 \<Rightarrow> binding_error + bytes" where
  "candidate_token_binding_hash sha candidate expires_at =
    and_then (candidate_id sha candidate) (\<lambda>recomputed_id.
    if recomputed_id \<noteq> cd_candidate_id candidate then Inl CandidateIdMismatch
    else
      and_then (map_err (\<lambda>_. CanonicalEncoding) (candidate_token_binding_bytes candidate expires_at))
        (\<lambda>bs. Inr (sha bs)))"

definition validate_candidate_authorization ::
    "(bytes \<Rightarrow> bytes) \<Rightarrow> connection_candidate_dto \<Rightarrow> candidate_authorization \<Rightarrow> u64
      \<Rightarrow> binding_error + unit" where
  "validate_candidate_authorization sha candidate authorization now =
    (if now > ca_expires_at_epoch_millis authorization then Inl TokenExpired
     else if saturating_sub (ca_expires_at_epoch_millis authorization) now
          > CANDIDATE_TOKEN_MAX_TTL_MILLIS
     then Inl TokenTtlExceeded
     else
       and_then (candidate_token_binding_hash sha candidate
           (ca_expires_at_epoch_millis authorization)) (\<lambda>expected.
       if expected \<noteq> ca_candidate_token_binding_hash authorization then Inl TokenBindingMismatch
       else if ca_candidate_token authorization = [] then Inl TokenMismatch
       else Inr ()))"

subsection \<open>Relay tokens\<close>

definition relay_binding_pushes where
  "relay_binding_pushes session_id device_id role controller_device_id controlled_device_id
      relay_node_id transport digest epoch issued_at expires_at relay_token_id =
    [push_u128 ''session_id'' session_id,
     push_str ''device_id'' device_id,
     push_str ''role'' (role_as_str role),
     push_str ''controller_device_id'' controller_device_id,
     push_str ''controlled_device_id'' controlled_device_id,
     push_str ''relay_node_id'' relay_node_id,
     push_str ''transport'' (path_as_str transport),
     push_field ''permissions_digest'' digest,
     push_u64 ''relay_token_epoch'' epoch,
     push_u64 ''issued_at_epoch_millis'' issued_at,
     push_u64 ''expires_at_epoch_millis'' expires_at,
     push_str ''relay_token_id'' relay_token_id]"

definition relay_token_binding_bytes :: "relay_allocation \<Rightarrow> canonical_error + bytes" where
  "relay_token_binding_bytes a =
    map_ok finish (and_then (writer_new ''rctl-relay-token-binding-v1'') (try_chain
      (relay_binding_pushes (ra_session_id a) (ra_device_id a) (ra_role a)
        (ra_controller_device_id a) (ra_controlled_device_id a) (ra_relay_node_id a)
        (ra_transport a) (ra_permissions_digest a) (ra_relay_token_epoch a)
        (ra_issued_at_epoch_millis a) (ra_expires_at_epoch_millis a) (ra_relay_token_id a))))"

definition relay_token_binding_hash ::
    "(bytes \<Rightarrow> bytes) \<Rightarrow> relay_allocation \<Rightarrow> binding_error + bytes" where
  "relay_token_binding_hash sha allocation =
    (if \<not> is_relay (ra_transport allocation) then Inl InvalidRelayNodeBinding
     else
       and_then (map_err (\<lambda>_. CanonicalEncoding) (relay_token_binding_bytes allocation))
         (\<lambda>bs. Inr (sha bs)))"

definition relay_open_canonical_bytes :: "relay_open \<Rightarrow> canonical_error + bytes" where
  "relay_open_canonical_bytes p =
    map_ok finish (and_then (writer_new ''rctl-relay-open-v1'') (try_chain
      (relay_binding_pushes (ro_session_id p) (ro_device_id p) (ro_role p)
        (ro_controller_device_id p) (ro_controlled_device_id p) (ro_relay_node_id p)
        (ro_transport p) (ro_permissions_digest p) (ro_relay_token_epoch p)
        (ro_issued_at_epoch_millis p) (ro_expires_at_epoch_millis p) (ro_relay_token_id p)
       @ [push_field ''relay_open_nonce'' (ro_relay_open_nonce p),
          push_field ''session_relay_token'' (ro_session_relay_token p),
          push_field ''token_binding_hash'' (ro_token_binding_hash p)])))"

datatype relay_session_status = CanConnect | Connected | Closed

record relay_authorization_snapshot =
  rs_session_id :: u128
  rs_device_id :: string
  rs_role :: session_role
  rs_status :: relay_session_status
  rs_allow_relay :: bool
  rs_permissions_digest :: bytes
  rs_relay_token_epoch :: u64
  rs_allowed_relay_node_ids :: "string list"
  rs_device_public_key :: bytes
  rs_device_public_key_version :: u64
  rs_expected_device_public_key_version :: u64
  rs_device_key_revoked :: bool
  rs_expires_at_epoch_millis :: u64

definition relay_open_matches_allocation :: "relay_open \<Rightarrow> relay_allocation \<Rightarrow> bool" where
  "relay_open_matches_allocation p a \<longleftrightarrow>
    ro_session_id p = ra_session_id a
    \<and> ro_device_id p = ra_device_id a
    \<and> ro_role p = ra_role a
    \<and> ro_controller_device_id p = ra_controller_device_id a
    \<and> ro_controlled_device_id p = ra_controlled_device_id a
    \<and> ro_relay_node_id p = ra_relay_node_id a
    \<and> ro_transport p = ra_transport a
    \<and> ro_permissions_digest p = ra_permissions_digest a
    \<and> ro_relay_token_epoch p = ra_relay_token_epoch a
    \<and> ro_issued_at_epoch_millis p = ra_issued_at_epoch_millis a
    \<and> ro_expires_at_epoch_millis p = ra_expires_at_epoch_millis a
    \<and> ro_relay_token_id p = ra_relay_token_id a
    \<and> ro_session_relay_token p = ra_session_relay_token a"

record relay_open_replay_guard =
  og_seen :: "(string \<times> session_role \<times> bytes) set"

definition relay_open_replay_guard_default :: relay_open_replay_guard where
  "relay_open_replay_guard_default = \<lparr>og_seen = {}\<rparr>"

text \<open>The checks of \<^verbatim>\<open>RelayOpenReplayGuard::validate\<close> before the nonce is recorded.\<close>

definition relay_open_checked ::
    "primitives \<Rightarrow> relay_open \<Rightarrow> relay_allocation \<Rightarrow> relay_authorization_snapshot \<Rightarrow> bool \<Rightarrow> u64
      \<Rightarrow> binding_error + unit" where
  "relay_open_checked pr p allocation authorization token_signature_valid now =
    (if \<not> token_signature_valid then Inl TokenSignatureInvalid
     else if rs_expires_at_epoch_millis authorization < now then Inl AuthorizationExpired
     else if rs_status authorization = Closed then Inl SessionClosed
     else if \<not> rs_allow_relay authorization then Inl RelayNotAllowed
     else if rs_device_key_revoked authorization then Inl DeviceKeyRevoked
     else if rs_device_public_key_version authorization
             \<noteq> rs_expected_device_public_key_version authorization
     then Inl DeviceKeyVersionMismatch
     else if now > ro_expires_at_epoch_millis p then Inl TokenExpired
     else if saturating_sub (ro_expires_at_epoch_millis p) (ro_issued_at_epoch_millis p)
             > RELAY_TOKEN_MAX_TTL_MILLIS
     then Inl TokenTtlExceeded
     else if ro_relay_node_id p \<notin> set (rs_allowed_relay_node_ids authorization)
     then Inl RelayNodeNotAllowed
     else if ro_session_id p \<noteq> rs_session_id authorization
          \<or> ro_device_id p \<noteq> rs_device_id authorization
          \<or> ro_role p \<noteq> rs_role authorization
     then Inl DeviceMismatch
     else if ro_permissions_digest p \<noteq> rs_permissions_digest authorization
     then Inl PermissionsMismatch
     else if ro_relay_token_epoch p \<noteq> rs_relay_token_epoch authorization
     then Inl RelayEpochMismatch
     else if \<not> relay_open_matches_allocation p allocation then Inl TokenMismatch
     else
       and_then (relay_token_binding_hash (pr_sha256 pr) allocation) (\<lambda>expected_binding.
       if expected_binding \<noteq> ro_token_binding_hash p
          \<or> expected_binding \<noteq> ra_token_binding_hash allocation
       then Inl TokenBindingMismatch
       else if length (ro_device_signature p) \<noteq> 64 then Inl DeviceSignatureInvalid
       else
         and_then (map_err (\<lambda>_. CanonicalEncoding) (relay_open_canonical_bytes p)) (\<lambda>canonical.
         map_err (\<lambda>_. DeviceSignatureInvalid)
           (verify_canonical_signature pr (rs_device_public_key authorization) canonical
             (ro_device_signature p)))))"

definition relay_open_key :: "relay_open \<Rightarrow> string \<times> session_role \<times> bytes" where
  "relay_open_key p = (ro_relay_token_id p, ro_role p, ro_relay_open_nonce p)"

definition relay_open_validate ::
    "primitives \<Rightarrow> relay_open_replay_guard \<Rightarrow> relay_open \<Rightarrow> relay_allocation
      \<Rightarrow> relay_authorization_snapshot \<Rightarrow> bool \<Rightarrow> u64
      \<Rightarrow> (binding_error + unit) \<times> relay_open_replay_guard" where
  "relay_open_validate pr g p allocation authorization token_signature_valid now =
    (case relay_open_checked pr p allocation authorization token_signature_valid now of
       Inl e \<Rightarrow> (Inl e, g)
     | Inr _ \<Rightarrow>
         if relay_open_key p \<in> og_seen g then (Inl NonceReplay, g)
         else (Inr (), g\<lparr>og_seen := insert (relay_open_key p) (og_seen g)\<rparr>))"

subsection \<open>Probes\<close>

type_synonym probe_key = "u128 \<times> u128 \<times> session_role \<times> bytes"

record probe_replay_guard =
  pg_seen :: "probe_key \<rightharpoonup> u64"

definition probe_replay_guard_default :: probe_replay_guard where
  "probe_replay_guard_default = \<lparr>pg_seen = Map.empty\<rparr>"

definition retain :: "('v \<Rightarrow> bool) \<Rightarrow> ('k \<rightharpoonup> 'v) \<Rightarrow> ('k \<rightharpoonup> 'v)" where
  "retain keep m = (\<lambda>k. case m k of None \<Rightarrow> None | Some v \<Rightarrow> if keep v then Some v else None)"

definition probe_checked ::
    "(bytes \<Rightarrow> bytes) \<Rightarrow> connection_candidate_dto \<Rightarrow> candidate_authorization \<Rightarrow> bytes \<Rightarrow> session_role
      \<Rightarrow> u64 \<Rightarrow> binding_error + unit" where
  "probe_checked sha candidate authorization returned_token probe_role now =
    and_then (validate_candidate_authorization sha candidate authorization now) (\<lambda>_.
    if probe_role = cd_role candidate then Inl ProbeRoleMismatch
    else if returned_token \<noteq> ca_candidate_token authorization then Inl TokenMismatch
    else Inr ())"

definition probe_validate ::
    "(bytes \<Rightarrow> bytes) \<Rightarrow> probe_replay_guard \<Rightarrow> connection_candidate_dto \<Rightarrow> candidate_authorization
      \<Rightarrow> bytes \<Rightarrow> session_role \<Rightarrow> bytes \<Rightarrow> u64 \<Rightarrow> (binding_error + unit) \<times> probe_replay_guard" where
  "probe_validate sha g candidate authorization returned_token probe_role probe_nonce now =
    (case probe_checked sha candidate authorization returned_token probe_role now of
       Inl e \<Rightarrow> (Inl e, g)
     | Inr _ \<Rightarrow>
         let seen = retain (\<lambda>expires_at. expires_at \<ge> now) (pg_seen g);
             key = (cd_session_id candidate, cd_candidate_id candidate, probe_role, probe_nonce);
             previous = seen key;
             g = g\<lparr>pg_seen := seen(key \<mapsto> ca_expires_at_epoch_millis authorization)\<rparr>
         in if previous \<noteq> None then (Inl ProbeReplay, g) else (Inr (), g))"

subsection \<open>Field lists and injectivity\<close>

definition candidate_id_fields :: "connection_candidate_dto \<Rightarrow> field_list" where
  "candidate_id_fields c =
    [(''domain'', str_bytes ''rctl-candidate-id-v1''),
     (''session_id'', to_be_bytes (cd_session_id c)),
     (''device_id'', str_bytes (cd_device_id c)),
     (''role'', str_bytes (role_as_str (cd_role c))),
     (''kind'', str_bytes (path_as_str (cd_kind c))),
     (''endpoint'', str_bytes (cd_endpoint c)),
     (''source'', str_bytes (source_as_str (cd_source c))),
     (''relay_node_id'', opt_bytes (cd_relay_node_id c))]"

definition candidate_pair_id_fields where
  "candidate_pair_id_fields session_id controller_candidate_id controlled_candidate_id path relay_node_id =
    [(''domain'', str_bytes ''rctl-candidate-pair-id-v1''),
     (''session_id'', to_be_bytes (session_id :: u128)),
     (''controller_candidate_id'', to_be_bytes (controller_candidate_id :: u128)),
     (''controlled_candidate_id'', to_be_bytes (controlled_candidate_id :: u128)),
     (''selected_transport_path'', str_bytes (path_as_str path)),
     (''relay_node_id'', opt_bytes relay_node_id)]"

definition candidate_token_binding_fields :: "connection_candidate_dto \<Rightarrow> u64 \<Rightarrow> field_list" where
  "candidate_token_binding_fields c expires_at =
    [(''domain'', str_bytes ''rctl-candidate-token-binding-v1''),
     (''session_id'', to_be_bytes (cd_session_id c)),
     (''device_id'', str_bytes (cd_device_id c)),
     (''role'', str_bytes (role_as_str (cd_role c))),
     (''candidate_id'', to_be_bytes (cd_candidate_id c)),
     (''kind'', str_bytes (path_as_str (cd_kind c))),
     (''endpoint'', str_bytes (cd_endpoint c)),
     (''source'', str_bytes (source_as_str (cd_source c))),
     (''observe_result_id'', opt_bytes (cd_observe_result_id c)),
     (''expires_at_epoch_millis'', to_be_bytes expires_at)]"

definition relay_binding_fields where
  "relay_binding_fields session_id device_id role controller_device_id controlled_device_id
      relay_node_id transport digest epoch issued_at expires_at relay_token_id =
    [(''session_id'', to_be_bytes (session_id :: u128)),
     (''device_id'', str_bytes device_id),
     (''role'', str_bytes (role_as_str role)),
     (''controller_device_id'', str_bytes controller_device_id),
     (''controlled_device_id'', str_bytes controlled_device_id),
     (''relay_node_id'', str_bytes relay_node_id),
     (''transport'', str_bytes (path_as_str transport)),
     (''permissions_digest'', digest),
     (''relay_token_epoch'', to_be_bytes (epoch :: u64)),
     (''issued_at_epoch_millis'', to_be_bytes (issued_at :: u64)),
     (''expires_at_epoch_millis'', to_be_bytes (expires_at :: u64)),
     (''relay_token_id'', str_bytes relay_token_id)]"

definition relay_token_binding_fields :: "relay_allocation \<Rightarrow> field_list" where
  "relay_token_binding_fields a =
    (''domain'', str_bytes ''rctl-relay-token-binding-v1'') #
    relay_binding_fields (ra_session_id a) (ra_device_id a) (ra_role a)
      (ra_controller_device_id a) (ra_controlled_device_id a) (ra_relay_node_id a)
      (ra_transport a) (ra_permissions_digest a) (ra_relay_token_epoch a)
      (ra_issued_at_epoch_millis a) (ra_expires_at_epoch_millis a) (ra_relay_token_id a)"

definition relay_open_fields :: "relay_open \<Rightarrow> field_list" where
  "relay_open_fields p =
    (''domain'', str_bytes ''rctl-relay-open-v1'') #
    relay_binding_fields (ro_session_id p) (ro_device_id p) (ro_role p)
      (ro_controller_device_id p) (ro_controlled_device_id p) (ro_relay_node_id p)
      (ro_transport p) (ro_permissions_digest p) (ro_relay_token_epoch p)
      (ro_issued_at_epoch_millis p) (ro_expires_at_epoch_millis p) (ro_relay_token_id p)
    @ [(''relay_open_nonce'', ro_relay_open_nonce p),
       (''session_relay_token'', ro_session_relay_token p),
       (''token_binding_hash'', ro_token_binding_hash p)]"

lemma candidate_id_canonical: "candidate_id_bytes c = canonical_encode (candidate_id_fields c)"
  by (simp add: candidate_id_bytes_def candidate_id_fields_def
      writer_new_chain [symmetric] push_eta del: try_chain.simps)

lemma candidate_pair_id_canonical:
  "candidate_pair_id_bytes a b c d e = canonical_encode (candidate_pair_id_fields a b c d e)"
  by (simp add: candidate_pair_id_bytes_def candidate_pair_id_fields_def
      writer_new_chain [symmetric] push_eta del: try_chain.simps)

lemma candidate_token_binding_canonical:
  "candidate_token_binding_bytes c e = canonical_encode (candidate_token_binding_fields c e)"
  by (simp add: candidate_token_binding_bytes_def candidate_token_binding_fields_def
      writer_new_chain [symmetric] push_eta del: try_chain.simps)

lemma relay_token_binding_canonical:
  "relay_token_binding_bytes a = canonical_encode (relay_token_binding_fields a)"
  by (simp add: relay_token_binding_bytes_def relay_token_binding_fields_def relay_binding_pushes_def
      relay_binding_fields_def writer_new_chain [symmetric] push_eta del: try_chain.simps)

lemma relay_open_canonical:
  "relay_open_canonical_bytes p = canonical_encode (relay_open_fields p)"
  by (simp add: relay_open_canonical_bytes_def relay_open_fields_def relay_binding_pushes_def
      relay_binding_fields_def writer_new_chain [symmetric] push_eta del: try_chain.simps)

lemma validate_candidate_shape_ok:
  "validate_candidate_shape c = Inr u \<longleftrightarrow>
    (cd_kind c, cd_source c) \<in> {(LanDirect, LocalInterface), (UdpP2p, UdpObserved),
       (QuicRelay, RelayAllocated), (Tls443Relay, RelayAllocated)}
    \<and> (is_relay (cd_kind c) \<longleftrightarrow> cd_relay_node_id c \<noteq> None)
    \<and> (cd_source c = UdpObserved \<longleftrightarrow> cd_observe_result_id c \<noteq> None)"
  by (auto simp: validate_candidate_shape_def)

text \<open>What a candidate is identified by; measurements and priority are left out.\<close>

definition candidate_identity where
  "candidate_identity c =
    (cd_session_id c, cd_device_id c, cd_role c, cd_kind c, cd_endpoint c, cd_source c,
     cd_relay_node_id c)"

lemma candidate_id_fields_inject:
  assumes "validate_candidate_shape c = Inr u" "validate_candidate_shape d = Inr v"
    and eq: "candidate_id_fields c = candidate_id_fields d"
  shows "candidate_identity c = candidate_identity d"
proof -
  have k: "cd_kind c = cd_kind d" and r: "opt_bytes (cd_relay_node_id c) = opt_bytes (cd_relay_node_id d)"
    using eq by (simp_all add: candidate_id_fields_def)
  then have "cd_relay_node_id c = cd_relay_node_id d"
    using assms(1,2) opt_bytes_inject [of "cd_relay_node_id c" "cd_relay_node_id d"]
    unfolding validate_candidate_shape_ok by metis
  with eq show ?thesis by (simp add: candidate_id_fields_def candidate_identity_def)
qed

lemma candidate_token_binding_inject:
  assumes "validate_candidate_shape c = Inr u" "validate_candidate_shape d = Inr v"
    and eq: "candidate_token_binding_fields c e = candidate_token_binding_fields d f"
  shows "cd_candidate_id c = cd_candidate_id d \<and> cd_session_id c = cd_session_id d
    \<and> cd_device_id c = cd_device_id d \<and> cd_role c = cd_role d \<and> cd_kind c = cd_kind d
    \<and> cd_endpoint c = cd_endpoint d \<and> cd_observe_result_id c = cd_observe_result_id d \<and> e = f"
proof -
  have "cd_source c = cd_source d"
    and r: "opt_bytes (cd_observe_result_id c) = opt_bytes (cd_observe_result_id d)"
    using eq by (simp_all add: candidate_token_binding_fields_def)
  then have "cd_observe_result_id c = cd_observe_result_id d"
    using assms(1,2) opt_bytes_inject [of "cd_observe_result_id c" "cd_observe_result_id d"]
    unfolding validate_candidate_shape_ok by metis
  with eq show ?thesis by (simp add: candidate_token_binding_fields_def)
qed

lemma candidate_pair_id_fields_inject:
  assumes "is_relay p \<longleftrightarrow> r \<noteq> None" "is_relay q \<longleftrightarrow> t \<noteq> None"
    and eq: "candidate_pair_id_fields a b c p r = candidate_pair_id_fields a' b' c' q t"
  shows "a = a' \<and> b = b' \<and> c = c' \<and> p = q \<and> r = t"
proof -
  have "p = q" "opt_bytes r = opt_bytes t"
    using eq by (simp_all add: candidate_pair_id_fields_def)
  then have "r = t" using assms(1,2) opt_bytes_inject [of r t] by metis
  with eq show ?thesis by (simp add: candidate_pair_id_fields_def)
qed

lemma relay_open_fields_inject:
  "relay_open_fields p = relay_open_fields q \<Longrightarrow>
    p\<lparr>ro_device_signature := sig\<rparr> = q\<lparr>ro_device_signature := sig\<rparr>"
  by (simp add: relay_open_fields_def relay_binding_fields_def)

subsection \<open>Relay opens\<close>

text \<open>Everything a relay has established about an open it lets in.\<close>

definition relay_open_authorized ::
    "primitives \<Rightarrow> relay_open \<Rightarrow> relay_allocation \<Rightarrow> relay_authorization_snapshot \<Rightarrow> u64 \<Rightarrow> bool" where
  "relay_open_authorized pr p a s now \<longleftrightarrow>
    rs_status s \<noteq> Closed \<and> rs_allow_relay s \<and> \<not> rs_device_key_revoked s
    \<and> rs_device_public_key_version s = rs_expected_device_public_key_version s
    \<and> now \<le> rs_expires_at_epoch_millis s \<and> now \<le> ro_expires_at_epoch_millis p
    \<and> saturating_sub (ro_expires_at_epoch_millis p) (ro_issued_at_epoch_millis p)
        \<le> RELAY_TOKEN_MAX_TTL_MILLIS
    \<and> ro_relay_node_id p \<in> set (rs_allowed_relay_node_ids s)
    \<and> ro_session_id p = rs_session_id s \<and> ro_device_id p = rs_device_id s \<and> ro_role p = rs_role s
    \<and> ro_permissions_digest p = rs_permissions_digest s
    \<and> ro_relay_token_epoch p = rs_relay_token_epoch s
    \<and> relay_open_matches_allocation p a \<and> is_relay (ro_transport p)
    \<and> (\<exists>t. canonical_encode (relay_token_binding_fields a) = Inr t
         \<and> pr_sha256 pr t = ro_token_binding_hash p \<and> ra_token_binding_hash a = ro_token_binding_hash p)
    \<and> length (ro_device_signature p) = 64
    \<and> (\<exists>c. canonical_encode (relay_open_fields p) = Inr c
         \<and> pr_verify pr (rs_device_public_key s) (pr_sha256 pr c) (ro_device_signature p) = Some True)"

lemma relay_open_checked_ok:
  "relay_open_checked pr p a s valid now = Inr u \<longleftrightarrow>
    valid \<and> relay_open_authorized pr p a s now"
proof
  assume "relay_open_checked pr p a s valid now = Inr u"
  then show "valid \<and> relay_open_authorized pr p a s now"
    by (auto simp: relay_open_checked_def relay_open_authorized_def relay_token_binding_hash_def
        result_simps relay_token_binding_canonical relay_open_canonical
        verify_canonical_signature_ok relay_open_matches_allocation_def not_less
        split: if_splits)
next
  assume "valid \<and> relay_open_authorized pr p a s now"
  then show "relay_open_checked pr p a s valid now = Inr u"
    by (auto simp: relay_open_checked_def relay_open_authorized_def relay_token_binding_hash_def
        result_simps relay_token_binding_canonical relay_open_canonical
        verify_canonical_signature_ok relay_open_matches_allocation_def not_less)
qed

type_synonym relay_open_op =
  "relay_open \<times> relay_allocation \<times> relay_authorization_snapshot \<times> bool \<times> u64"

definition relay_open_step ::
    "primitives \<Rightarrow> relay_open_replay_guard \<Rightarrow> relay_open_op
      \<Rightarrow> (binding_error + unit) \<times> relay_open_replay_guard" where
  "relay_open_step pr g x = (case x of (p, a, s, valid, now) \<Rightarrow> relay_open_validate pr g p a s valid now)"

definition opened_relay :: "relay_open_op \<Rightarrow> binding_error + unit
    \<Rightarrow> (string \<times> session_role \<times> bytes) option" where
  "opened_relay x r = (if is_ok r then Some (relay_open_key (fst x)) else None)"

lemma relay_open_validate_ok:
  "relay_open_validate pr g p a s valid now = (Inr u, g') \<longleftrightarrow>
    valid \<and> relay_open_authorized pr p a s now \<and> relay_open_key p \<notin> og_seen g
    \<and> g' = g\<lparr>og_seen := insert (relay_open_key p) (og_seen g)\<rparr>"
  using relay_open_checked_ok [of pr p a s valid now "()"]
  by (cases "relay_open_checked pr p a s valid now") (auto simp: relay_open_validate_def)

interpretation relay_opens: at_most_once "relay_open_step pr" "\<lambda>_. True" opened_relay og_seen for pr
  by unfold_locales
    (auto simp: relay_open_step_def relay_open_validate_def opened_relay_def
      split: sum.splits if_splits)

subsection \<open>Probes\<close>

text \<open>
  The guard forgets a key once its stored expiry has passed. On a clock that does not run
  backwards, and as long as all authorizations presented for a key carry one expiry
  \<open>e key\<close>, no key is accepted twice. The machine carries the clock; an operation moves it
  forward and presents a probe.
\<close>

record probe_op =
  po_elapsed :: u64
  po_candidate :: connection_candidate_dto
  po_authorization :: candidate_authorization
  po_token :: bytes
  po_role :: session_role
  po_nonce :: bytes

definition probe_op_key :: "probe_op \<Rightarrow> probe_key" where
  "probe_op_key x =
    (cd_session_id (po_candidate x), cd_candidate_id (po_candidate x), po_role x, po_nonce x)"

definition probe_step ::
    "(bytes \<Rightarrow> bytes) \<Rightarrow> probe_replay_guard \<times> u64 \<Rightarrow> probe_op
      \<Rightarrow> (binding_error + unit) \<times> probe_replay_guard \<times> u64" where
  "probe_step sha s x =
    (let now = saturating_add (snd s) (po_elapsed x);
         (r, g) = probe_validate sha (fst s) (po_candidate x) (po_authorization x)
           (po_token x) (po_role x) (po_nonce x) now
     in (r, g, now))"

text \<open>The same machine, ignoring an operation whose authorization has another expiry.\<close>

definition probe_step_at ::
    "(probe_key \<Rightarrow> u64) \<Rightarrow> (bytes \<Rightarrow> bytes) \<Rightarrow> probe_replay_guard \<times> u64 \<Rightarrow> probe_op
      \<Rightarrow> (binding_error + unit) \<times> probe_replay_guard \<times> u64" where
  "probe_step_at e sha s x =
    (if ca_expires_at_epoch_millis (po_authorization x) = e (probe_op_key x)
     then probe_step sha s x else (Inl TokenMismatch, s))"

definition probe_accepted :: "probe_op \<Rightarrow> binding_error + unit \<Rightarrow> probe_key option" where
  "probe_accepted x r = (if is_ok r then Some (probe_op_key x) else None)"

definition probe_spent :: "(probe_key \<Rightarrow> u64) \<Rightarrow> probe_replay_guard \<times> u64 \<Rightarrow> probe_key set" where
  "probe_spent e s = {k. e k < snd s \<or> pg_seen (fst s) k \<noteq> None}"

definition probe_inv :: "(probe_key \<Rightarrow> u64) \<Rightarrow> probe_replay_guard \<times> u64 \<Rightarrow> bool" where
  "probe_inv e s \<longleftrightarrow> (\<forall>k v. pg_seen (fst s) k = Some v \<longrightarrow> v = e k)"

lemma saturating_add_mono: "a \<le> saturating_add a (b :: 'a::len word)"
proof (cases "unat a + unat b < 2 ^ LENGTH('a)")
  case True
  then show ?thesis by (simp add: saturating_add_def word_le_nat_alt unat_word_ariths)
next
  case False
  then show ?thesis by (simp add: saturating_add_def)
qed

lemma retain_Some: "retain keep m k = Some v \<longleftrightarrow> m k = Some v \<and> keep v"
  by (auto simp: retain_def split: option.splits)

lemma probe_validate_cases:
  assumes "probe_validate sha g c a tok role nonce now = (r, g')"
  obtains (refused) e where "r = Inl e" "g' = g"
  | (checked) "probe_checked sha c a tok role now = Inr ()"
      "g' = g\<lparr>pg_seen := (retain (\<lambda>v. v \<ge> now) (pg_seen g))
          ((cd_session_id c, cd_candidate_id c, role, nonce) \<mapsto> ca_expires_at_epoch_millis a)\<rparr>"
      "is_ok r \<longleftrightarrow> retain (\<lambda>v. v \<ge> now) (pg_seen g)
          (cd_session_id c, cd_candidate_id c, role, nonce) = None"
proof (cases "probe_checked sha c a tok role now")
  case (Inl e)
  with assms show ?thesis by (intro refused [of e]) (simp_all add: probe_validate_def)
next
  case (Inr u)
  then have ok: "probe_checked sha c a tok role now = Inr ()" by simp
  have "r = (if retain (\<lambda>v. v \<ge> now) (pg_seen g)
      (cd_session_id c, cd_candidate_id c, role, nonce) = None then Inr () else Inl ProbeReplay)"
    and "g' = g\<lparr>pg_seen := (retain (\<lambda>v. v \<ge> now) (pg_seen g))
      ((cd_session_id c, cd_candidate_id c, role, nonce) \<mapsto> ca_expires_at_epoch_millis a)\<rparr>"
    using assms by (auto simp: probe_validate_def ok Let_def split: if_splits)
  with ok show ?thesis by (intro checked) simp_all
qed

lemma probe_checked_time:
  "probe_checked sha c a tok role now = Inr u \<Longrightarrow> now \<le> ca_expires_at_epoch_millis a"
  by (auto simp: probe_checked_def validate_candidate_authorization_def result_simps not_less
      split: if_splits)

lemma probe_step_at_facts:
  assumes inv: "probe_inv e s" and step: "probe_step_at e sha s x = (r, s')"
  shows "probe_inv e s'" and "probe_spent e s \<subseteq> probe_spent e s'"
    and "is_ok r \<Longrightarrow> probe_op_key x \<notin> probe_spent e s"
    and "is_ok r \<Longrightarrow> probe_op_key x \<in> probe_spent e s'"
proof -
  let ?now = "saturating_add (snd s) (po_elapsed x)" and ?k = "probe_op_key x"
  have "probe_inv e s' \<and> probe_spent e s \<subseteq> probe_spent e s'
    \<and> (is_ok r \<longrightarrow> ?k \<notin> probe_spent e s \<and> ?k \<in> probe_spent e s')"
  proof (cases "ca_expires_at_epoch_millis (po_authorization x) = e ?k")
    case False
    with step have "s' = s" "\<not> is_ok r" by (auto simp: probe_step_at_def)
    with inv show ?thesis by simp
  next
    case True
    let ?seen = "retain (\<lambda>v. v \<ge> ?now) (pg_seen (fst s))"
    from step True obtain g' where g': "probe_validate sha (fst s) (po_candidate x)
        (po_authorization x) (po_token x) (po_role x) (po_nonce x) ?now = (r, g')"
      and s': "s' = (g', ?now)"
      by (auto simp: probe_step_at_def probe_step_def Let_def split: prod.splits)
    have later: "snd s \<le> ?now" by (rule saturating_add_mono)
    from g' show ?thesis
    proof (cases rule: probe_validate_cases)
      case refused
      with inv later show ?thesis by (auto simp: s' probe_inv_def probe_spent_def)
    next
      case checked
      have in_time: "?now \<le> e ?k" using probe_checked_time [OF checked(1)] True by simp
      have g'_seen: "pg_seen g' = ?seen(?k \<mapsto> e ?k)"
        using checked(2) True by (simp add: probe_op_key_def)
      have "probe_inv e s'" using inv by (auto simp: s' g'_seen probe_inv_def retain_Some)
      moreover have "probe_spent e s \<subseteq> probe_spent e s'"
      proof
        fix k assume "k \<in> probe_spent e s"
        then consider "e k < snd s" | "pg_seen (fst s) k = Some (e k)"
          using inv unfolding probe_spent_def probe_inv_def by blast
        then show "k \<in> probe_spent e s'"
        proof cases
          case 1
          with later show ?thesis by (auto simp: s' probe_spent_def)
        next
          case 2
          then show ?thesis by (auto simp: s' probe_spent_def g'_seen retain_Some not_less)
        qed
      qed
      moreover have "?k \<notin> probe_spent e s" if "is_ok r"
      proof -
        from that have "?seen ?k = None" using checked(3) by (simp add: probe_op_key_def)
        moreover have "pg_seen (fst s) ?k = Some v \<Longrightarrow> v = e ?k" for v
          using inv unfolding probe_inv_def by blast
        ultimately have "pg_seen (fst s) ?k = None"
          using in_time by (cases "pg_seen (fst s) ?k") (simp_all add: retain_def)
        with in_time later show ?thesis by (auto simp: probe_spent_def)
      qed
      moreover have "?k \<in> probe_spent e s'" by (simp add: s' probe_spent_def g'_seen)
      ultimately show ?thesis by blast
    qed
  qed
  then show "probe_inv e s'" "probe_spent e s \<subseteq> probe_spent e s'"
    "is_ok r \<Longrightarrow> ?k \<notin> probe_spent e s" "is_ok r \<Longrightarrow> ?k \<in> probe_spent e s'" by blast+
qed

interpretation probes: at_most_once "probe_step_at e sha" "probe_inv e" probe_accepted
  "probe_spent e" for e sha
proof
  fix s :: "probe_replay_guard \<times> u64" and x :: probe_op and k :: probe_key
  assume inv: "probe_inv e s"
  note facts = probe_step_at_facts [OF inv prod.collapse [symmetric], of sha x]
  show "probe_inv e (snd (probe_step_at e sha s x))"
    and "probe_spent e s \<subseteq> probe_spent e (snd (probe_step_at e sha s x))"
    by (rule facts)+
  assume "probe_accepted x (fst (probe_step_at e sha s x)) = Some k"
  then have "is_ok (fst (probe_step_at e sha s x))" "k = probe_op_key x"
    by (auto simp: probe_accepted_def split: if_splits)
  with facts(3,4) show "k \<notin> probe_spent e s" "k \<in> probe_spent e (snd (probe_step_at e sha s x))"
    by simp_all
qed

text \<open>Where all expiries agree with \<open>e\<close>, the two machines are the same.\<close>

lemma probe_run_at:
  "\<forall>x \<in> set xs. ca_expires_at_epoch_millis (po_authorization x) = e (probe_op_key x) \<Longrightarrow>
    run_ops (probe_step_at e sha) s xs = run_ops (probe_step sha) s xs"
  by (induction xs arbitrary: s)
    (simp_all add: run_ops_Cons_simp probe_step_at_def del: run_ops.simps(2))

end
