(* ===== verification/Rc_Racing.thy ===== *)
theory Rc_Racing
  imports Rc_Binding "HOL-Library.Product_Lexorder"
begin

section \<open>Path racing\<close>

text \<open>
  \<^verbatim>\<open>crates/remote-transport/src/lib.rs\<close> (transport kinds and candidates) and
  \<^verbatim>\<open>racing.rs\<close> (the race between paths). \<^verbatim>\<open>std::cmp::Ordering\<close> is the datatype \<open>ordering\<close>, and
  \<^verbatim>\<open>Iterator::min_by\<close> is the fold \<open>min_by\<close>, which keeps the earlier of two elements unless
  the comparison is \<open>Greater\<close>.
\<close>

datatype transport_kind = KLanDirect | KUdpP2p | KQuicRelay | KTls443Relay

fun priority :: "transport_kind \<Rightarrow> u8" where
  "priority KLanDirect = 0"
| "priority KUdpP2p = 1"
| "priority KQuicRelay = 2"
| "priority KTls443Relay = 3"

fun path_of_kind :: "transport_kind \<Rightarrow> transport_path" where
  "path_of_kind KLanDirect = LanDirect"
| "path_of_kind KUdpP2p = UdpP2p"
| "path_of_kind KQuicRelay = QuicRelay"
| "path_of_kind KTls443Relay = Tls443Relay"

text \<open>Kinds are ordered by their priority.\<close>

lemma priority_inject: "priority a = priority b \<longleftrightarrow> a = b"
  by (cases a; cases b) simp_all

instantiation transport_kind :: linorder
begin

definition less_eq_transport_kind :: "transport_kind \<Rightarrow> transport_kind \<Rightarrow> bool" where
  "a \<le> b \<longleftrightarrow> priority a \<le> priority b"

definition less_transport_kind :: "transport_kind \<Rightarrow> transport_kind \<Rightarrow> bool" where
  "a < b \<longleftrightarrow> priority a < priority b"

instance
  by standard
    (auto simp: less_eq_transport_kind_def less_transport_kind_def less_le priority_inject)

end

record connection_candidate =
  cc_kind :: transport_kind
  cc_endpoint :: string
  cc_rtt_ms :: "u32 option"

record link_metrics =
  lm_rtt_ms :: u32
  lm_loss_ppm :: u32
  lm_jitter_ms :: u32

datatype transport_error =
    NotConnected
  | Backpressure
  | TransportClosed
  | TransportInvalidState
  | InvalidBinding binding_error
  | Io string

datatype ordering = Less | Equal | Greater

definition cmp :: "'a::linorder \<Rightarrow> 'a \<Rightarrow> ordering" where
  "cmp a b = (if a < b then Less else if a = b then Equal else Greater)"

fun then_with :: "ordering \<Rightarrow> ordering \<Rightarrow> ordering" where
  "then_with Equal r = r"
| "then_with r _ = r"

fun min_by :: "('a \<Rightarrow> 'a \<Rightarrow> ordering) \<Rightarrow> 'a list \<Rightarrow> 'a option" where
  "min_by compare [] = None"
| "min_by compare (x # xs) =
    Some (foldl (\<lambda>a b. if compare a b = Greater then b else a) x xs)"

definition choose_best_candidate :: "connection_candidate list \<Rightarrow> connection_candidate option" where
  "choose_best_candidate candidates =
    min_by (\<lambda>a b.
      then_with (cmp (priority (cc_kind a)) (priority (cc_kind b)))
        (cmp (case cc_rtt_ms a of Some r \<Rightarrow> r | None \<Rightarrow> (- 1) div 2)
             (case cc_rtt_ms b of Some r \<Rightarrow> r | None \<Rightarrow> (- 1) div 2))) candidates"

subsection \<open>The race\<close>

definition DEFAULT_TLS_443_START_DELAY_MILLIS :: u64 where
  "DEFAULT_TLS_443_START_DELAY_MILLIS = 500"

definition DEFAULT_RTT_CLOSE_THRESHOLD_MILLIS :: u32 where
  "DEFAULT_RTT_CLOSE_THRESHOLD_MILLIS = 10"

record race_config =
  rf_tls_443_start_delay_millis :: u64
  rf_rtt_close_threshold_millis :: u32

definition race_config_default :: race_config where
  "race_config_default =
    \<lparr>rf_tls_443_start_delay_millis = DEFAULT_TLS_443_START_DELAY_MILLIS,
     rf_rtt_close_threshold_millis = DEFAULT_RTT_CLOSE_THRESHOLD_MILLIS\<rparr>"

datatype race_attempt_state = Pending | Started | Succeeded link_metrics | Failed

record race_attempt =
  at_attempt_id :: nat
  at_candidate :: connection_candidate

record race_winner =
  wn_attempt_id :: nat
  wn_candidate :: connection_candidate
  wn_metrics :: link_metrics

record attempt_entry =
  ae_candidate :: connection_candidate
  ae_state :: race_attempt_state

record path_race =
  rf_config :: race_config
  rf_started_at_epoch_millis :: u64
  rf_attempts :: "attempt_entry list"

definition race_new :: "connection_candidate list \<Rightarrow> u64 \<Rightarrow> race_config \<Rightarrow> path_race" where
  "race_new candidates started_at config =
    \<lparr>rf_config = config, rf_started_at_epoch_millis = started_at,
     rf_attempts = map (\<lambda>c. \<lparr>ae_candidate = c, ae_state = Pending\<rparr>) candidates\<rparr>"

definition attempt_due :: "bool \<Rightarrow> attempt_entry \<Rightarrow> bool" where
  "attempt_due tls_due entry \<longleftrightarrow>
    \<not> (ae_state entry \<noteq> Pending \<or> (cc_kind (ae_candidate entry) = KTls443Relay \<and> \<not> tls_due))"

definition take_due_attempts :: "path_race \<Rightarrow> u64 \<Rightarrow> race_attempt list \<times> path_race" where
  "take_due_attempts r now =
    (let tls_due = saturating_sub now (rf_started_at_epoch_millis r)
           \<ge> rf_tls_443_start_delay_millis (rf_config r)
     in (List.map_filter (\<lambda>(attempt_id, entry).
           if attempt_due tls_due entry
           then Some \<lparr>at_attempt_id = attempt_id, at_candidate = ae_candidate entry\<rparr>
           else None) (enumerate 0 (rf_attempts r)),
         r\<lparr>rf_attempts := map (\<lambda>entry.
           if attempt_due tls_due entry then entry\<lparr>ae_state := Started\<rparr> else entry)
           (rf_attempts r)\<rparr>))"

definition record_outcome ::
    "path_race \<Rightarrow> nat \<Rightarrow> race_attempt_state \<Rightarrow> (transport_error + unit) \<times> path_race" where
  "record_outcome r attempt_id outcome =
    (if attempt_id \<ge> length (rf_attempts r) then (Inl TransportInvalidState, r)
     else
       let entry = rf_attempts r ! attempt_id in
       if ae_state entry \<noteq> Started then (Inl TransportInvalidState, r)
       else (Inr (), r\<lparr>rf_attempts := (rf_attempts r)[attempt_id := entry\<lparr>ae_state := outcome\<rparr>]\<rparr>))"

definition record_success ::
    "path_race \<Rightarrow> nat \<Rightarrow> link_metrics \<Rightarrow> (transport_error + unit) \<times> path_race" where
  "record_success r attempt_id metrics = record_outcome r attempt_id (Succeeded metrics)"

definition record_failure :: "path_race \<Rightarrow> nat \<Rightarrow> (transport_error + unit) \<times> path_race" where
  "record_failure r attempt_id = record_outcome r attempt_id Failed"

definition attempt_state :: "path_race \<Rightarrow> nat \<Rightarrow> race_attempt_state option" where
  "attempt_state r attempt_id =
    (if attempt_id < length (rf_attempts r) then Some (ae_state (rf_attempts r ! attempt_id)) else None)"

definition compare_same_path_metrics ::
    "link_metrics \<Rightarrow> link_metrics \<Rightarrow> race_config \<Rightarrow> ordering" where
  "compare_same_path_metrics left right config =
    (if abs_diff (lm_rtt_ms left) (lm_rtt_ms right) \<le> rf_rtt_close_threshold_millis config
     then then_with (then_with (cmp (lm_loss_ppm left) (lm_loss_ppm right))
            (cmp (lm_jitter_ms left) (lm_jitter_ms right)))
            (cmp (lm_rtt_ms left) (lm_rtt_ms right))
     else cmp (lm_rtt_ms left) (lm_rtt_ms right))"

definition compare_winners :: "race_config \<Rightarrow> race_winner \<Rightarrow> race_winner \<Rightarrow> ordering" where
  "compare_winners config left right =
    then_with (then_with
      (cmp (priority (cc_kind (wn_candidate left))) (priority (cc_kind (wn_candidate right))))
      (compare_same_path_metrics (wn_metrics left) (wn_metrics right) config))
      (cmp (wn_attempt_id left) (wn_attempt_id right))"

definition race_successes :: "path_race \<Rightarrow> race_winner list" where
  "race_successes r =
    List.map_filter (\<lambda>(attempt_id, entry).
      case ae_state entry of
        Succeeded metrics \<Rightarrow>
          Some \<lparr>wn_attempt_id = attempt_id, wn_candidate = ae_candidate entry, wn_metrics = metrics\<rparr>
      | _ \<Rightarrow> None) (enumerate 0 (rf_attempts r))"

definition best_success :: "path_race \<Rightarrow> race_winner option" where
  "best_success r = min_by (compare_winners (rf_config r)) (race_successes r)"

definition race_is_complete :: "path_race \<Rightarrow> bool" where
  "race_is_complete r \<longleftrightarrow>
    list_all (\<lambda>entry. case ae_state entry of Succeeded _ \<Rightarrow> True | Failed \<Rightarrow> True | _ \<Rightarrow> False)
      (rf_attempts r)"

subsection \<open>What \<open>min_by\<close> selects\<close>

text \<open>
  The comparison of winners is not transitive, so \<open>min_by\<close> need not return a least element
  for it. It does return a least element for every rank \<open>f\<close> that the comparison respects on
  the elements at hand.
\<close>

locale ranked_selection =
  fixes compare :: "'a \<Rightarrow> 'a \<Rightarrow> ordering"
    and f :: "'a \<Rightarrow> 'b::linorder"
    and A :: "'a set"
  assumes greater_rank: "a \<in> A \<Longrightarrow> b \<in> A \<Longrightarrow> compare a b = Greater \<Longrightarrow> f b \<le> f a"
    and not_greater_rank: "a \<in> A \<Longrightarrow> b \<in> A \<Longrightarrow> compare a b \<noteq> Greater \<Longrightarrow> f a \<le> f b"
begin

lemma foldl_least:
  assumes "x \<in> A" "set xs \<subseteq> A"
  shows "foldl (\<lambda>a b. if compare a b = Greater then b else a) x xs \<in> insert x (set xs)
    \<and> (\<forall>y \<in> insert x (set xs).
         f (foldl (\<lambda>a b. if compare a b = Greater then b else a) x xs) \<le> f y)"
  using assms
proof (induction xs arbitrary: x)
  case Nil
  then show ?case by simp
next
  case (Cons y xs)
  let ?z = "if compare x y = Greater then y else x"
  have "?z \<in> A" "f ?z \<le> f x" "f ?z \<le> f y"
    using Cons.prems greater_rank [of x y] not_greater_rank [of x y] by auto
  moreover from this Cons.prems Cons.IH [of ?z]
  have "foldl (\<lambda>a b. if compare a b = Greater then b else a) ?z xs \<in> insert ?z (set xs)"
    "\<forall>w \<in> insert ?z (set xs). f (foldl (\<lambda>a b. if compare a b = Greater then b else a) ?z xs) \<le> f w"
    by auto
  ultimately show ?case by (auto split: if_splits)
qed

lemma min_by_least:
  assumes "set xs \<subseteq> A" "min_by compare xs = Some m"
  shows "m \<in> set xs" and "y \<in> set xs \<Longrightarrow> f m \<le> f y"
  using assms foldl_least [of "hd xs" "tl xs"] by (cases xs; force)+

end

lemma min_by_None: "min_by compare xs = None \<longleftrightarrow> xs = []"
  by (cases xs) simp_all

lemma cmp_Greater: "cmp a b = Greater \<longleftrightarrow> b < a"
  by (auto simp: cmp_def)

lemma then_with_Greater: "then_with r s = Greater \<longleftrightarrow> r = Greater \<or> (r = Equal \<and> s = Greater)"
  by (cases r) simp_all

lemma then_with_Equal: "then_with r s = Equal \<longleftrightarrow> r = Equal \<and> s = Equal"
  by (cases r) simp_all

lemma cmp_Equal: "cmp a b = Equal \<longleftrightarrow> a = b"
  by (auto simp: cmp_def)

lemmas ordering_simps = cmp_Greater cmp_Equal then_with_Greater then_with_Equal

interpretation by_priority: ranked_selection "compare_winners config"
  "\<lambda>w. cc_kind (wn_candidate w)" UNIV for config
  by unfold_locales
    (auto simp: compare_winners_def ordering_simps less_eq_transport_kind_def not_less)

definition metrics_rank :: "race_winner \<Rightarrow> transport_kind \<times> u32 \<times> u32 \<times> u32 \<times> nat" where
  "metrics_rank w =
    (cc_kind (wn_candidate w), lm_loss_ppm (wn_metrics w), lm_jitter_ms (wn_metrics w),
     lm_rtt_ms (wn_metrics w), wn_attempt_id w)"

text \<open>Winners whose round trip times lie in one interval as long as the threshold.\<close>

definition close_rtts :: "race_config \<Rightarrow> u32 \<Rightarrow> race_winner set" where
  "close_rtts config low =
    {w. low \<le> lm_rtt_ms (wn_metrics w)
      \<and> unat (lm_rtt_ms (wn_metrics w)) \<le> unat low + unat (rf_rtt_close_threshold_millis config)}"

lemma close_rtts_diff:
  assumes "a \<in> close_rtts config low" "b \<in> close_rtts config low"
  shows "abs_diff (lm_rtt_ms (wn_metrics a)) (lm_rtt_ms (wn_metrics b))
    \<le> rf_rtt_close_threshold_millis config"
  using assms
  by (auto simp: close_rtts_def word_le_nat_alt unat_abs_diff)

interpretation by_metrics: ranked_selection "compare_winners config" metrics_rank
  "close_rtts config low" for config low
proof
  fix a b assume "a \<in> close_rtts config low" "b \<in> close_rtts config low"
  then have close: "abs_diff (lm_rtt_ms (wn_metrics a)) (lm_rtt_ms (wn_metrics b))
    \<le> rf_rtt_close_threshold_millis config" by (rule close_rtts_diff)
  show "metrics_rank b \<le> metrics_rank a" if "compare_winners config a b = Greater"
    using that close
    by (auto simp: compare_winners_def compare_same_path_metrics_def metrics_rank_def ordering_simps
        less_transport_kind_def priority_inject)
  show "metrics_rank a \<le> metrics_rank b" if "compare_winners config a b \<noteq> Greater"
    using that close
    by (auto simp: compare_winners_def compare_same_path_metrics_def metrics_rank_def ordering_simps
        less_transport_kind_def priority_inject not_less le_less)
qed

interpretation candidate_choice: ranked_selection
  "\<lambda>a b. then_with (cmp (priority (cc_kind a)) (priority (cc_kind b)))
    (cmp (case cc_rtt_ms a of Some r \<Rightarrow> r | None \<Rightarrow> (- 1) div 2)
         (case cc_rtt_ms b of Some r \<Rightarrow> r | None \<Rightarrow> (- 1) div 2))"
  "\<lambda>c. (cc_kind c, case cc_rtt_ms c of Some r \<Rightarrow> r | None \<Rightarrow> (- 1) div 2)" UNIV
  by unfold_locales
    (auto simp: ordering_simps less_transport_kind_def priority_inject not_less le_less)

subsection \<open>Successes and winners\<close>

lemma set_map_filter: "set (List.map_filter g xs) = {y. \<exists>x \<in> set xs. g x = Some y}"
  by (force simp: List.map_filter_def image_iff)

lemma set_map_filter_enumerate:
  "set (List.map_filter g (enumerate 0 xs)) = {y. \<exists>i < length xs. g (i, xs ! i) = Some y}"
  by (force simp: set_map_filter in_set_enumerate_eq)

lemma succeeded_Some:
  "(case st of Succeeded m \<Rightarrow> Some (g m) | _ \<Rightarrow> None) = Some y \<longleftrightarrow>
    (\<exists>m. st = Succeeded m \<and> y = g m)"
  by (auto split: race_attempt_state.splits)

lemma race_successes_iff:
  "w \<in> set (race_successes r) \<longleftrightarrow>
    wn_attempt_id w < length (rf_attempts r)
    \<and> ae_candidate (rf_attempts r ! wn_attempt_id w) = wn_candidate w
    \<and> ae_state (rf_attempts r ! wn_attempt_id w) = Succeeded (wn_metrics w)"
proof -
  have "w \<in> set (race_successes r) \<longleftrightarrow>
    (\<exists>i < length (rf_attempts r). \<exists>m. ae_state (rf_attempts r ! i) = Succeeded m
      \<and> w = \<lparr>wn_attempt_id = i, wn_candidate = ae_candidate (rf_attempts r ! i), wn_metrics = m\<rparr>)"
    unfolding race_successes_def set_map_filter_enumerate by (simp add: succeeded_Some)
  then show ?thesis by (cases w) auto
qed

lemma best_success_None:
  "best_success r = None \<longleftrightarrow> (\<forall>i m. attempt_state r i \<noteq> Some (Succeeded m))"
proof -
  have "best_success r = None \<longleftrightarrow> set (race_successes r) = {}"
    by (simp add: best_success_def min_by_None)
  also have "\<dots> \<longleftrightarrow> (\<forall>i m. attempt_state r i \<noteq> Some (Succeeded m))"
  proof
    assume empty: "set (race_successes r) = {}"
    show "\<forall>i m. attempt_state r i \<noteq> Some (Succeeded m)"
    proof (intro allI notI)
      fix i m assume "attempt_state r i = Some (Succeeded m)"
      then have "\<lparr>wn_attempt_id = i, wn_candidate = ae_candidate (rf_attempts r ! i), wn_metrics = m\<rparr>
          \<in> set (race_successes r)"
        unfolding race_successes_iff by (simp add: attempt_state_def split: if_splits)
      with empty show False by simp
    qed
  next
    assume "\<forall>i m. attempt_state r i \<noteq> Some (Succeeded m)"
    then have "w \<notin> set (race_successes r)" for w
      unfolding race_successes_iff attempt_state_def by metis
    then show "set (race_successes r) = {}" by (metis equals0I)
  qed
  finally show ?thesis .
qed

subsection \<open>Attempts are started once, and TLS attempts late\<close>

definition pending_ids :: "path_race \<Rightarrow> nat set" where
  "pending_ids r = {i. attempt_state r i = Some Pending}"

datatype race_op = TakeDue u64 | RecordSuccess nat link_metrics | RecordFailure nat

datatype race_out = Attempts "race_attempt list" | Recorded "transport_error + unit"

fun race_step :: "path_race \<Rightarrow> race_op \<Rightarrow> race_out \<times> path_race" where
  "race_step r (TakeDue now) = apfst Attempts (take_due_attempts r now)"
| "race_step r (RecordSuccess i m) = apfst Recorded (record_success r i m)"
| "race_step r (RecordFailure i) = apfst Recorded (record_failure r i)"

fun started_ids :: "race_op \<times> race_out \<Rightarrow> nat list" where
  "started_ids (x, Attempts as) = map at_attempt_id as"
| "started_ids (x, Recorded e) = []"

lemma take_due_ids:
  "map at_attempt_id (fst (take_due_attempts r now)) =
    filter (\<lambda>i. attempt_due (saturating_sub now (rf_started_at_epoch_millis r)
        \<ge> rf_tls_443_start_delay_millis (rf_config r)) (rf_attempts r ! i))
      [0..<length (rf_attempts r)]"
proof -
  let ?es = "rf_attempts r"
  have enum: "enumerate 0 ?es = map (\<lambda>i. (i, ?es ! i)) [0..<length ?es]"
    using enumerate_map_upt [of 0 "(!) ?es" "length ?es"] by (simp add: map_nth)
  have "map at_attempt_id (List.map_filter (\<lambda>(i, e). if P e
          then Some \<lparr>at_attempt_id = i, at_candidate = ae_candidate e\<rparr> else None)
          (map (\<lambda>i. (i, ?es ! i)) ns)) = filter (\<lambda>i. P (?es ! i)) ns" for P ns
    by (induction ns) (simp_all add: List.map_filter_def)
  then show ?thesis by (simp add: take_due_attempts_def Let_def enum)
qed

lemma take_due_sound:
  assumes "a \<in> set (fst (take_due_attempts r now))"
  shows "at_attempt_id a \<in> pending_ids r"
    and "at_candidate a = ae_candidate (rf_attempts r ! at_attempt_id a)"
    and "cc_kind (at_candidate a) = KTls443Relay \<Longrightarrow>
      rf_tls_443_start_delay_millis (rf_config r) \<le> saturating_sub now (rf_started_at_epoch_millis r)"
  using assms
  by (auto simp: take_due_attempts_def Let_def set_map_filter_enumerate attempt_due_def
      pending_ids_def attempt_state_def split: if_splits)

lemma take_due_complete:
  assumes "i \<in> pending_ids r" "cc_kind (ae_candidate (rf_attempts r ! i)) \<noteq> KTls443Relay"
  shows "\<lparr>at_attempt_id = i, at_candidate = ae_candidate (rf_attempts r ! i)\<rparr>
    \<in> set (fst (take_due_attempts r now))"
  using assms
  by (auto simp: take_due_attempts_def Let_def set_map_filter_enumerate attempt_due_def
      pending_ids_def attempt_state_def split: if_splits)

lemma race_step_pending:
  "pending_ids (snd (race_step r x)) \<subseteq> pending_ids r - set (started_ids (x, fst (race_step r x)))
    \<and> set (started_ids (x, fst (race_step r x))) \<subseteq> pending_ids r
    \<and> distinct (started_ids (x, fst (race_step r x)))"
proof (cases x)
  case (TakeDue now)
  have ids: "started_ids (x, fst (race_step r x)) = map at_attempt_id (fst (take_due_attempts r now))"
    by (simp add: TakeDue)
  have "pending_ids (snd (take_due_attempts r now)) \<subseteq> pending_ids r
      - set (map at_attempt_id (fst (take_due_attempts r now)))"
    unfolding take_due_ids
    by (auto simp: pending_ids_def attempt_state_def take_due_attempts_def Let_def split: if_splits)
  moreover have "distinct (map at_attempt_id (fst (take_due_attempts r now)))"
    unfolding take_due_ids by simp
  ultimately show ?thesis unfolding ids using take_due_sound(1) TakeDue by auto
next
  case (RecordSuccess i m)
  then show ?thesis
    by (auto simp: record_success_def record_outcome_def Let_def pending_ids_def attempt_state_def
        nth_list_update split: if_splits)
next
  case (RecordFailure i)
  then show ?thesis
    by (auto simp: record_failure_def record_outcome_def Let_def pending_ids_def attempt_state_def
        nth_list_update split: if_splits)
qed

lemma race_run_started:
  "distinct (concat (map started_ids (fst (run_ops race_step r xs))))
    \<and> set (concat (map started_ids (fst (run_ops race_step r xs)))) \<subseteq> pending_ids r"
proof (induction xs arbitrary: r)
  case Nil
  then show ?case by simp
next
  case (Cons x xs)
  let ?r' = "snd (race_step r x)"
  let ?first = "started_ids (x, fst (race_step r x))"
  let ?later = "concat (map started_ids (fst (run_ops race_step ?r' xs)))"
  have "distinct ?later" "set ?later \<subseteq> pending_ids ?r'" using Cons.IH [of ?r'] by blast+
  moreover note race_step_pending [of r x]
  ultimately have "distinct (?first @ ?later)" "set (?first @ ?later) \<subseteq> pending_ids r"
    by auto
  then show ?case by (simp add: run_ops_Cons_simp del: run_ops.simps)
qed

end
