(* ===== verification/Rc_Net.thy ===== *)
theory Rc_Net
  imports Rc_Prelude
begin

section \<open>Socket addresses\<close>

text \<open>
  What the sources use of \<^verbatim>\<open>std::net\<close>: \<^verbatim>\<open>IpAddr\<close> and \<^verbatim>\<open>SocketAddr\<close>, their parser and their
  \<^verbatim>\<open>Display\<close>. IPv4 addresses are 32-bit and IPv6 addresses 128-bit words. A parser takes a
  string and returns a value and the unread rest; the standard library's parser restores
  its position on failure, which is the option type here.
\<close>

datatype ip_addr = IpV4 u32 | IpV6 u128

text \<open>\<^verbatim>\<open>SocketAddrV6\<close> carries a scope identifier (the parser always gives flow label 0).\<close>

datatype socket_addr = SocketV4 u32 u16 | SocketV6 u128 u16 u32

fun socket_ip :: "socket_addr \<Rightarrow> ip_addr" where
  "socket_ip (SocketV4 a p) = IpV4 a"
| "socket_ip (SocketV6 a p z) = IpV6 a"

fun socket_port :: "socket_addr \<Rightarrow> u16" where
  "socket_port (SocketV4 a p) = p"
| "socket_port (SocketV6 a p z) = p"

definition octets_v4 :: "u32 \<Rightarrow> bytes" where
  "octets_v4 a = to_be_bytes a"

definition segments_v6 :: "u128 \<Rightarrow> u16 list" where
  "segments_v6 a = map (\<lambda>i. ucast (drop_bit (112 - 16 * i) a)) [0..<8]"

subsection \<open>Printing\<close>

definition digit_char :: "nat \<Rightarrow> char" where
  "digit_char d = char_of (if d < 10 then 48 + d else 87 + d)"

fun show_radix :: "nat \<Rightarrow> nat \<Rightarrow> string" where
  "show_radix b n =
    (if b < 2 \<or> n < b then [digit_char n] else show_radix b (n div b) @ [digit_char (n mod b)])"

declare show_radix.simps [simp del]

fun join :: "string \<Rightarrow> string list \<Rightarrow> string" where
  "join sep [] = []"
| "join sep [x] = x"
| "join sep (x # xs) = x @ sep @ join sep xs"

definition show_v4 :: "u32 \<Rightarrow> string" where
  "show_v4 a = join ''.'' (map (\<lambda>o'. show_radix 10 (unat o')) (octets_v4 a))"

text \<open>The first longest run of zero segments, as (start, length).\<close>

definition zero_span :: "u16 list \<Rightarrow> nat \<times> nat" where
  "zero_span segments =
    fst (fold (\<lambda>(i, segment) ((ls, ll), (cs, cl)).
        if segment = 0 then
          let cs = (if cl = 0 then i else cs); cl = cl + 1
          in if cl > ll then ((cs, cl), (cs, cl)) else ((ls, ll), (cs, cl))
        else ((ls, ll), (0, 0)))
      (enumerate 0 segments) ((0, 0), (0, 0)))"

definition show_segments :: "u16 list \<Rightarrow> string" where
  "show_segments segments = join '':'' (map (\<lambda>s. show_radix 16 (unat s)) segments)"

definition show_v6 :: "u128 \<Rightarrow> string" where
  "show_v6 a =
    (if drop_bit 32 a = 0xFFFF then ''::ffff:'' @ show_v4 (ucast a)
     else
       let segments = segments_v6 a; (start, len) = zero_span segments
       in if len > 1
          then show_segments (take start segments) @ ''::''
               @ show_segments (drop (start + len) segments)
          else show_segments segments)"

fun show_socket :: "socket_addr \<Rightarrow> string" where
  "show_socket (SocketV4 a p) = show_v4 a @ '':'' @ show_radix 10 (unat p)"
| "show_socket (SocketV6 a p z) =
    ''['' @ show_v6 a @ (if z = 0 then '''' else ''%'' @ show_radix 10 (unat z))
    @ '']:'' @ show_radix 10 (unat p)"

subsection \<open>Parsing\<close>

type_synonym 'a parser = "string \<Rightarrow> ('a \<times> string) option"

text \<open>\<^verbatim>\<open>char::to_digit(radix)\<close>\<close>

definition to_digit :: "nat \<Rightarrow> char \<Rightarrow> nat option" where
  "to_digit radix c =
    (let n = of_char c :: nat;
         d = (if 48 \<le> n \<and> n \<le> 57 then n - 48
              else if 97 \<le> n \<and> n \<le> 122 then n - 87
              else if 65 \<le> n \<and> n \<le> 90 then n - 55
              else radix)
     in if d < radix then Some d else None)"

fun read_digits :: "nat \<Rightarrow> string \<Rightarrow> nat list \<times> string" where
  "read_digits radix [] = ([], [])"
| "read_digits radix (c # cs) =
    (case to_digit radix c of
       None \<Rightarrow> ([], c # cs)
     | Some d \<Rightarrow> let (ds, rest) = read_digits radix cs in (d # ds, rest))"

definition digits_value :: "nat \<Rightarrow> nat list \<Rightarrow> nat" where
  "digits_value radix ds = foldl (\<lambda>n d. n * radix + d) 0 ds"

text \<open>
  \<open>bound\<close> is one more than the largest value of the target type: a number that does not
  fit is refused, by \<^verbatim>\<open>try_into\<close> with a digit limit and by checked arithmetic without.
\<close>

definition read_number :: "nat \<Rightarrow> nat option \<Rightarrow> bool \<Rightarrow> nat \<Rightarrow> nat parser" where
  "read_number radix max_digits allow_zero_prefix bound s =
    (let (ds, rest) = read_digits radix s; value = digits_value radix ds in
     if (case max_digits of None \<Rightarrow> False | Some m \<Rightarrow> length ds > m) then None
     else if ds = [] then None
     else if \<not> allow_zero_prefix \<and> hd ds = 0 \<and> length ds > 1 then None
     else if value \<ge> bound then None
     else Some (value, rest))"

fun read_given_char :: "char \<Rightarrow> unit parser" where
  "read_given_char c [] = None"
| "read_given_char c (d # s) = (if c = d then Some ((), s) else None)"

definition read_separator :: "char \<Rightarrow> nat \<Rightarrow> 'a parser \<Rightarrow> 'a parser" where
  "read_separator sep index inner s =
    (if index > 0 then Option.bind (read_given_char sep s) (\<lambda>(_, s). inner s) else inner s)"

fun read_octets :: "nat \<Rightarrow> nat \<Rightarrow> u8 list parser" where
  "read_octets i 0 s = Some ([], s)"
| "read_octets i (Suc n) s =
    Option.bind (read_separator (CHR ''.'') i (read_number 10 (Some 3) False 256) s) (\<lambda>(g, s).
    Option.bind (read_octets (Suc i) n s) (\<lambda>(gs, s). Some (of_nat g # gs, s)))"

definition read_ipv4_addr :: "u32 parser" where
  "read_ipv4_addr s = Option.bind (read_octets 0 4 s) (\<lambda>(gs, s). Some (from_be_bytes gs, s))"

text \<open>Up to \<open>n\<close> more groups; the flag says that an embedded IPv4 address ended them.\<close>

fun read_groups :: "nat \<Rightarrow> nat \<Rightarrow> string \<Rightarrow> u16 list \<times> bool \<times> string" where
  "read_groups i 0 s = ([], False, s)"
| "read_groups i (Suc n) s =
    (case (if n > 0 then read_separator (CHR '':'') i read_ipv4_addr s else None) of
       Some (v4, s) \<Rightarrow> ([ucast (drop_bit 16 v4), ucast v4], True, s)
     | None \<Rightarrow>
         (case read_separator (CHR '':'') i (read_number 16 (Some 4) True 65536) s of
            Some (g, s) \<Rightarrow>
              let (gs, v4, s) = read_groups (Suc i) n s in (of_nat g # gs, v4, s)
          | None \<Rightarrow> ([], False, s)))"

definition join_segments :: "u16 list \<Rightarrow> u128" where
  "join_segments gs = foldl (\<lambda>a g. push_bit 16 a + ucast g) 0 gs"

definition read_ipv6_addr :: "u128 parser" where
  "read_ipv6_addr s =
    (let (head, head_ipv4, s) = read_groups 0 8 s in
     if length head = 8 then Some (join_segments head, s)
     else if head_ipv4 then None
     else
       Option.bind (read_given_char (CHR '':'') s) (\<lambda>(_, s).
       Option.bind (read_given_char (CHR '':'') s) (\<lambda>(_, s).
       let (tail, _, s) = read_groups 0 (8 - (length head + 1)) s in
       Some (join_segments (head @ replicate (8 - length head - length tail) 0 @ tail), s))))"

definition read_port :: "u16 parser" where
  "read_port s =
    Option.bind (read_given_char (CHR '':'') s) (\<lambda>(_, s).
    Option.bind (read_number 10 None True 65536 s) (\<lambda>(n, s). Some (of_nat n, s)))"

definition read_scope_id :: "u32 parser" where
  "read_scope_id s =
    Option.bind (read_given_char (CHR ''%'') s) (\<lambda>(_, s).
    Option.bind (read_number 10 None True (2 ^ 32) s) (\<lambda>(n, s). Some (of_nat n, s)))"

definition read_socket_addr_v4 :: "socket_addr parser" where
  "read_socket_addr_v4 s =
    Option.bind (read_ipv4_addr s) (\<lambda>(ip, s).
    Option.bind (read_port s) (\<lambda>(port, s). Some (SocketV4 ip port, s)))"

definition read_socket_addr_v6 :: "socket_addr parser" where
  "read_socket_addr_v6 s =
    Option.bind (read_given_char (CHR ''['') s) (\<lambda>(_, s).
    Option.bind (read_ipv6_addr s) (\<lambda>(ip, s).
    let (scope, s) = (case read_scope_id s of Some (z, s) \<Rightarrow> (z, s) | None \<Rightarrow> (0, s)) in
    Option.bind (read_given_char (CHR '']'') s) (\<lambda>(_, s).
    Option.bind (read_port s) (\<lambda>(port, s). Some (SocketV6 ip port scope, s)))))"

definition parse_socket_addr :: "string \<Rightarrow> socket_addr option" where
  "parse_socket_addr s =
    (case (case read_socket_addr_v4 s of Some r \<Rightarrow> Some r | None \<Rightarrow> read_socket_addr_v6 s) of
       Some (a, []) \<Rightarrow> Some a
     | _ \<Rightarrow> None)"

subsection \<open>Classification\<close>

definition v4_octet :: "u32 \<Rightarrow> nat \<Rightarrow> u8" where
  "v4_octet a i = octets_v4 a ! i"

definition v4_is_private :: "u32 \<Rightarrow> bool" where
  "v4_is_private a \<longleftrightarrow>
    v4_octet a 0 = 10
    \<or> (v4_octet a 0 = 172 \<and> 16 \<le> v4_octet a 1 \<and> v4_octet a 1 \<le> 31)
    \<or> (v4_octet a 0 = 192 \<and> v4_octet a 1 = 168)"

definition v4_is_loopback :: "u32 \<Rightarrow> bool" where
  "v4_is_loopback a \<longleftrightarrow> v4_octet a 0 = 127"

definition v4_is_link_local :: "u32 \<Rightarrow> bool" where
  "v4_is_link_local a \<longleftrightarrow> v4_octet a 0 = 169 \<and> v4_octet a 1 = 254"

definition v4_is_broadcast :: "u32 \<Rightarrow> bool" where
  "v4_is_broadcast a \<longleftrightarrow> a = - 1"

definition v4_is_documentation :: "u32 \<Rightarrow> bool" where
  "v4_is_documentation a \<longleftrightarrow>
    (v4_octet a 0 = 192 \<and> v4_octet a 1 = 0 \<and> v4_octet a 2 = 2)
    \<or> (v4_octet a 0 = 198 \<and> v4_octet a 1 = 51 \<and> v4_octet a 2 = 100)
    \<or> (v4_octet a 0 = 203 \<and> v4_octet a 1 = 0 \<and> v4_octet a 2 = 113)"

definition v6_is_unique_local :: "u128 \<Rightarrow> bool" where
  "v6_is_unique_local a \<longleftrightarrow> drop_bit 121 a = 0x7E"

definition v6_is_multicast :: "u128 \<Rightarrow> bool" where
  "v6_is_multicast a \<longleftrightarrow> drop_bit 120 a = 0xFF"

subsection \<open>Numbers read back\<close>

fun radix_digits :: "nat \<Rightarrow> nat \<Rightarrow> nat list" where
  "radix_digits b n = (if b < 2 \<or> n < b then [n] else radix_digits b (n div b) @ [n mod b])"

declare radix_digits.simps [simp del]

lemma show_radix_digits: "show_radix b n = map digit_char (radix_digits b n)"
  by (induction b n rule: radix_digits.induct) (simp add: radix_digits.simps show_radix.simps)

lemma radix_digits_range: "2 \<le> b \<Longrightarrow> d \<in> set (radix_digits b n) \<Longrightarrow> d < b"
proof (induction b n rule: radix_digits.induct)
  case (1 b n)
  then show ?case by (cases "n < b") (auto simp: radix_digits.simps [of b n])
qed

lemma radix_digits_not_Nil: "radix_digits b n \<noteq> []"
  by (simp add: radix_digits.simps)

lemma radix_digits_value: "2 \<le> b \<Longrightarrow> digits_value b (radix_digits b n) = n"
proof (induction b n rule: radix_digits.induct)
  case (1 b n)
  then show ?case
    by (cases "n < b") (simp_all add: radix_digits.simps [of b n] digits_value_def)
qed

lemma radix_digits_hd: "2 \<le> b \<Longrightarrow> hd (radix_digits b n) = 0 \<Longrightarrow> n = 0"
proof (induction b n rule: radix_digits.induct)
  case (1 b n)
  show ?case
  proof (cases "n < b")
    case True
    with "1.prems" show ?thesis by (simp add: radix_digits.simps [of b n])
  next
    case False
    with "1.prems" have "hd (radix_digits b (n div b)) = 0"
      by (simp add: radix_digits.simps [of b n] radix_digits_not_Nil)
    with 1 False have "n div b = 0" by simp
    with False "1.prems"(1) show ?thesis by (simp add: div_eq_0_iff)
  qed
qed

lemma radix_digits_length: "2 \<le> b \<Longrightarrow> n < b ^ k \<Longrightarrow> 0 < k \<Longrightarrow> length (radix_digits b n) \<le> k"
proof (induction b n arbitrary: k rule: radix_digits.induct)
  case (1 b n)
  show ?case
  proof (cases "n < b")
    case True
    with 1 show ?thesis by (simp add: radix_digits.simps [of b n])
  next
    case False
    have "k \<noteq> 1" using False "1.prems"(2) by auto
    with "1.prems"(3) obtain j where k: "k = Suc j" "0 < j" by (cases k) auto
    have "n div b < b ^ j" using "1.prems"(2) k(1) by (simp add: less_mult_imp_div_less mult.commute)
    with 1 False k show ?thesis by (simp add: radix_digits.simps [of b n])
  qed
qed

lemma to_digit_digit_char: "d < b \<Longrightarrow> b \<le> 36 \<Longrightarrow> to_digit b (digit_char d) = Some d"
  by (auto simp: to_digit_def digit_char_def Let_def)

definition stops :: "nat \<Rightarrow> string \<Rightarrow> bool" where
  "stops b s \<longleftrightarrow> (case s of [] \<Rightarrow> True | c # _ \<Rightarrow> to_digit b c = None)"

lemma read_digits_map:
  "\<forall>d \<in> set ds. d < b \<Longrightarrow> b \<le> 36 \<Longrightarrow> stops b s \<Longrightarrow>
    read_digits b (map digit_char ds @ s) = (ds, s)"
proof (induction ds)
  case Nil
  then show ?case by (cases s) (simp_all add: stops_def)
next
  case (Cons d ds)
  then show ?case by (simp add: to_digit_digit_char)
qed

lemma read_number_show:
  assumes "2 \<le> b" "b \<le> 36" "n < bound" "stops b s"
    and "\<And>m. max_digits = Some m \<Longrightarrow> 0 < m \<and> n < b ^ m"
  shows "read_number b max_digits z bound (show_radix b n @ s) = Some (n, s)"
proof -
  have "read_digits b (show_radix b n @ s) = (radix_digits b n, s)"
    using assms radix_digits_range by (simp add: show_radix_digits read_digits_map)
  moreover have "length (radix_digits b n) \<le> 1" if "hd (radix_digits b n) = 0"
    using radix_digits_hd [OF assms(1) that] radix_digits_length [of b 0 1] assms(1) by simp
  ultimately show ?thesis
    using assms radix_digits_length [OF assms(1)]
    by (auto simp: read_number_def radix_digits_value radix_digits_not_Nil not_less
        split: option.splits)
qed

subsection \<open>An IPv4 socket address reads back\<close>

lemma length_4_cases: "length xs = 4 \<Longrightarrow> \<exists>a b c d. xs = [a, b, c, d]"
  by (auto simp: numeral_eq_Suc length_Suc_conv)

lemma read_ipv4_show: "stops 10 s \<Longrightarrow> read_ipv4_addr (show_v4 a @ s) = Some (a, s)"
proof -
  assume s: "stops 10 s"
  obtain w x y z where o4: "octets_v4 a = [w, x, y, z]"
    using length_4_cases [of "octets_v4 a"] by (auto simp: octets_v4_def)
  have bound: "unat (b :: u8) < 256" "unat b < 10 ^ 3" for b
    using unat_u8_bound [of b] by simp_all
  have octet: "read_number 10 (Some 3) False 256 (show_radix 10 (unat b) @ t) = Some (unat b, t)"
    if "stops 10 t" for b :: u8 and t
    by (rule read_number_show) (use that bound in simp_all)
  have dot: "stops 10 (CHR ''.'' # t)" for t by (simp add: stops_def to_digit_def)
  have "read_octets 0 4 (show_v4 a @ s) = Some ([w, x, y, z], s)"
    using octet [OF dot] octet [OF s]
    by (simp add: show_v4_def o4 numeral_eq_Suc read_separator_def)
  moreover have "from_be_bytes [w, x, y, z] = a" using o4 be32.dec_enc
    by (metis octets_v4_def)
  ultimately show ?thesis by (simp add: read_ipv4_addr_def)
qed

lemma parse_show_v4: "parse_socket_addr (show_socket (SocketV4 a p)) = Some (SocketV4 a p)"
proof -
  have "read_number 10 None True 65536 (show_radix 10 (unat p) @ []) = Some (unat p, [])"
    by (rule read_number_show) (use unat_bound [of p] in \<open>simp_all add: stops_def\<close>)
  then have "read_port (CHR '':'' # show_radix 10 (unat p)) = Some (p, [])"
    by (simp add: read_port_def)
  moreover have "stops 10 (CHR '':'' # t)" for t by (simp add: stops_def to_digit_def)
  ultimately have "read_socket_addr_v4 (show_socket (SocketV4 a p)) = Some (SocketV4 a p, [])"
    using read_ipv4_show by (simp add: read_socket_addr_v4_def)
  then show ?thesis by (simp add: parse_socket_addr_def)
qed

end
