(* ===== verification/Rc_Candidates.thy ===== *)
theory Rc_Candidates
  imports Rc_Binding Rc_Net
begin

section \<open>Candidates: observation, LAN claims and their guard\<close>

text \<open>
  \<^verbatim>\<open>crates/remote-transport/src/candidates.rs\<close>: validation of observe tokens and results, of
  candidate tokens and of candidate requests; the LAN guard with its limit per session and
  device; the LAN scope of probes. \<^verbatim>\<open>EphemeralToken\<close> is the byte string it wraps.
\<close>

definition LAN_CANDIDATE_MAX_PER_DEVICE_SESSION :: nat where
  "LAN_CANDIDATE_MAX_PER_DEVICE_SESSION = 8"

definition LAN_INTERFACE_CLAIM_WINDOW_MILLIS :: u64 where
  "LAN_INTERFACE_CLAIM_WINDOW_MILLIS = 30000"

definition LAN_EPHEMERAL_PORT_MIN :: u16 where
  "LAN_EPHEMERAL_PORT_MIN = 49152"

record observe_token_issued =
  oi_session_id :: u128
  oi_device_id :: string
  oi_role :: session_role
  oi_local_socket_nonce :: bytes
  oi_observe_token :: bytes
  oi_observe_token_binding_hash :: bytes
  oi_expires_at_epoch_millis :: u64

record candidate_token_request =
  cr_session_id :: u128
  cr_device_id :: string
  cr_role :: session_role
  cr_candidate_id :: u128
  cr_kind :: transport_path
  cr_endpoint :: string
  cr_source :: candidate_source
  cr_relay_node_id :: "string option"
  cr_observe_result_id :: "string option"
  cr_observe_result_binding_hash :: "bytes option"
  cr_local_interface_claim_hash :: "bytes option"
  cr_local_interface_signature :: "bytes option"
  cr_interface_name_hash :: "bytes option"
  cr_interface_index_hash :: "bytes option"
  cr_local_socket_nonce :: "bytes option"
  cr_timestamp_epoch_millis :: "u64 option"
  cr_requested_ttl_millis :: u32

record candidate_token_issued =
  ci_session_id :: u128
  ci_device_id :: string
  ci_role :: session_role
  ci_candidate_id :: u128
  ci_candidate_token :: bytes
  ci_candidate_token_binding_hash :: bytes
  ci_expires_at_epoch_millis :: u64

record observe_authorization =
  oa_session_id :: u128
  oa_device_id :: string
  oa_role :: session_role
  oa_local_socket_nonce :: bytes
  oa_token :: bytes
  oa_binding_hash :: bytes
  oa_expires_at_epoch_millis :: u64

record ephemeral_candidate_authorization =
  ea_session_id :: u128
  ea_device_id :: string
  ea_role :: session_role
  ea_candidate_id :: u128
  ea_token :: bytes
  ea_binding_hash :: bytes
  ea_expires_at_epoch_millis :: u64

record validated_observe_result =
  vo_session_id :: u128
  vo_device_id :: string
  vo_role :: session_role
  vo_local_socket_nonce :: bytes
  vo_observed_endpoint :: string
  vo_observe_result_id :: string
  vo_binding_hash :: bytes
  vo_expires_at_epoch_millis :: u64

subsection \<open>Observe tokens and results\<close>

definition observe_token_binding_bytes ::
    "u128 \<Rightarrow> string \<Rightarrow> session_role \<Rightarrow> bytes \<Rightarrow> u64 \<Rightarrow> canonical_error + bytes" where
  "observe_token_binding_bytes session_id device_id role local_socket_nonce expires_at =
    map_ok finish (and_then (writer_new ''rctl-observe-token-binding-v1'') (try_chain
      [push_u128 ''session_id'' session_id,
       push_str ''device_id'' device_id,
       push_str ''role'' (role_as_str role),
       push_field ''local_socket_nonce'' local_socket_nonce,
       push_u64 ''expires_at_epoch_millis'' expires_at]))"

definition observe_token_binding_hash ::
    "(bytes \<Rightarrow> bytes) \<Rightarrow> u128 \<Rightarrow> string \<Rightarrow> session_role \<Rightarrow> bytes \<Rightarrow> u64 \<Rightarrow> binding_error + bytes" where
  "observe_token_binding_hash sha session_id device_id role local_socket_nonce expires_at =
    map_err (\<lambda>_. CanonicalEncoding) (map_ok sha
      (observe_token_binding_bytes session_id device_id role local_socket_nonce expires_at))"

definition validate_observe_authorization ::
    "(bytes \<Rightarrow> bytes) \<Rightarrow> observe_authorization \<Rightarrow> u64 \<Rightarrow> binding_error + unit" where
  "validate_observe_authorization sha a now =
    (if oa_expires_at_epoch_millis a < now then Inl TokenExpired
     else if saturating_sub (oa_expires_at_epoch_millis a) now > OBSERVE_TOKEN_MAX_TTL_MILLIS
     then Inl TokenTtlExceeded
     else if oa_token a = [] then Inl TokenMismatch
     else
       and_then (observe_token_binding_hash sha (oa_session_id a) (oa_device_id a) (oa_role a)
           (oa_local_socket_nonce a) (oa_expires_at_epoch_millis a)) (\<lambda>expected.
       if expected \<noteq> oa_binding_hash a then Inl TokenBindingMismatch else Inr ()))"

definition observe_authorization_from_issued ::
    "(bytes \<Rightarrow> bytes) \<Rightarrow> observe_token_issued \<Rightarrow> u64 \<Rightarrow> binding_error + observe_authorization" where
  "observe_authorization_from_issued sha issued now =
    (let authorization =
       \<lparr>oa_session_id = oi_session_id issued, oa_device_id = oi_device_id issued,
        oa_role = oi_role issued, oa_local_socket_nonce = oi_local_socket_nonce issued,
        oa_token = oi_observe_token issued,
        oa_binding_hash = oi_observe_token_binding_hash issued,
        oa_expires_at_epoch_millis = oi_expires_at_epoch_millis issued\<rparr>
     in and_then (validate_observe_authorization sha authorization now) (\<lambda>_. Inr authorization))"

definition observe_result_binding_bytes :: "validated_observe_result \<Rightarrow> canonical_error + bytes" where
  "observe_result_binding_bytes r =
    map_ok finish (and_then (writer_new ''rctl-observe-result-binding-v1'') (try_chain
      [push_u128 ''session_id'' (vo_session_id r),
       push_str ''device_id'' (vo_device_id r),
       push_str ''role'' (role_as_str (vo_role r)),
       push_field ''local_socket_nonce'' (vo_local_socket_nonce r),
       push_str ''observed_endpoint'' (vo_observed_endpoint r),
       push_str ''source'' (source_as_str UdpObserved),
       push_u64 ''expires_at_epoch_millis'' (vo_expires_at_epoch_millis r),
       push_str ''observe_result_id'' (vo_observe_result_id r)]))"

definition observe_result_binding_hash ::
    "(bytes \<Rightarrow> bytes) \<Rightarrow> validated_observe_result \<Rightarrow> binding_error + bytes" where
  "observe_result_binding_hash sha r =
    map_err (\<lambda>_. CanonicalEncoding) (map_ok sha (observe_result_binding_bytes r))"

definition validate_observe_result ::
    "(bytes \<Rightarrow> bytes) \<Rightarrow> validated_observe_result \<Rightarrow> observe_authorization \<Rightarrow> u64
      \<Rightarrow> binding_error + unit" where
  "validate_observe_result sha r a now =
    and_then (validate_observe_authorization sha a now) (\<lambda>_.
    if vo_session_id r \<noteq> oa_session_id a \<or> vo_device_id r \<noteq> oa_device_id a
       \<or> vo_role r \<noteq> oa_role a \<or> vo_local_socket_nonce r \<noteq> oa_local_socket_nonce a
    then Inl ObserveContextMismatch
    else if vo_expires_at_epoch_millis r < now
       \<or> vo_expires_at_epoch_millis r > oa_expires_at_epoch_millis a
    then Inl TokenExpired
    else
      and_then (ok_or InvalidEndpoint (parse_socket_addr (vo_observed_endpoint r))) (\<lambda>_.
      if vo_observe_result_id r = [] then Inl ObserveResultMismatch
      else
        and_then (observe_result_binding_hash sha r) (\<lambda>expected.
        if expected \<noteq> vo_binding_hash r then Inl ObserveResultMismatch else Inr ())))"

subsection \<open>Candidate tokens\<close>

definition validate_ephemeral_candidate_authorization ::
    "(bytes \<Rightarrow> bytes) \<Rightarrow> connection_candidate_dto \<Rightarrow> ephemeral_candidate_authorization \<Rightarrow> u64
      \<Rightarrow> binding_error + unit" where
  "validate_ephemeral_candidate_authorization sha c a now =
    (if ea_session_id a \<noteq> cd_session_id c \<or> ea_device_id a \<noteq> cd_device_id c
        \<or> ea_role a \<noteq> cd_role c \<or> ea_candidate_id a \<noteq> cd_candidate_id c
     then Inl DeviceMismatch
     else if ea_expires_at_epoch_millis a < now then Inl TokenExpired
     else if saturating_sub (ea_expires_at_epoch_millis a) now > CANDIDATE_TOKEN_MAX_TTL_MILLIS
     then Inl TokenTtlExceeded
     else if ea_token a = [] then Inl TokenMismatch
     else
       and_then (candidate_token_binding_hash sha c (ea_expires_at_epoch_millis a)) (\<lambda>expected.
       if expected \<noteq> ea_binding_hash a then Inl TokenBindingMismatch else Inr ()))"

definition ephemeral_from_issued ::
    "(bytes \<Rightarrow> bytes) \<Rightarrow> connection_candidate_dto \<Rightarrow> candidate_token_issued \<Rightarrow> u64
      \<Rightarrow> binding_error + ephemeral_candidate_authorization" where
  "ephemeral_from_issued sha c issued now =
    (if ci_session_id issued \<noteq> cd_session_id c \<or> ci_device_id issued \<noteq> cd_device_id c
        \<or> ci_role issued \<noteq> cd_role c \<or> ci_candidate_id issued \<noteq> cd_candidate_id c
     then Inl DeviceMismatch
     else
       let authorization =
         \<lparr>ea_session_id = ci_session_id issued, ea_device_id = ci_device_id issued,
          ea_role = ci_role issued, ea_candidate_id = ci_candidate_id issued,
          ea_token = ci_candidate_token issued,
          ea_binding_hash = ci_candidate_token_binding_hash issued,
          ea_expires_at_epoch_millis = ci_expires_at_epoch_millis issued\<rparr>
       in and_then (validate_ephemeral_candidate_authorization sha c authorization now)
            (\<lambda>_. Inr authorization))"

definition requested_candidate :: "candidate_token_request \<Rightarrow> connection_candidate_dto" where
  "requested_candidate q =
    \<lparr>cd_candidate_id = cr_candidate_id q, cd_session_id = cr_session_id q,
     cd_device_id = cr_device_id q, cd_role = cr_role q, cd_kind = cr_kind q,
     cd_endpoint = cr_endpoint q, cd_source = cr_source q,
     cd_observe_result_id = cr_observe_result_id q, cd_priority = 0, cd_rtt_ms = None,
     cd_loss_ppm = None, cd_jitter_ms = None, cd_relay_node_id = cr_relay_node_id q\<rparr>"

definition candidate_from_token_request ::
    "(bytes \<Rightarrow> bytes) \<Rightarrow> candidate_token_request \<Rightarrow> binding_error + connection_candidate_dto" where
  "candidate_from_token_request sha q =
    (let candidate = requested_candidate q in
     and_then (candidate_id sha candidate) (\<lambda>i.
     if i \<noteq> cr_candidate_id q then Inl CandidateIdMismatch else Inr candidate))"

definition local_interface_claim_bytes ::
    "candidate_token_request \<Rightarrow> bytes \<Rightarrow> bytes \<Rightarrow> bytes \<Rightarrow> u64 \<Rightarrow> canonical_error + bytes" where
  "local_interface_claim_bytes q name_hash index_hash nonce timestamp =
    map_ok finish (and_then (writer_new ''rctl-local-interface-claim-v1'') (try_chain
      [push_u128 ''session_id'' (cr_session_id q),
       push_str ''device_id'' (cr_device_id q),
       push_str ''role'' (role_as_str (cr_role q)),
       push_u128 ''candidate_id'' (cr_candidate_id q),
       push_str ''endpoint'' (cr_endpoint q),
       push_field ''interface_name_hash'' name_hash,
       push_field ''interface_index_hash'' index_hash,
       push_field ''local_socket_nonce'' nonce,
       push_u64 ''timestamp_epoch_millis'' timestamp]))"

definition local_interface_claim_hash ::
    "(bytes \<Rightarrow> bytes) \<Rightarrow> candidate_token_request \<Rightarrow> binding_error + bytes" where
  "local_interface_claim_hash sha q =
    and_then (ok_or LanClaimMissing (cr_interface_name_hash q)) (\<lambda>name_hash.
    and_then (ok_or LanClaimMissing (cr_interface_index_hash q)) (\<lambda>index_hash.
    and_then (ok_or LanClaimMissing (cr_local_socket_nonce q)) (\<lambda>nonce.
    and_then (ok_or LanClaimMissing (cr_timestamp_epoch_millis q)) (\<lambda>timestamp.
    map_err (\<lambda>_. CanonicalEncoding) (map_ok sha
      (local_interface_claim_bytes q name_hash index_hash nonce timestamp))))))"

definition validate_token_request_ttl :: "u32 \<Rightarrow> binding_error + unit" where
  "validate_token_request_ttl ttl =
    (if ttl = 0 \<or> (ucast ttl :: u64) > CANDIDATE_TOKEN_MAX_TTL_MILLIS
     then Inl InvalidRequestedTtl else Inr ())"

subsection \<open>LAN scope\<close>

fun is_private_lan_unicast :: "ip_addr \<Rightarrow> bool" where
  "is_private_lan_unicast (IpV4 a) \<longleftrightarrow>
    v4_is_private a \<and> \<not> v4_is_loopback a \<and> \<not> v4_is_link_local a \<and> \<not> v4_is_broadcast a
    \<and> \<not> v4_is_documentation a \<and> v4_octet a 3 \<noteq> 0 \<and> v4_octet a 3 \<noteq> 255"
| "is_private_lan_unicast (IpV6 a) \<longleftrightarrow> v6_is_unique_local a \<and> \<not> v6_is_multicast a"

definition validate_lan_endpoint :: "string \<Rightarrow> binding_error + socket_addr" where
  "validate_lan_endpoint endpoint =
    and_then (ok_or InvalidEndpoint (parse_socket_addr endpoint)) (\<lambda>endpoint.
    if socket_port endpoint < LAN_EPHEMERAL_PORT_MIN then Inl LanPortForbidden
    else if \<not> is_private_lan_unicast (socket_ip endpoint) then Inl LanAddressForbidden
    else Inr endpoint)"

record local_network =
  ln_address :: ip_addr
  ln_prefix_len :: u8

fun is_ipv4 :: "ip_addr \<Rightarrow> bool" where
  "is_ipv4 (IpV4 a) = True"
| "is_ipv4 (IpV6 a) = False"

definition local_network_new :: "ip_addr \<Rightarrow> u8 \<Rightarrow> binding_error + local_network" where
  "local_network_new address prefix_len =
    (let max_len = (if is_ipv4 address then 32 else 128) in
     if prefix_len > max_len \<or> \<not> is_private_lan_unicast address then Inl LanAddressForbidden
     else Inr \<lparr>ln_address = address, ln_prefix_len = prefix_len\<rparr>)"

definition prefix_mask_v4 :: "u8 \<Rightarrow> u32" where
  "prefix_mask_v4 prefix_len = (if prefix_len = 0 then 0 else push_bit (unat (32 - prefix_len)) (- 1))"

definition prefix_mask_v6 :: "u8 \<Rightarrow> u128" where
  "prefix_mask_v6 prefix_len = (if prefix_len = 0 then 0 else push_bit (unat (128 - prefix_len)) (- 1))"

definition network_contains :: "local_network \<Rightarrow> ip_addr \<Rightarrow> bool" where
  "network_contains n address =
    (case (ln_address n, address) of
       (IpV4 l, IpV4 r) \<Rightarrow>
         let mask = prefix_mask_v4 (ln_prefix_len n) in l AND mask = r AND mask
     | (IpV6 l, IpV6 r) \<Rightarrow>
         let mask = prefix_mask_v6 (ln_prefix_len n) in l AND mask = r AND mask
     | _ \<Rightarrow> False)"

definition validate_lan_probe_scope ::
    "string \<Rightarrow> local_network list \<Rightarrow> binding_error + socket_addr" where
  "validate_lan_probe_scope endpoint local_networks =
    and_then (validate_lan_endpoint endpoint) (\<lambda>endpoint.
    if \<not> list_ex (\<lambda>n. network_contains n (socket_ip endpoint)) local_networks
    then Inl LanNotRoutable else Inr endpoint)"

subsection \<open>The LAN candidate guard\<close>

record lan_candidate_guard =
  lg_accepted_candidates :: "u128 \<times> string \<rightharpoonup> u128 set"
  lg_accepted_claims :: "(string \<times> u128 \<times> bytes \<times> u128) set"

definition lan_candidate_guard_default :: lan_candidate_guard where
  "lan_candidate_guard_default =
    \<lparr>lg_accepted_candidates = Map.empty, lg_accepted_claims = {}\<rparr>"

text \<open>The checks of \<^verbatim>\<open>validate_request\<close> before the guard's state is consulted.\<close>

definition lan_request_checked ::
    "primitives \<Rightarrow> candidate_token_request \<Rightarrow> u128 \<Rightarrow> string \<Rightarrow> session_role \<Rightarrow> bytes \<Rightarrow> u64
      \<Rightarrow> binding_error + (connection_candidate_dto \<times> bytes)" where
  "lan_request_checked pr q expected_session_id expected_device_id expected_role public_key now =
    and_then (validate_token_request_ttl (cr_requested_ttl_millis q)) (\<lambda>_.
    if cr_session_id q \<noteq> expected_session_id \<or> cr_device_id q \<noteq> expected_device_id
       \<or> cr_role q \<noteq> expected_role
    then Inl DeviceMismatch
    else if cr_kind q \<noteq> LanDirect \<or> cr_source q \<noteq> LocalInterface \<or> cr_relay_node_id q \<noteq> None
       \<or> cr_observe_result_id q \<noteq> None \<or> cr_observe_result_binding_hash q \<noteq> None
    then Inl InvalidCandidateKindSource
    else
      and_then (validate_lan_endpoint (cr_endpoint q)) (\<lambda>endpoint.
      and_then (ok_or LanClaimMissing (cr_interface_name_hash q)) (\<lambda>name_hash.
      and_then (ok_or LanClaimMissing (cr_interface_index_hash q)) (\<lambda>index_hash.
      and_then (ok_or LanClaimMissing (cr_local_socket_nonce q)) (\<lambda>nonce.
      and_then (ok_or LanClaimMissing (cr_timestamp_epoch_millis q)) (\<lambda>timestamp.
      if name_hash = replicate 32 0 \<or> index_hash = replicate 32 0 \<or> nonce = replicate 32 0
      then Inl InvalidInterfaceHash
      else if abs_diff timestamp now > LAN_INTERFACE_CLAIM_WINDOW_MILLIS
      then Inl TimestampOutsideWindow
      else
        and_then (candidate_from_token_request (pr_sha256 pr) q) (\<lambda>candidate.
        if show_socket endpoint \<noteq> cr_endpoint q then Inl InvalidEndpoint
        else
          and_then (local_interface_claim_hash (pr_sha256 pr) q) (\<lambda>expected_claim.
          and_then (ok_or LanClaimMissing (cr_local_interface_claim_hash q)) (\<lambda>supplied_claim.
          if expected_claim \<noteq> supplied_claim then Inl LanClaimHashMismatch
          else
            and_then (ok_or LanClaimMissing (cr_local_interface_signature q)) (\<lambda>signature.
            if length signature \<noteq> 64 then Inl DeviceSignatureInvalid
            else
              and_then (map_err (\<lambda>_. DeviceSignatureInvalid)
                (verify_digest_signature pr public_key expected_claim signature)) (\<lambda>_.
              Inr (candidate, nonce))))))))))))"

definition lan_validate_request ::
    "primitives \<Rightarrow> lan_candidate_guard \<Rightarrow> candidate_token_request \<Rightarrow> u128 \<Rightarrow> string \<Rightarrow> session_role
      \<Rightarrow> bytes \<Rightarrow> u64 \<Rightarrow> (binding_error + connection_candidate_dto) \<times> lan_candidate_guard" where
  "lan_validate_request pr g q expected_session_id expected_device_id expected_role public_key now =
    (case lan_request_checked pr q expected_session_id expected_device_id expected_role public_key now of
       Inl e \<Rightarrow> (Inl e, g)
     | Inr (candidate, nonce) \<Rightarrow>
         let replay_key = (cr_device_id q, cr_session_id q, nonce, cr_candidate_id q);
             slot = (cr_session_id q, cr_device_id q)
         in if replay_key \<in> lg_accepted_claims g then (Inl NonceReplay, g)
            else
              let candidates = (case lg_accepted_candidates g slot of None \<Rightarrow> {} | Some cs \<Rightarrow> cs);
                  g' = g\<lparr>lg_accepted_candidates := (lg_accepted_candidates g)(slot \<mapsto> candidates)\<rparr>
              in if cr_candidate_id q \<notin> candidates
                    \<and> card candidates \<ge> LAN_CANDIDATE_MAX_PER_DEVICE_SESSION
                 then (Inl LanCandidateLimitExceeded, g')
                 else (Inr candidate,
                   g'\<lparr>lg_accepted_candidates :=
                        (lg_accepted_candidates g')(slot \<mapsto> insert (cr_candidate_id q) candidates),
                      lg_accepted_claims := insert replay_key (lg_accepted_claims g')\<rparr>))"

definition validate_udp_candidate_request ::
    "(bytes \<Rightarrow> bytes) \<Rightarrow> candidate_token_request \<Rightarrow> validated_observe_result \<Rightarrow> u128 \<Rightarrow> string
      \<Rightarrow> session_role \<Rightarrow> u64 \<Rightarrow> binding_error + connection_candidate_dto" where
  "validate_udp_candidate_request sha q r expected_session_id expected_device_id expected_role now =
    and_then (validate_token_request_ttl (cr_requested_ttl_millis q)) (\<lambda>_.
    if cr_session_id q \<noteq> expected_session_id \<or> cr_device_id q \<noteq> expected_device_id
       \<or> cr_role q \<noteq> expected_role
    then Inl DeviceMismatch
    else if cr_kind q \<noteq> UdpP2p \<or> cr_source q \<noteq> UdpObserved \<or> cr_relay_node_id q \<noteq> None
       \<or> cr_local_interface_claim_hash q \<noteq> None \<or> cr_local_interface_signature q \<noteq> None
       \<or> cr_interface_name_hash q \<noteq> None \<or> cr_interface_index_hash q \<noteq> None
       \<or> cr_local_socket_nonce q \<noteq> None \<or> cr_timestamp_epoch_millis q \<noteq> None
    then Inl InvalidCandidateKindSource
    else if vo_expires_at_epoch_millis r < now \<or> vo_session_id r \<noteq> cr_session_id q
       \<or> vo_device_id r \<noteq> cr_device_id q \<or> vo_role r \<noteq> cr_role q
       \<or> vo_observed_endpoint r \<noteq> cr_endpoint q
       \<or> cr_observe_result_id q \<noteq> Some (vo_observe_result_id r)
    then Inl ObserveResultMismatch
    else
      and_then (observe_result_binding_hash sha r) (\<lambda>expected.
      if expected \<noteq> vo_binding_hash r
         \<or> (case cr_observe_result_binding_hash q of None \<Rightarrow> True | Some b \<Rightarrow> b \<noteq> expected)
      then Inl ObserveResultMismatch
      else candidate_from_token_request sha q))"

subsection \<open>The private range\<close>

text \<open>On private IPv4 addresses the further exclusions of the code only cut \<open>.0\<close> and \<open>.255\<close>.\<close>

lemma private_v4_iff:
  "is_private_lan_unicast (IpV4 a) \<longleftrightarrow>
    v4_is_private a \<and> v4_octet a 3 \<noteq> 0 \<and> v4_octet a 3 \<noteq> 255"
proof -
  have "be_enc (Suc (Suc (Suc (Suc 0)))) 4294967295 = [255, 255, 255, 255]" by simp
  moreover have "Suc (Suc (Suc (Suc 0))) = 4" by simp
  moreover have "unat (- 1 :: u32) = 4294967295"
    by (simp add: unsigned_minus_1_eq_mask mask_eq_exp_minus_1)
  ultimately have "to_be_bytes (- 1 :: u32) = [255, 255, 255, 255]"
    by (simp only: to_be_bytes_def) simp
  then have "v4_octet (- 1) 3 = 255" by (simp add: v4_octet_def octets_v4_def)
  then have "v4_octet a 3 \<noteq> 255 \<Longrightarrow> \<not> v4_is_broadcast a" by (auto simp: v4_is_broadcast_def)
  then show ?thesis
    by (auto simp: v4_is_private_def v4_is_loopback_def v4_is_link_local_def v4_is_documentation_def)
qed

lemma private_v6_iff: "is_private_lan_unicast (IpV6 a) \<longleftrightarrow> drop_bit 121 a = 0x7E"
proof -
  have "drop_bit 121 a = drop_bit 1 (drop_bit 120 a)" by (simp add: drop_bit_drop_bit)
  then have "v6_is_multicast a \<Longrightarrow> drop_bit 121 a \<noteq> 0x7E"
    by (simp add: v6_is_multicast_def drop_bit_eq_div)
  then show ?thesis by (auto simp: v6_is_unique_local_def)
qed

lemma validate_lan_endpoint_ok:
  "validate_lan_endpoint e = Inr a \<longleftrightarrow>
    parse_socket_addr e = Some a \<and> 49152 \<le> socket_port a \<and> is_private_lan_unicast (socket_ip a)"
  by (auto simp: validate_lan_endpoint_def result_simps LAN_EPHEMERAL_PORT_MIN_def not_less)

subsection \<open>Network masks\<close>

lemma masked_equal:
  "(l :: 'a::len word) AND NOT (mask n) = r AND NOT (mask n) \<longleftrightarrow>
    (\<forall>i. n \<le> i \<longrightarrow> i < LENGTH('a) \<longrightarrow> bit l i = bit r i)"
  by (auto simp: bit_eq_iff bit_and_iff bit_not_iff bit_mask_iff not_less)

lemma contains_v4_iff:
  assumes "p \<le> 32"
  shows "network_contains \<lparr>ln_address = IpV4 l, ln_prefix_len = p\<rparr> (IpV4 r) \<longleftrightarrow>
    (\<forall>i. 32 - unat p \<le> i \<longrightarrow> i < 32 \<longrightarrow> bit l i = bit r i)"
proof (cases "p = 0")
  case True
  then show ?thesis by (auto simp: network_contains_def prefix_mask_v4_def)
next
  case False
  have "unat (32 - p) = 32 - unat p"
    using assms by (simp add: unat_sub word_le_nat_alt)
  with False show ?thesis
    by (simp add: network_contains_def prefix_mask_v4_def Let_def masked_equal)
qed

lemma contains_v6_iff:
  assumes "p \<le> 128"
  shows "network_contains \<lparr>ln_address = IpV6 l, ln_prefix_len = p\<rparr> (IpV6 r) \<longleftrightarrow>
    (\<forall>i. 128 - unat p \<le> i \<longrightarrow> i < 128 \<longrightarrow> bit l i = bit r i)"
proof (cases "p = 0")
  case True
  then show ?thesis by (auto simp: network_contains_def prefix_mask_v6_def)
next
  case False
  have "unat (128 - p) = 128 - unat p"
    using assms by (simp add: unat_sub word_le_nat_alt)
  with False show ?thesis
    by (simp add: network_contains_def prefix_mask_v6_def Let_def masked_equal)
qed

subsection \<open>What the guard lets in\<close>

definition claim_fields :: "candidate_token_request \<Rightarrow> bytes \<Rightarrow> bytes \<Rightarrow> bytes \<Rightarrow> u64 \<Rightarrow> field_list" where
  "claim_fields q name_hash index_hash nonce timestamp =
    [(''domain'', str_bytes ''rctl-local-interface-claim-v1''),
     (''session_id'', to_be_bytes (cr_session_id q)),
     (''device_id'', str_bytes (cr_device_id q)),
     (''role'', str_bytes (role_as_str (cr_role q))),
     (''candidate_id'', to_be_bytes (cr_candidate_id q)),
     (''endpoint'', str_bytes (cr_endpoint q)),
     (''interface_name_hash'', name_hash),
     (''interface_index_hash'', index_hash),
     (''local_socket_nonce'', nonce),
     (''timestamp_epoch_millis'', to_be_bytes timestamp)]"

lemma claim_canonical:
  "local_interface_claim_bytes q a b c t = canonical_encode (claim_fields q a b c t)"
  by (simp add: local_interface_claim_bytes_def claim_fields_def
      writer_new_chain [symmetric] push_eta del: try_chain.simps)

definition observe_result_fields :: "validated_observe_result \<Rightarrow> field_list" where
  "observe_result_fields r =
    [(''domain'', str_bytes ''rctl-observe-result-binding-v1''),
     (''session_id'', to_be_bytes (vo_session_id r)),
     (''device_id'', str_bytes (vo_device_id r)),
     (''role'', str_bytes (role_as_str (vo_role r))),
     (''local_socket_nonce'', vo_local_socket_nonce r),
     (''observed_endpoint'', str_bytes (vo_observed_endpoint r)),
     (''source'', str_bytes (source_as_str UdpObserved)),
     (''expires_at_epoch_millis'', to_be_bytes (vo_expires_at_epoch_millis r)),
     (''observe_result_id'', str_bytes (vo_observe_result_id r))]"

lemma observe_result_canonical:
  "observe_result_binding_bytes r = canonical_encode (observe_result_fields r)"
  by (simp add: observe_result_binding_bytes_def observe_result_fields_def
      writer_new_chain [symmetric] push_eta del: try_chain.simps)

definition observe_token_fields :: "u128 \<Rightarrow> string \<Rightarrow> session_role \<Rightarrow> bytes \<Rightarrow> u64 \<Rightarrow> field_list" where
  "observe_token_fields session_id device_id role nonce expires_at =
    [(''domain'', str_bytes ''rctl-observe-token-binding-v1''),
     (''session_id'', to_be_bytes session_id),
     (''device_id'', str_bytes device_id),
     (''role'', str_bytes (role_as_str role)),
     (''local_socket_nonce'', nonce),
     (''expires_at_epoch_millis'', to_be_bytes expires_at)]"

lemma observe_token_canonical:
  "observe_token_binding_bytes a b c d e = canonical_encode (observe_token_fields a b c d e)"
  by (simp add: observe_token_binding_bytes_def observe_token_fields_def
      writer_new_chain [symmetric] push_eta del: try_chain.simps)

lemma candidate_from_token_request_ok:
  "candidate_from_token_request sha q = Inr c \<longleftrightarrow>
    c = requested_candidate q \<and> candidate_id sha c = Inr (cr_candidate_id q)"
  by (auto simp: candidate_from_token_request_def Let_def result_simps)

text \<open>
  A request that passes is for a private endpoint written in its one canonical form, is
  fresh, names its candidate by the hash of its content and carries the device's signature
  over all of that.
\<close>

definition lan_request_authentic ::
    "primitives \<Rightarrow> candidate_token_request \<Rightarrow> bytes \<Rightarrow> u64 \<Rightarrow> bytes \<Rightarrow> bool" where
  "lan_request_authentic pr q public_key now nonce \<longleftrightarrow>
    cr_local_socket_nonce q = Some nonce
    \<and> (\<exists>a. parse_socket_addr (cr_endpoint q) = Some a \<and> show_socket a = cr_endpoint q
         \<and> 49152 \<le> socket_port a \<and> is_private_lan_unicast (socket_ip a))
    \<and> candidate_id (pr_sha256 pr) (requested_candidate q) = Inr (cr_candidate_id q)
    \<and> (\<exists>name index timestamp claim signature.
         cr_interface_name_hash q = Some name \<and> cr_interface_index_hash q = Some index
         \<and> cr_timestamp_epoch_millis q = Some timestamp
         \<and> abs_diff timestamp now \<le> LAN_INTERFACE_CLAIM_WINDOW_MILLIS
         \<and> canonical_encode (claim_fields q name index nonce timestamp) = Inr claim
         \<and> cr_local_interface_claim_hash q = Some (pr_sha256 pr claim)
         \<and> cr_local_interface_signature q = Some signature \<and> length signature = 64
         \<and> pr_verify pr public_key (pr_sha256 pr claim) signature = Some True)"

lemma verify_digest_signature_ok:
  "verify_digest_signature pr pk d sig = Inr u \<longleftrightarrow> pr_verify pr pk d sig = Some True"
  by (auto simp: verify_digest_signature_def split: option.splits)

lemma lan_request_checked_ok:
  assumes "lan_request_checked pr q sid dev role pk now = Inr (c, nonce)"
  shows "c = requested_candidate q" "cr_session_id q = sid" "cr_device_id q = dev" "cr_role q = role"
    "cr_kind q = LanDirect" "cr_source q = LocalInterface"
    "lan_request_authentic pr q pk now nonce"
  using assms
  by (auto simp: lan_request_checked_def result_simps validate_lan_endpoint_ok
      candidate_from_token_request_ok local_interface_claim_hash_def claim_canonical
      verify_digest_signature_ok lan_request_authentic_def not_less split: if_splits)

subsection \<open>The guard as a machine\<close>

record lan_op =
  lo_request :: candidate_token_request
  lo_session_id :: u128
  lo_device_id :: string
  lo_role :: session_role
  lo_public_key :: bytes
  lo_now :: u64

definition lan_step ::
    "primitives \<Rightarrow> lan_candidate_guard \<Rightarrow> lan_op
      \<Rightarrow> (binding_error + connection_candidate_dto) \<times> lan_candidate_guard" where
  "lan_step pr g x =
    lan_validate_request pr g (lo_request x) (lo_session_id x) (lo_device_id x) (lo_role x)
      (lo_public_key x) (lo_now x)"

definition lan_guard_ok :: "lan_candidate_guard \<Rightarrow> bool" where
  "lan_guard_ok g \<longleftrightarrow>
    (\<forall>slot cs. lg_accepted_candidates g slot = Some cs \<longrightarrow>
       finite cs \<and> card cs \<le> LAN_CANDIDATE_MAX_PER_DEVICE_SESSION)"

definition lan_claim_key :: "lan_op \<Rightarrow> binding_error + connection_candidate_dto
    \<Rightarrow> (string \<times> u128 \<times> bytes \<times> u128) option" where
  "lan_claim_key x r =
    (case (r, cr_local_socket_nonce (lo_request x)) of
       (Inr _, Some nonce) \<Rightarrow>
         Some (cr_device_id (lo_request x), cr_session_id (lo_request x), nonce,
               cr_candidate_id (lo_request x))
     | _ \<Rightarrow> None)"

lemma lan_validate_cases:
  assumes "lan_validate_request pr g q sid dev role pk now = (r, g')"
  obtains (refused) e where "r = Inl e" "lg_accepted_claims g' = lg_accepted_claims g"
      "lan_guard_ok g \<Longrightarrow> lan_guard_ok g'"
  | (accepted) c nonce cs where "r = Inr c"
      "lan_request_checked pr q sid dev role pk now = Inr (c, nonce)"
      "(cr_device_id q, cr_session_id q, nonce, cr_candidate_id q) \<notin> lg_accepted_claims g"
      "lg_accepted_claims g' =
         insert (cr_device_id q, cr_session_id q, nonce, cr_candidate_id q) (lg_accepted_claims g)"
      "cs = (case lg_accepted_candidates g (cr_session_id q, cr_device_id q) of
               None \<Rightarrow> {} | Some cs \<Rightarrow> cs)"
      "cr_candidate_id q \<in> cs \<or> card cs < LAN_CANDIDATE_MAX_PER_DEVICE_SESSION"
      "lg_accepted_candidates g' = (lg_accepted_candidates g)
         ((cr_session_id q, cr_device_id q) \<mapsto> insert (cr_candidate_id q) cs)"
proof (cases "lan_request_checked pr q sid dev role pk now")
  case (Inl e)
  with assms show ?thesis by (intro refused [of e]) (auto simp: lan_validate_request_def)
next
  case (Inr cn)
  obtain c nonce where cn: "cn = (c, nonce)" by fastforce
  let ?slot = "(cr_session_id q, cr_device_id q)"
  let ?key = "(cr_device_id q, cr_session_id q, nonce, cr_candidate_id q)"
  let ?cs = "case lg_accepted_candidates g ?slot of None \<Rightarrow> {} | Some cs \<Rightarrow> cs"
  show ?thesis
  proof (cases "?key \<in> lg_accepted_claims g")
    case True
    with assms Inr cn show ?thesis
      by (intro refused [of NonceReplay]) (auto simp: lan_validate_request_def Let_def)
  next
    case False
    show ?thesis
    proof (cases "cr_candidate_id q \<notin> ?cs \<and> card ?cs \<ge> LAN_CANDIDATE_MAX_PER_DEVICE_SESSION")
      case True
      then have "lg_accepted_candidates g ?slot = Some ?cs"
        by (auto simp: LAN_CANDIDATE_MAX_PER_DEVICE_SESSION_def split: option.splits)
      then have "(lg_accepted_candidates g)(?slot \<mapsto> ?cs) = lg_accepted_candidates g"
        by (rule fun_upd_idem)
      with assms Inr cn False True show ?thesis
        by (intro refused [of LanCandidateLimitExceeded])
          (auto simp: lan_validate_request_def Let_def)
    next
      case no: False
      with assms Inr cn False show ?thesis
        by (intro accepted [of c nonce ?cs]) (auto simp: lan_validate_request_def Let_def)
    qed
  qed
qed

lemma lan_step_facts:
  assumes ok: "lan_guard_ok g" and step: "lan_step pr g x = (r, g')"
  shows "lan_guard_ok g'" and "lg_accepted_claims g \<subseteq> lg_accepted_claims g'"
    and "lan_claim_key x r = Some k \<Longrightarrow> k \<notin> lg_accepted_claims g \<and> k \<in> lg_accepted_claims g'"
proof -
  let ?q = "lo_request x"
  have "lan_guard_ok g' \<and> lg_accepted_claims g \<subseteq> lg_accepted_claims g'
    \<and> (lan_claim_key x r = Some k \<longrightarrow> k \<notin> lg_accepted_claims g \<and> k \<in> lg_accepted_claims g')"
    using step unfolding lan_step_def
  proof (cases rule: lan_validate_cases)
    case (refused e)
    with ok show ?thesis by (simp add: lan_claim_key_def)
  next
    case (accepted c nonce cs)
    have cs: "finite cs" "card cs \<le> LAN_CANDIDATE_MAX_PER_DEVICE_SESSION"
      using ok accepted(5) by (auto simp: lan_guard_ok_def split: option.splits)
    then have "card (insert (cr_candidate_id ?q) cs) \<le> LAN_CANDIDATE_MAX_PER_DEVICE_SESSION"
      using accepted(6) by (auto simp: card_insert_if)
    then have "lan_guard_ok g'" using ok cs(1) accepted(7) by (auto simp: lan_guard_ok_def)
    moreover have "cr_local_socket_nonce ?q = Some nonce"
      using lan_request_checked_ok(7) [OF accepted(2)] by (simp add: lan_request_authentic_def)
    ultimately show ?thesis using accepted(1,3,4) by (auto simp: lan_claim_key_def)
  qed
  then show "lan_guard_ok g'" "lg_accepted_claims g \<subseteq> lg_accepted_claims g'"
    "lan_claim_key x r = Some k \<Longrightarrow> k \<notin> lg_accepted_claims g \<and> k \<in> lg_accepted_claims g'"
    by blast+
qed

interpretation lan_claims: at_most_once "lan_step pr" lan_guard_ok lan_claim_key
  lg_accepted_claims for pr
proof
  fix g :: lan_candidate_guard and x :: lan_op and k
  assume ok: "lan_guard_ok g"
  note facts = lan_step_facts [OF ok prod.collapse [symmetric], where pr = pr and x = x]
  show "lan_guard_ok (snd (lan_step pr g x))"
    and "lg_accepted_claims g \<subseteq> lg_accepted_claims (snd (lan_step pr g x))"
    by (rule facts)+
  assume "lan_claim_key x (fst (lan_step pr g x)) = Some k"
  then show "k \<notin> lg_accepted_claims g" "k \<in> lg_accepted_claims (snd (lan_step pr g x))"
    using facts(3) by blast+
qed

lemma lan_guard_default_ok: "lan_guard_ok lan_candidate_guard_default"
  by (simp add: lan_guard_ok_def lan_candidate_guard_default_def)

end
