(* ===== verification/Rc_Text.thy ===== *)
theory Rc_Text
  imports Rc_Net
begin

section \<open>Strings of the standard library\<close>

text \<open>
  The string functions of the Rust standard library that the program uses, on strings as
  sequences of UTF-8 bytes: splitting, searching, prefixes, ASCII classes, whitespace and
  control characters (recognised in their UTF-8 encodings) and the two digit hexadecimal
  form of bytes.
\<close>

fun split_once :: "char \<Rightarrow> string \<Rightarrow> (string \<times> string) option" where
  "split_once c [] = None"
| "split_once c (x # xs) =
    (if x = c then Some ([], xs) else map_option (apfst ((#) x)) (split_once c xs))"

fun split_on :: "char \<Rightarrow> string \<Rightarrow> string list" where
  "split_on c [] = [[]]"
| "split_on c (x # xs) =
    (if x = c then [] # split_on c xs
     else case split_on c xs of [] \<Rightarrow> [[x]] | y # ys \<Rightarrow> (x # y) # ys)"

fun strip_prefix :: "string \<Rightarrow> string \<Rightarrow> string option" where
  "strip_prefix [] s = Some s"
| "strip_prefix (p # ps) [] = None"
| "strip_prefix (p # ps) (x # xs) = (if p = x then strip_prefix ps xs else None)"

fun find_char :: "char \<Rightarrow> string \<Rightarrow> nat option" where
  "find_char c [] = None"
| "find_char c (x # xs) = (if x = c then Some 0 else map_option Suc (find_char c xs))"

definition rfind_char :: "char \<Rightarrow> string \<Rightarrow> nat option" where
  "rfind_char c s = map_option (\<lambda>i. length s - Suc i) (find_char c (rev s))"

definition byte :: "char \<Rightarrow> nat" where
  "byte c = of_char c"

definition is_ascii :: "string \<Rightarrow> bool" where
  "is_ascii s \<longleftrightarrow> list_all (\<lambda>c. byte c < 128) s"

definition is_ascii_control :: "char \<Rightarrow> bool" where
  "is_ascii_control c \<longleftrightarrow> byte c < 32 \<or> byte c = 127"

definition is_ascii_alphanumeric :: "char \<Rightarrow> bool" where
  "is_ascii_alphanumeric c \<longleftrightarrow>
    (48 \<le> byte c \<and> byte c \<le> 57) \<or> (65 \<le> byte c \<and> byte c \<le> 90) \<or> (97 \<le> byte c \<and> byte c \<le> 122)"

definition to_ascii_uppercase :: "string \<Rightarrow> string" where
  "to_ascii_uppercase = map (\<lambda>c. if 97 \<le> byte c \<and> byte c \<le> 122 then char_of (byte c - 32) else c)"

text \<open>\<^verbatim>\<open>s.trim().is_empty()\<close>: only characters with the Unicode property White\_Space.\<close>

fun trim_is_empty :: "string \<Rightarrow> bool" where
  "trim_is_empty [] = True"
| "trim_is_empty (a # s) =
    (if byte a \<in> {9, 10, 11, 12, 13, 32} then trim_is_empty s
     else
       case s of
         [] \<Rightarrow> False
       | b # s \<Rightarrow>
           if byte a = 0xC2 \<and> byte b \<in> {0x85, 0xA0} then trim_is_empty s
           else
             case s of
               [] \<Rightarrow> False
             | c # s \<Rightarrow>
                 ((byte a, byte b, byte c) \<in> {(0xE1, 0x9A, 0x80), (0xE2, 0x81, 0x9F), (0xE3, 0x80, 0x80)}
                  \<or> (byte a = 0xE2 \<and> byte b = 0x80
                     \<and> (0x80 \<le> byte c \<and> byte c \<le> 0x8A \<or> byte c \<in> {0xA8, 0xA9, 0xAF})))
                 \<and> trim_is_empty s)"

text \<open>\<^verbatim>\<open>s.chars().any(char::is_control)\<close>: U+0000 to U+001F and U+007F to U+009F.\<close>

fun has_control :: "string \<Rightarrow> bool" where
  "has_control [] = False"
| "has_control (a # s) =
    (byte a < 0x20 \<or> byte a = 0x7F
     \<or> (byte a = 0xC2 \<and> s \<noteq> [] \<and> 0x80 \<le> byte (hd s) \<and> byte (hd s) \<le> 0x9F)
     \<or> has_control s)"

text \<open>\<^verbatim>\<open>str::is_char_boundary\<close>\<close>

definition is_char_boundary :: "string \<Rightarrow> nat \<Rightarrow> bool" where
  "is_char_boundary s i \<longleftrightarrow>
    i = 0 \<or> i = length s \<or> (i < length s \<and> \<not> (128 \<le> byte (s ! i) \<and> byte (s ! i) < 192))"

text \<open>\<^verbatim>\<open>char::to_digit(16)\<close> and \<^verbatim>\<open>u8::from_str_radix(two_bytes, 16)\<close>, which takes a sign.\<close>

definition hex_digit :: "char \<Rightarrow> nat option" where
  "hex_digit c = to_digit 16 c"

definition u8_from_hex :: "char \<Rightarrow> char \<Rightarrow> u8 option" where
  "u8_from_hex a b =
    (if a = CHR ''+'' then map_option of_nat (hex_digit b)
     else
       case (hex_digit a, hex_digit b) of
         (Some h, Some l) \<Rightarrow> Some (of_nat (16 * h + l))
       | _ \<Rightarrow> None)"

text \<open>\<^verbatim>\<open>format!("{byte:02x}")\<close>\<close>

definition show_hex_byte :: "u8 \<Rightarrow> string" where
  "show_hex_byte b = [digit_char (unat b div 16), digit_char (unat b mod 16)]"

subsection \<open>Facts\<close>

lemma strip_prefix_Some: "strip_prefix p s = Some t \<longleftrightarrow> s = p @ t"
  by (induction p s rule: strip_prefix.induct) auto

lemma byte_less [simp]: "byte c < 256"
  by (simp add: byte_def)

lemma char_of_byte [simp]: "char_of (byte c) = c"
  by (simp add: byte_def)

lemma find_char_None: "find_char c s = None \<longleftrightarrow> c \<notin> set s"
  by (induction s) auto

lemma find_char_append: "c \<notin> set s \<Longrightarrow> find_char c (s @ c # t) = Some (length s)"
  by (induction s) auto

lemma split_on_not_Nil [simp]: "split_on c s \<noteq> []"
  by (induction s) (auto split: list.splits)

lemma split_on_no_sep: "x \<in> set (split_on c s) \<Longrightarrow> c \<notin> set x"
  by (induction s arbitrary: x) (auto split: list.splits if_splits)

lemma split_once_None: "c \<notin> set s \<Longrightarrow> split_once c s = None"
  by (induction s) auto

lemma split_once_append: "c \<notin> set s \<Longrightarrow> split_once c (s @ c # t) = Some (s, t)"
  by (induction s) auto

lemma split_on_join:
  "xs \<noteq> [] \<Longrightarrow> \<forall>x \<in> set xs. c \<notin> set x \<Longrightarrow> split_on c (join [c] xs) = xs"
proof (induction "[c]" xs rule: join.induct)
  case (2 x)
  have "c \<notin> set x \<Longrightarrow> split_on c x = [x]" by (induction x) auto
  with 2 show ?case by simp
next
  case (3 x y xs)
  have "c \<notin> set x \<Longrightarrow> split_on c (x @ c # t) = x # split_on c t" for t by (induction x) auto
  with 3 show ?case by simp
qed simp

lemma set_join: "set (join sep xs) \<subseteq> set sep \<union> \<Union> (set ` set xs)"
  by (induction sep xs rule: join.induct) auto

lemma hex_digit_char: "d < 16 \<Longrightarrow> hex_digit (digit_char d) = Some d"
  by (simp add: hex_digit_def to_digit_digit_char)

lemma byte_digit_char: "d < 16 \<Longrightarrow> byte (digit_char d) = (if d < 10 then 48 + d else 87 + d)"
  by (simp add: digit_char_def byte_def)

lemma digit_char_ascii: "d < 16 \<Longrightarrow> byte (digit_char d) < 128 \<and> digit_char d \<noteq> CHR ''+''
    \<and> digit_char d \<noteq> CHR ''.''"
proof -
  assume d: "d < 16"
  have "byte (CHR ''+'') = 43" "byte (CHR ''.'') = 46" by (simp_all add: byte_def)
  then have "digit_char d \<noteq> CHR ''+''" "digit_char d \<noteq> CHR ''.''"
    using byte_digit_char [OF d] by (auto split: if_splits)
  then show ?thesis using byte_digit_char [OF d] d by simp
qed

lemma u8_from_show_hex: "u8_from_hex (digit_char (unat b div 16)) (digit_char (unat b mod 16)) = Some b"
proof -
  have "unat b div 16 < 16" using unat_u8_bound [of b] by simp
  moreover have "of_nat (16 * (unat b div 16) + unat b mod 16) = b" by simp
  ultimately show ?thesis using digit_char_ascii
    by (simp add: u8_from_hex_def hex_digit_char del: of_nat_add of_nat_mult)
qed

end
