(* ===== verification/Rc_Target.thy ===== *)
theory Rc_Target
  imports Rc_Messages Rc_Text "HOL-Library.List_Lexorder" "HOL-Library.Char_ord"
    "HOL-Library.Product_Lexorder"
begin

section \<open>Canonical request targets\<close>

text \<open>
  \<^verbatim>\<open>crates/remote-protocol/src/canonical.rs\<close>, the part that normalises the method and target
  of an HTTP request before they are signed: percent encoding, removal of dot segments,
  sorting of the query. Nibbles are natural numbers below 16, so \<^verbatim>\<open>(high << 4) | low\<close> is
  \<open>16 * high + low\<close>. The lemmas relate dot removal to a stack of segments and show that a
  canonical target is a fixed point.
\<close>

subsection \<open>Percent encoding\<close>

definition is_unreserved :: "char \<Rightarrow> bool" where
  "is_unreserved c \<longleftrightarrow> is_ascii_alphanumeric c \<or> c \<in> set ''-._~''"

definition HEX :: string where
  "HEX = ''0123456789ABCDEF''"

definition push_percent_encoded :: "char \<Rightarrow> string" where
  "push_percent_encoded c = [CHR ''%'', HEX ! (byte c div 16), HEX ! (byte c mod 16)]"

definition hex_nibble :: "char \<Rightarrow> nat option" where
  "hex_nibble c =
    (if 48 \<le> byte c \<and> byte c \<le> 57 then Some (byte c - 48)
     else if 97 \<le> byte c \<and> byte c \<le> 102 then Some (byte c - 97 + 10)
     else if 65 \<le> byte c \<and> byte c \<le> 70 then Some (byte c - 65 + 10)
     else None)"

fun normalize_percent_encoding ::
    "(char \<Rightarrow> bool) \<Rightarrow> string \<Rightarrow> canonical_error + string" where
  "normalize_percent_encoding allowed [] = Inr []"
| "normalize_percent_encoding allowed (c # cs) =
    (if c = CHR ''%'' then
       case cs of
         h # l # rest \<Rightarrow>
           and_then (ok_or InvalidRequestTarget (hex_nibble h)) (\<lambda>high.
           and_then (ok_or InvalidRequestTarget (hex_nibble l)) (\<lambda>low.
           let decoded = char_of (16 * high + low) in
           map_ok ((@) (if is_unreserved decoded then [decoded] else push_percent_encoded decoded))
             (normalize_percent_encoding allowed rest)))
       | _ \<Rightarrow> Inl InvalidRequestTarget
     else
       map_ok ((@) (if allowed c then [c] else push_percent_encoded c))
         (normalize_percent_encoding allowed cs))"

definition path_char :: "char \<Rightarrow> bool" where
  "path_char c \<longleftrightarrow> is_unreserved c \<or> c \<in> set ''/:@!$&'()*+,;=''"

definition normalize_path :: "string \<Rightarrow> canonical_error + string" where
  "normalize_path path = normalize_percent_encoding path_char path"

definition normalize_query_component :: "string \<Rightarrow> canonical_error + string" where
  "normalize_query_component v = normalize_percent_encoding is_unreserved v"

subsection \<open>Dot segments\<close>

definition remove_last_path_segment :: "string \<Rightarrow> string" where
  "remove_last_path_segment output =
    take (case rfind_char (CHR ''/'') output of None \<Rightarrow> 0 | Some i \<Rightarrow> i) output"

definition segment_end :: "string \<Rightarrow> nat" where
  "segment_end input =
    (case strip_prefix ''/'' input of
       Some rest \<Rightarrow>
         (case find_char (CHR ''/'') rest of None \<Rightarrow> length input | Some index \<Rightarrow> index + 1)
     | None \<Rightarrow> (case find_char (CHR ''/'') input of None \<Rightarrow> length input | Some index \<Rightarrow> index))"

lemma segment_end_pos: "input \<noteq> [] \<Longrightarrow> 0 < segment_end input"
  by (cases input)
    (auto simp: segment_end_def split: option.splits)

function remove_dots :: "string \<Rightarrow> string \<Rightarrow> string" where
  "remove_dots input output =
    (if input = [] then output
     else
       case strip_prefix ''../'' input of
         Some rest \<Rightarrow> remove_dots rest output
       | None \<Rightarrow>
       case strip_prefix ''./'' input of
         Some rest \<Rightarrow> remove_dots rest output
       | None \<Rightarrow>
       case strip_prefix ''/./'' input of
         Some rest \<Rightarrow> remove_dots (CHR ''/'' # rest) output
       | None \<Rightarrow>
       if input = ''/.'' then remove_dots ''/'' output
       else
       case strip_prefix ''/../'' input of
         Some rest \<Rightarrow> remove_dots (CHR ''/'' # rest) (remove_last_path_segment output)
       | None \<Rightarrow>
       if input = ''/..'' then remove_dots ''/'' (remove_last_path_segment output)
       else if input = ''.'' \<or> input = ''..'' then remove_dots [] output
       else
         remove_dots (drop (segment_end input) input) (output @ take (segment_end input) input))"
  by pat_completeness auto
termination
  by (relation "measure (\<lambda>(input, output). length input)")
    (auto simp: strip_prefix_Some segment_end_pos)

declare remove_dots.simps [simp del]

definition remove_dot_segments :: "string \<Rightarrow> string" where
  "remove_dot_segments v = remove_dots v []"

subsection \<open>The target\<close>

type_synonym query_pair = "string \<times> string \<times> bool"

definition query_pair :: "string \<Rightarrow> canonical_error + query_pair" where
  "query_pair pair =
    (if pair = [] then Inl InvalidRequestTarget
     else
       let (key, v, had_equals) =
         (case split_once (CHR ''='') pair of
            None \<Rightarrow> (pair, [], False)
          | Some (key, v) \<Rightarrow> (key, v, True))
       in if key = [] then Inl InvalidRequestTarget
          else
            and_then (normalize_query_component key) (\<lambda>key.
            and_then (normalize_query_component v) (\<lambda>v.
            Inr (key, v, had_equals))))"

text \<open>\<^verbatim>\<open>.collect::<Result<Vec<_>, _>>()\<close>\<close>

fun collect_results :: "('e + 'a) list \<Rightarrow> 'e + 'a list" where
  "collect_results [] = Inr []"
| "collect_results (r # rs) = and_then r (\<lambda>x. map_ok ((#) x) (collect_results rs))"

definition show_pair :: "query_pair \<Rightarrow> string" where
  "show_pair p =
    (case p of (key, v, had_equals) \<Rightarrow> key @ (if had_equals then CHR ''='' # v else []))"

definition canonical_request_target :: "string \<Rightarrow> canonical_error + string" where
  "canonical_request_target v =
    (if v = [] \<or> strip_prefix ''/'' v = None \<or> \<not> is_ascii v
        \<or> list_ex (\<lambda>c. is_ascii_control c \<or> c = CHR 0x5C \<or> c = CHR ''#'') v
     then Inl InvalidRequestTarget
     else
       let (path, query) =
         (case split_once (CHR ''?'') v of
            None \<Rightarrow> (v, None)
          | Some (path, query) \<Rightarrow> (path, Some query))
       in and_then (normalize_path path) (\<lambda>path.
          let normalized_path = remove_dot_segments path in
          if normalized_path = [] \<or> strip_prefix ''/'' normalized_path = None
          then Inl InvalidRequestTarget
          else
            case query of
              None \<Rightarrow> Inr normalized_path
            | Some query \<Rightarrow>
                if query = [] then Inr normalized_path
                else if CHR ''+'' \<in> set query then Inl InvalidRequestTarget
                else
                  and_then (collect_results (map query_pair (split_on (CHR ''&'') query))) (\<lambda>pairs.
                  Inr (normalized_path @ CHR ''?'' # join ''&'' (map show_pair (sort pairs))))))"

definition canonical_http_method :: "string \<Rightarrow> canonical_error + string" where
  "canonical_http_method method =
    (if method = [] \<or> \<not> is_ascii method
        \<or> \<not> list_all (\<lambda>c. is_ascii_alphanumeric c \<or> c \<in> set ''!#$%&'*+-.^_`|~'') method
     then Inl InvalidHttpMethod
     else Inr (to_ascii_uppercase method))"

definition canonical_api_request_bytes ::
    "string \<Rightarrow> string \<Rightarrow> bytes \<Rightarrow> string \<Rightarrow> string \<Rightarrow> string \<Rightarrow> u64 \<Rightarrow> string
      \<Rightarrow> canonical_error + bytes" where
  "canonical_api_request_bytes method request_target body_hash request_id device_id account_id
      timestamp api_nonce =
    and_then (canonical_http_method method) (\<lambda>method.
    and_then (canonical_request_target request_target) (\<lambda>request_target.
    map_ok finish (and_then (writer_new ''rctl-api-input-v1'') (try_chain
      [push_str ''method'' method, push_str ''path'' request_target,
       push_field ''body_hash'' body_hash, push_str ''request_id'' request_id,
       push_str ''device_id'' device_id, push_str ''account_id'' account_id,
       push_u64 ''timestamp'' timestamp, push_str ''api_nonce'' api_nonce]))))"

definition canonical_operation_binding_bytes ::
    "string \<Rightarrow> string \<Rightarrow> string \<Rightarrow> string \<Rightarrow> string \<Rightarrow> bytes \<Rightarrow> string \<Rightarrow> u64
      \<Rightarrow> canonical_error + bytes" where
  "canonical_operation_binding_bytes account_id device_id purpose method request_target body_hash
      request_id expires_at =
    and_then (canonical_http_method method) (\<lambda>method.
    and_then (canonical_request_target request_target) (\<lambda>request_target.
    map_ok finish (and_then (writer_new ''rctl-operation-binding-v1'') (try_chain
      [push_str ''account_id'' account_id, push_str ''device_id'' device_id,
       push_str ''purpose'' purpose, push_str ''method'' method,
       push_str ''path'' request_target, push_field ''body_hash'' body_hash,
       push_str ''request_id'' request_id,
       push_u64 ''expires_at_epoch_millis'' expires_at]))))"

definition canonical_idempotency_binding_bytes ::
    "string \<Rightarrow> string \<Rightarrow> string \<Rightarrow> string \<Rightarrow> bytes \<Rightarrow> canonical_error + bytes" where
  "canonical_idempotency_binding_bytes account_id device_id method request_target body_hash =
    and_then (canonical_http_method method) (\<lambda>method.
    and_then (canonical_request_target request_target) (\<lambda>request_target.
    map_ok finish (and_then (writer_new ''rctl-idempotency-binding-v1'') (try_chain
      [push_str ''account_id'' account_id, push_str ''device_id'' device_id,
       push_str ''method'' method, push_str ''path'' request_target,
       push_field ''body_hash'' body_hash]))))"

subsection \<open>Normal forms of percent encoding\<close>

text \<open>A string in which every escape is needed and written with capital digits.\<close>

fun percent_normal :: "(char \<Rightarrow> bool) \<Rightarrow> string \<Rightarrow> bool" where
  "percent_normal allowed [] = True"
| "percent_normal allowed (c # cs) =
    (if c = CHR ''%'' then
       case cs of
         h # l # rest \<Rightarrow>
           (\<exists>d. push_percent_encoded d = [c, h, l] \<and> \<not> is_unreserved d) \<and> percent_normal allowed rest
       | _ \<Rightarrow> False
     else allowed c \<and> percent_normal allowed cs)"

lemma HEX_cases: "n < 16 \<Longrightarrow> n \<in> {0, 1, 2, 3, 4, 5, 6, 7, 8, 9, 10, 11, 12, 13, 14, 15 :: nat}"
  by (auto simp: numeral_eq_Suc less_Suc_eq)

lemma hex_nibble_HEX: "n < 16 \<Longrightarrow> hex_nibble (HEX ! n) = Some n"
  using HEX_cases [of n] by (auto simp: HEX_def hex_nibble_def byte_def)

lemma unreserved_HEX: "n < 16 \<Longrightarrow> is_unreserved (HEX ! n)"
  using HEX_cases [of n] by (auto simp: HEX_def is_unreserved_def is_ascii_alphanumeric_def byte_def)

lemma decoded_percent: "push_percent_encoded d = [c, h, l] \<Longrightarrow>
    c = CHR ''%'' \<and> (\<exists>high low. hex_nibble h = Some high \<and> hex_nibble l = Some low
      \<and> char_of (16 * high + low) = d)"
  using hex_nibble_HEX [of "byte d div 16"] hex_nibble_HEX [of "byte d mod 16"]
  by (auto simp: push_percent_encoded_def less_mult_imp_div_less)

lemma normal_normalize: "percent_normal allowed s \<Longrightarrow> normalize_percent_encoding allowed s = Inr s"
proof (induction allowed s rule: percent_normal.induct)
  case (1 allowed)
  then show ?case by simp
next
  case (2 allowed c cs)
  show ?case
  proof (cases "c = CHR ''%''")
    case True
    with 2 obtain h l rest d where cs: "cs = h # l # rest"
      and d: "push_percent_encoded d = [c, h, l]" "\<not> is_unreserved d"
      and rest: "percent_normal allowed rest"
      by (auto split: list.splits)
    have "normalize_percent_encoding allowed rest = Inr rest"
      using 2(1) True cs rest by simp
    with decoded_percent [OF d(1)] d True cs show ?thesis by (auto simp: Let_def)
  next
    case False
    with 2 show ?thesis by simp
  qed
qed

lemma percent_normal_escape:
  "\<not> is_unreserved d \<Longrightarrow> percent_normal allowed (push_percent_encoded d @ t) = percent_normal allowed t"
  by (auto simp: push_percent_encoded_def)

lemma normalize_normal:
  assumes "\<And>c. is_unreserved c \<Longrightarrow> allowed c" "\<not> allowed (CHR ''%'')"
    and "normalize_percent_encoding allowed s = Inr t"
  shows "percent_normal allowed t"
  using assms
proof (induction allowed s arbitrary: t rule: normalize_percent_encoding.induct)
  case (1 allowed)
  then show ?case by simp
next
  case (2 allowed c cs)
  have raw: "percent_normal allowed (d # u) = percent_normal allowed u" if "allowed d" for d u
    using that 2(4) by auto
  show ?case
  proof (cases "c = CHR ''%''")
    case True
    with 2(5) obtain h l rest high low u where cs: "cs = h # l # rest"
      and hl: "hex_nibble h = Some high" "hex_nibble l = Some low"
      and u: "normalize_percent_encoding allowed rest = Inr u"
      and t: "t = (if is_unreserved (char_of (16 * high + low)) then [char_of (16 * high + low)]
        else push_percent_encoded (char_of (16 * high + low))) @ u"
      by (auto simp: result_simps Let_def split: list.splits)
    have "percent_normal allowed u"
      using 2(1) [OF True cs refl] hl 2(3,4) u by simp
    then show ?thesis
      using t raw 2(3) by (simp add: percent_normal_escape)
  next
    case False
    with 2(5) obtain u where u: "normalize_percent_encoding allowed cs = Inr u"
      and t: "t = (if allowed c then [c] else push_percent_encoded c) @ u"
      by (auto simp: result_simps)
    have "percent_normal allowed u" using 2(2) False 2(3,4) u by simp
    then show ?thesis using t raw [of c u] percent_normal_escape [of c allowed u] 2(3) by auto
  qed
qed

lemma percent_normal_chars:
  assumes "\<And>c. is_unreserved c \<Longrightarrow> allowed c" and "percent_normal allowed s" and "c \<in> set s"
  shows "c = CHR ''%'' \<or> allowed c"
  using assms
proof (induction allowed s rule: percent_normal.induct)
  case (1 allowed)
  then show ?case by simp
next
  case (2 allowed d cs)
  show ?case
  proof (cases "d = CHR ''%''")
    case True
    with 2(4) obtain h l rest e where cs: "cs = h # l # rest"
      and e: "push_percent_encoded e = [d, h, l]" and rest: "percent_normal allowed rest"
      by (auto split: list.splits)
    have "is_unreserved h" "is_unreserved l"
      using e unreserved_HEX [of "byte e div 16"] unreserved_HEX [of "byte e mod 16"]
      by (auto simp: push_percent_encoded_def less_mult_imp_div_less)
    then show ?thesis using 2(1) [OF True cs refl 2(3) rest] 2(3,5) True cs by auto
  next
    case False
    then show ?thesis using 2(2) 2(3-5) by auto
  qed
qed

text \<open>A slash is never part of an escape, so normal forms split at slashes.\<close>

lemma percent_normal_slash:
  assumes "allowed (CHR ''/'')"
  shows "percent_normal allowed (s @ CHR ''/'' # t) \<longleftrightarrow>
    percent_normal allowed s \<and> percent_normal allowed t"
  using assms
proof (induction allowed s rule: percent_normal.induct)
  case (1 allowed)
  then show ?case by simp
next
  case (2 allowed c cs)
  have slash: "push_percent_encoded d \<noteq> [e, CHR ''/'', f]" "push_percent_encoded d \<noteq> [e, f, CHR ''/'']"
    for d e f
    using unreserved_HEX [of "byte d div 16"] unreserved_HEX [of "byte d mod 16"]
    by (auto simp: push_percent_encoded_def less_mult_imp_div_less is_unreserved_def
        is_ascii_alphanumeric_def byte_def)
  show ?case
  proof (cases "c = CHR ''%''")
    case True
    consider "cs = []" | h where "cs = [h]" | h l rest where "cs = h # l # rest"
      by (cases cs rule: remdups_adj.cases) auto
    then show ?thesis
    proof cases
      case 1
      with True slash(1) show ?thesis by (simp split: list.split)
    next
      case 2
      with True slash(2) show ?thesis by simp
    next
      case 3
      with True 2(1) [OF True 3 refl] 2(3) show ?thesis by simp
    qed
  next
    case False
    then show ?thesis using 2(2,3) by simp
  qed
qed

subsection \<open>Dot removal is a stack of segments\<close>

definition slashed :: "string list \<Rightarrow> string" where
  "slashed segs = concat (map ((#) (CHR ''/'')) segs)"

text \<open>The specification: a stack of segments; a dot segment at the end leaves an empty one.\<close>

fun resolve_segments :: "string list \<Rightarrow> string list \<Rightarrow> string list" where
  "resolve_segments st [] = st"
| "resolve_segments st (s # ss) =
    (if s = ''.'' then (if ss = [] then st @ [[]] else resolve_segments st ss)
     else if s = ''..'' then (if ss = [] then butlast st @ [[]] else resolve_segments (butlast st) ss)
     else resolve_segments (st @ [s]) ss)"

lemma slashed_simps [simp]:
  "slashed [] = []" "slashed (s # ss) = CHR ''/'' # s @ slashed ss"
  "slashed (xs @ ys) = slashed xs @ slashed ys"
  by (simp_all add: slashed_def)

lemma remove_last_slashed:
  assumes "CHR ''/'' \<notin> set s"
  shows "remove_last_path_segment (p @ CHR ''/'' # s) = p"
proof -
  have "find_char (CHR ''/'') (rev s @ CHR ''/'' # rev p) = Some (length s)"
    using assms find_char_append [of "CHR ''/''" "rev s"] by simp
  then show ?thesis by (simp add: remove_last_path_segment_def rfind_char_def)
qed

lemma remove_last_slashed_segments:
  "\<forall>s \<in> set st. CHR ''/'' \<notin> set s \<Longrightarrow>
    remove_last_path_segment (slashed st) = slashed (butlast st)"
proof (cases st rule: rev_cases)
  case Nil
  then show ?thesis by (simp add: remove_last_path_segment_def)
next
  case (snoc ys y)
  moreover assume "\<forall>s \<in> set st. CHR ''/'' \<notin> set s"
  ultimately show ?thesis by (simp add: remove_last_slashed)
qed

lemma remove_dots_empty: "remove_dots [] output = output"
  by (simp add: remove_dots.simps)

lemma segment_end_slashed:
  assumes "CHR ''/'' \<notin> set s"
  shows "segment_end (CHR ''/'' # s @ slashed ss) = Suc (length s)"
proof (cases ss)
  case Nil
  have "find_char (CHR ''/'') s = None" using assms by (simp add: find_char_None)
  with Nil show ?thesis by (simp add: segment_end_def)
next
  case (Cons t ts)
  with assms show ?thesis by (simp add: segment_end_def find_char_append)
qed

lemma strip_segment:
  "CHR ''/'' \<notin> set p \<Longrightarrow> CHR ''/'' \<notin> set s \<Longrightarrow>
    strip_prefix (p @ ''/'') (s @ slashed ss) =
      (if s = p \<and> ss \<noteq> [] then Some (tl (slashed ss)) else None)"
proof (induction p arbitrary: s)
  case Nil
  then show ?case by (cases s; cases ss) auto
next
  case (Cons a p)
  then show ?case by (cases s; cases ss) auto
qed

lemmas strip_dot = strip_segment [of "''.''", simplified] strip_segment [of "''..''", simplified]

lemma slashed_not_Nil: "slashed ss = [] \<longleftrightarrow> ss = []"
  by (cases ss) simp_all

lemma slashed_tl: "ss \<noteq> [] \<Longrightarrow> CHR ''/'' # tl (slashed ss) = slashed ss"
  by (cases ss) simp_all

lemma remove_dots_step:
  assumes s: "CHR ''/'' \<notin> set s"
  shows "remove_dots (slashed (s # ss)) output =
    (if s = ''.'' then remove_dots (if ss = [] then ''/'' else slashed ss) output
     else if s = ''..''
     then remove_dots (if ss = [] then ''/'' else slashed ss) (remove_last_path_segment output)
     else remove_dots (slashed ss) (output @ CHR ''/'' # s))"
proof -
  have eq: "s @ slashed ss = ''.'' \<longleftrightarrow> s = ''.'' \<and> ss = []"
    "s @ slashed ss = ''..'' \<longleftrightarrow> s = ''..'' \<and> ss = []"
    using s by (cases ss; auto simp: append_eq_Cons_conv)+
  show ?thesis
    using s segment_end_slashed [OF s, of ss]
    by (subst remove_dots.simps) (simp add: strip_dot eq slashed_tl)
qed

lemma remove_dots_slash: "remove_dots ''/'' out = out @ ''/''"
  using remove_dots_step [of "[]" "[]" out] by (simp add: remove_dots_empty)

lemma remove_dots_resolve:
  "\<forall>s \<in> set ss. CHR ''/'' \<notin> set s \<Longrightarrow> \<forall>s \<in> set st. CHR ''/'' \<notin> set s \<Longrightarrow>
    remove_dots (slashed ss) (slashed st) = slashed (resolve_segments st ss)"
proof (induction ss arbitrary: st)
  case Nil
  then show ?case by (simp add: remove_dots_empty)
next
  case (Cons s ss)
  have s: "CHR ''/'' \<notin> set s" using Cons.prems(1) by simp
  have last: "remove_last_path_segment (slashed st) = slashed (butlast st)"
    using Cons.prems(2) by (rule remove_last_slashed_segments)
  have "\<forall>s \<in> set (butlast st). CHR ''/'' \<notin> set s" using Cons.prems(2) by (auto dest: in_set_butlastD)
  moreover have "\<forall>s \<in> set (st @ [s]). CHR ''/'' \<notin> set s" using Cons.prems by simp
  ultimately have IH: "remove_dots (slashed ss) (slashed st) = slashed (resolve_segments st ss)"
    "remove_dots (slashed ss) (slashed (butlast st)) = slashed (resolve_segments (butlast st) ss)"
    "remove_dots (slashed ss) (slashed (st @ [s])) = slashed (resolve_segments (st @ [s]) ss)"
    using Cons.IH [of st] Cons.IH [of "butlast st"] Cons.IH [of "st @ [s]"] Cons.prems by simp_all
  show ?case
    unfolding remove_dots_step [OF s] last using IH by (simp add: remove_dots_slash)
qed

lemma resolve_no_dots:
  "\<forall>s \<in> set st. s \<noteq> ''.'' \<and> s \<noteq> ''..'' \<Longrightarrow> s \<in> set (resolve_segments st ss) \<Longrightarrow>
    s \<noteq> ''.'' \<and> s \<noteq> ''..''"
  by (induction st ss rule: resolve_segments.induct)
    (auto split: if_splits dest: in_set_butlastD)

lemma resolve_subset: "set (resolve_segments st ss) \<subseteq> insert [] (set st \<union> set ss)"
proof (induction st ss rule: resolve_segments.induct)
  case (1 st)
  then show ?case by auto
next
  case (2 st s ss)
  then show ?case by (auto split: if_splits dest!: in_set_butlastD)
qed

lemma resolve_id:
  "\<forall>s \<in> set ss. s \<noteq> ''.'' \<and> s \<noteq> ''..'' \<Longrightarrow> resolve_segments st ss = st @ ss"
  by (induction ss arbitrary: st) simp_all

lemma resolve_not_Nil: "ss \<noteq> [] \<Longrightarrow> resolve_segments st ss \<noteq> []"
proof (induction ss arbitrary: st)
  case Nil
  then show ?case by simp
next
  case (Cons s ss)
  then show ?case by (cases ss) auto
qed

lemma slashed_split_on: "slashed (split_on (CHR ''/'') s) = CHR ''/'' # s"
proof (induction s)
  case Nil
  then show ?case by simp
next
  case (Cons a s)
  then show ?case by (cases "split_on (CHR ''/'') s") auto
qed

text \<open>The normalised path, as a stack of segments.\<close>

lemma remove_dot_segments_resolve:
  "remove_dot_segments (CHR ''/'' # q) =
    slashed (resolve_segments [] (split_on (CHR ''/'') q))"
  using remove_dots_resolve [of "split_on (CHR ''/'') q" "[]"] split_on_no_sep
  by (auto simp: remove_dot_segments_def slashed_split_on)

lemma percent_normal_slashed:
  "allowed (CHR ''/'') \<Longrightarrow> percent_normal allowed (slashed ss) \<longleftrightarrow> (\<forall>s \<in> set ss. percent_normal allowed s)"
proof (induction ss)
  case Nil
  then show ?case by simp
next
  case (Cons s ss)
  have "percent_normal allowed (s @ slashed ss) \<longleftrightarrow>
      percent_normal allowed s \<and> percent_normal allowed (slashed ss)"
    using Cons.prems percent_normal_slash [of allowed s] by (cases ss) simp_all
  then show ?case using Cons by simp
qed

definition path_canonical :: "string \<Rightarrow> bool" where
  "path_canonical p \<longleftrightarrow>
    (\<exists>ss. ss \<noteq> [] \<and> p = slashed ss
      \<and> (\<forall>s \<in> set ss. s \<noteq> ''.'' \<and> s \<noteq> ''..'' \<and> CHR ''/'' \<notin> set s \<and> percent_normal path_char s))"

lemma path_char_facts:
  "is_unreserved c \<Longrightarrow> path_char c" "\<not> path_char (CHR ''%'')" "path_char (CHR ''/'')"
  by (simp_all add: path_char_def is_unreserved_def is_ascii_alphanumeric_def byte_def)

lemma normalized_path_canonical:
  assumes "normalize_path (CHR ''/'' # q) = Inr p"
  shows "path_canonical (remove_dot_segments p)"
proof -
  have pn: "percent_normal path_char p"
    using assms normalize_normal path_char_facts unfolding normalize_path_def by blast
  obtain p' where p: "p = CHR ''/'' # p'"
    using assms by (auto simp: normalize_path_def path_char_facts result_simps)
  let ?ss = "split_on (CHR ''/'') p'"
  let ?rs = "resolve_segments [] ?ss"
  have ss: "\<forall>s \<in> set ?ss. percent_normal path_char s"
    using pn percent_normal_slashed [of path_char ?ss] path_char_facts(3)
    by (simp add: p slashed_split_on)
  have "\<forall>s \<in> set ?rs. s \<noteq> ''.'' \<and> s \<noteq> ''..'' \<and> CHR ''/'' \<notin> set s \<and> percent_normal path_char s"
    using resolve_no_dots [of "[]" _ ?ss] resolve_subset [of "[]" ?ss] split_on_no_sep ss by fastforce
  moreover have "?rs \<noteq> []" by (simp add: resolve_not_Nil)
  ultimately show ?thesis
    unfolding path_canonical_def p remove_dot_segments_resolve by blast
qed

lemma path_canonical_fixed:
  assumes "path_canonical p"
  shows "normalize_path p = Inr p" "remove_dot_segments p = p" "\<exists>q. p = CHR ''/'' # q"
proof -
  obtain ss where ss: "ss \<noteq> []" "p = slashed ss"
    "\<forall>s \<in> set ss. s \<noteq> ''.'' \<and> s \<noteq> ''..'' \<and> CHR ''/'' \<notin> set s \<and> percent_normal path_char s"
    using assms unfolding path_canonical_def by blast
  then show "normalize_path p = Inr p"
    using normal_normalize percent_normal_slashed path_char_facts(3)
    by (simp add: normalize_path_def)
  show "remove_dot_segments p = p"
    using remove_dots_resolve [of ss "[]"] ss resolve_id [of ss "[]"]
    by (simp add: remove_dot_segments_def)
  show "\<exists>q. p = CHR ''/'' # q" using ss(1,2) by (cases ss) auto
qed

subsection \<open>Canonical queries\<close>

text \<open>A pair as it stands in a canonical query.\<close>

definition pair_canonical :: "query_pair \<Rightarrow> bool" where
  "pair_canonical p \<longleftrightarrow>
    (case p of (key, v, had_equals) \<Rightarrow>
       key \<noteq> [] \<and> percent_normal is_unreserved key \<and> percent_normal is_unreserved v
       \<and> (had_equals \<or> v = []))"

lemma query_chars:
  assumes "percent_normal is_unreserved s" "c \<in> set s"
  shows "c = CHR ''%'' \<or> is_unreserved c"
  by (rule percent_normal_chars [OF _ assms])

lemma unreserved_separators:
  "\<not> is_unreserved (CHR ''='')" "\<not> is_unreserved (CHR ''&'')" "\<not> is_unreserved (CHR ''?'')"
  "\<not> is_unreserved (CHR ''+'')" "\<not> is_unreserved (CHR ''#'')" "\<not> is_unreserved (CHR ''%'')"
  by (simp_all add: is_unreserved_def is_ascii_alphanumeric_def byte_def)

lemma normalize_not_Nil:
  "normalize_percent_encoding allowed s = Inr t \<Longrightarrow> t = [] \<longleftrightarrow> s = []"
  by (cases s) (auto simp: result_simps Let_def push_percent_encoded_def split: if_splits list.splits)

lemma query_pair_canonical: "query_pair s = Inr p \<Longrightarrow> pair_canonical p"
proof -
  assume pair: "query_pair s = Inr p"
  obtain key v e where kv: "(key, v, e) = (case split_once (CHR ''='') s of
      None \<Rightarrow> (s, [], False) | Some (key, v) \<Rightarrow> (key, v, True))" and v: "e \<or> v = []"
    by (cases "split_once (CHR ''='') s") auto
  then obtain key' v' where "key \<noteq> []" "p = (key', v', e)"
    "normalize_percent_encoding is_unreserved key = Inr key'"
    "normalize_percent_encoding is_unreserved v = Inr v'"
    using pair by (auto simp: query_pair_def normalize_query_component_def Let_def result_simps
        split: if_splits prod.splits option.splits)
  then show ?thesis
    using v normalize_not_Nil normalize_normal [of is_unreserved] unreserved_separators(6)
    by (auto simp: pair_canonical_def)
qed

lemma query_pair_show:
  assumes "pair_canonical p"
  shows "query_pair (show_pair p) = Inr p"
proof -
  obtain key v e where p: "p = (key, v, e)" by (cases p)
  have ok: "key \<noteq> []" "percent_normal is_unreserved key" "percent_normal is_unreserved v" "e \<or> v = []"
    using assms by (simp_all add: p pair_canonical_def)
  have "CHR ''='' \<notin> set key"
    using query_chars [OF ok(2)] unreserved_separators(1) by auto
  then show ?thesis
    using ok normal_normalize [OF ok(2)] normal_normalize [OF ok(3)]
    by (auto simp: p query_pair_def show_pair_def split_once_None split_once_append
        normalize_query_component_def)
qed

lemma show_pair_chars:
  assumes "pair_canonical p" "c \<in> set (show_pair p)"
  shows "c = CHR ''%'' \<or> c = CHR ''='' \<or> is_unreserved c"
  using assms query_chars
  by (auto simp: pair_canonical_def show_pair_def split: prod.splits if_splits)

lemma collect_results_ok:
  "collect_results rs = Inr xs \<longleftrightarrow> rs = map Inr xs"
  by (induction rs arbitrary: xs) (auto simp: result_simps Cons_eq_map_conv)

subsection \<open>Canonical targets are fixed points\<close>

definition target_char :: "char \<Rightarrow> bool" where
  "target_char c \<longleftrightarrow> byte c < 128 \<and> \<not> is_ascii_control c \<and> c \<noteq> CHR 0x5C \<and> c \<noteq> CHR ''#''"

lemma target_chars:
  "path_char c \<Longrightarrow> target_char c" "is_unreserved c \<Longrightarrow> target_char c"
  "target_char (CHR ''%'')" "target_char (CHR ''='')" "target_char (CHR ''&'')"
  "target_char (CHR ''?'')"
  by (auto simp: target_char_def path_char_def is_unreserved_def is_ascii_alphanumeric_def
      is_ascii_control_def byte_def)

lemma path_canonical_chars:
  assumes "path_canonical p" "c \<in> set p"
  shows "c = CHR ''%'' \<or> path_char c"
proof -
  obtain ss where "p = slashed ss" "\<forall>s \<in> set ss. percent_normal path_char s"
    using assms(1) unfolding path_canonical_def by blast
  then have "percent_normal path_char p"
    using percent_normal_slashed path_char_facts(3) by simp
  from percent_normal_chars [OF path_char_facts(1) this assms(2)] show ?thesis .
qed

definition target_canonical :: "string \<Rightarrow> bool" where
  "target_canonical t \<longleftrightarrow>
    (\<exists>p. path_canonical p \<and>
      (t = p \<or> (\<exists>ps. ps \<noteq> [] \<and> sorted ps \<and> (\<forall>x \<in> set ps. pair_canonical x)
         \<and> t = p @ CHR ''?'' # join ''&'' (map show_pair ps))))"

lemma strip_slash: "strip_prefix ''/'' v \<noteq> None \<longleftrightarrow> (\<exists>q. v = CHR ''/'' # q)"
  by (cases v) auto

lemma split_once_slash:
  "split_once (CHR ''?'') (CHR ''/'' # q) = Some (path, query) \<Longrightarrow> \<exists>p. path = CHR ''/'' # p"
  by (auto simp: map_option_case split: option.splits)

lemma canonical_request_target_canonical:
  assumes "canonical_request_target v = Inr t"
  shows "target_canonical t"
proof -
  obtain q where v: "v = CHR ''/'' # q"
    using assms strip_slash [of v] by (auto simp: canonical_request_target_def split: if_splits)
  obtain path query where split: "(case split_once (CHR ''?'') v of
      None \<Rightarrow> (v, None) | Some (path, query) \<Rightarrow> (path, Some query)) = (path, query)"
    by fastforce
  then obtain path' where path: "path = CHR ''/'' # path'"
    using v split_once_slash by (auto split: option.splits)
  obtain p where norm: "normalize_path path = Inr p"
    and t: "t = remove_dot_segments p
      \<or> (\<exists>s pairs. collect_results (map query_pair (split_on (CHR ''&'') s)) = Inr pairs
           \<and> t = remove_dot_segments p @ CHR ''?'' # join ''&'' (map show_pair (sort pairs)))"
    using assms unfolding canonical_request_target_def split
    by (auto simp: Let_def result_simps split: if_splits option.splits) blast+
  have canon: "path_canonical (remove_dot_segments p)"
    using norm path normalized_path_canonical by blast
  from t show ?thesis
  proof
    assume "t = remove_dot_segments p"
    with canon show ?thesis unfolding target_canonical_def by blast
  next
    assume "\<exists>s pairs. collect_results (map query_pair (split_on (CHR ''&'') s)) = Inr pairs
      \<and> t = remove_dot_segments p @ CHR ''?'' # join ''&'' (map show_pair (sort pairs))"
    then obtain s pairs where pairs: "map query_pair (split_on (CHR ''&'') s) = map Inr pairs"
      and t: "t = remove_dot_segments p @ CHR ''?'' # join ''&'' (map show_pair (sort pairs))"
      by (auto simp: collect_results_ok)
    have "pairs \<noteq> []" using pairs by (metis list.map_disc_iff split_on_not_Nil)
    then have "sort pairs \<noteq> []" by (metis length_sort length_0_conv)
    moreover have "pair_canonical x" if "x \<in> set pairs" for x
    proof -
      have "Inr x \<in> set (map query_pair (split_on (CHR ''&'') s))"
        unfolding pairs using that by simp
      then obtain y where "query_pair y = Inr x" by auto
      then show ?thesis by (rule query_pair_canonical)
    qed
    ultimately show ?thesis
      unfolding target_canonical_def using canon t
      by (intro exI [of _ "remove_dot_segments p"] conjI disjI2 exI [of _ "sort pairs"])
        simp_all
  qed
qed

lemma target_canonical_fixed:
  assumes "target_canonical t"
  shows "canonical_request_target t = Inr t"
proof -
  obtain p where p: "path_canonical p"
    and t: "t = p \<or> (\<exists>ps. ps \<noteq> [] \<and> sorted ps \<and> (\<forall>x \<in> set ps. pair_canonical x)
         \<and> t = p @ CHR ''?'' # join ''&'' (map show_pair ps))"
    using assms unfolding target_canonical_def by blast
  note fixed = path_canonical_fixed [OF p]
  obtain q where q: "p = CHR ''/'' # q" using fixed(3) by blast
  have pchars: "c \<in> set p \<Longrightarrow> target_char c" for c
    using path_canonical_chars [OF p] target_chars by blast
  have no_question: "CHR ''?'' \<notin> set p"
    using path_canonical_chars [OF p, of "CHR ''?''"] unreserved_separators
    by (auto simp: path_char_def)
  have guards: "is_ascii t \<and> \<not> list_ex (\<lambda>c. is_ascii_control c \<or> c = CHR 0x5C \<or> c = CHR ''#'') t"
    if "\<And>c. c \<in> set t \<Longrightarrow> target_char c"
    using that by (auto simp: is_ascii_def list_all_iff list_ex_iff target_char_def)
  from t show ?thesis
  proof
    assume tp: "t = p"
    then have "is_ascii t \<and> \<not> list_ex (\<lambda>c. is_ascii_control c \<or> c = CHR 0x5C \<or> c = CHR ''#'') t"
      using guards pchars by blast
    then show ?thesis
      using fixed(1,2) split_once_None [OF no_question] q tp
      by (simp add: canonical_request_target_def)
  next
    assume "\<exists>ps. ps \<noteq> [] \<and> sorted ps \<and> (\<forall>x \<in> set ps. pair_canonical x)
      \<and> t = p @ CHR ''?'' # join ''&'' (map show_pair ps)"
    then obtain ps where ps: "ps \<noteq> []" "sorted ps" "\<forall>x \<in> set ps. pair_canonical x"
      and tq: "t = p @ CHR ''?'' # join ''&'' (map show_pair ps)" by blast
    let ?query = "join ''&'' (map show_pair ps)"
    have qchars: "c = CHR ''&'' \<or> c = CHR ''%'' \<or> c = CHR ''='' \<or> is_unreserved c" if "c \<in> set ?query" for c
      using that set_join [of "''&''" "map show_pair ps"] show_pair_chars ps(3) by fastforce
    have "c \<in> set t \<Longrightarrow> target_char c" for c
      using tq pchars qchars target_chars by auto
    then have g: "is_ascii t \<and> \<not> list_ex (\<lambda>c. is_ascii_control c \<or> c = CHR 0x5C \<or> c = CHR ''#'') t"
      by (rule guards)
    have no_amp: "\<forall>x \<in> set (map show_pair ps). CHR ''&'' \<notin> set x"
      using show_pair_chars ps(3) unreserved_separators by fastforce
    have split: "split_on (CHR ''&'') ?query = map show_pair ps"
      using split_on_join [OF _ no_amp] ps(1) by simp
    have "?query \<noteq> []"
    proof
      assume "?query = []"
      then have "map show_pair ps = [[]]" using split by simp
      then obtain x where "ps = [x]" "show_pair x = []" by auto
      then show False using ps(3) by (auto simp: pair_canonical_def show_pair_def)
    qed
    moreover have "CHR ''+'' \<notin> set ?query"
      using qchars [of "CHR ''+''"] unreserved_separators by auto
    moreover have "collect_results (map query_pair (split_on (CHR ''&'') ?query)) = Inr ps"
      unfolding split collect_results_ok using ps(3) query_pair_show by simp
    ultimately show ?thesis
      using g fixed(1,2) split_once_append [OF no_question, of ?query] q ps(2) tq
      by (simp add: canonical_request_target_def sorted_sort_id)
  qed
qed

lemma canonical_request_target_idem:
  "canonical_request_target v = Inr t \<Longrightarrow> canonical_request_target t = Inr t"
  by (rule target_canonical_fixed [OF canonical_request_target_canonical])

subsection \<open>What the signed request bytes determine\<close>

definition api_request_fields where
  "api_request_fields method target body_hash request_id device_id account_id timestamp api_nonce =
    [(''domain'', str_bytes ''rctl-api-input-v1''), (''method'', str_bytes method),
     (''path'', str_bytes target), (''body_hash'', body_hash),
     (''request_id'', str_bytes request_id), (''device_id'', str_bytes device_id),
     (''account_id'', str_bytes account_id), (''timestamp'', to_be_bytes (timestamp :: u64)),
     (''api_nonce'', str_bytes api_nonce)]"

definition operation_binding_fields where
  "operation_binding_fields account_id device_id purpose method target body_hash request_id expires_at =
    [(''domain'', str_bytes ''rctl-operation-binding-v1''), (''account_id'', str_bytes account_id),
     (''device_id'', str_bytes device_id), (''purpose'', str_bytes purpose),
     (''method'', str_bytes method), (''path'', str_bytes target), (''body_hash'', body_hash),
     (''request_id'', str_bytes request_id),
     (''expires_at_epoch_millis'', to_be_bytes (expires_at :: u64))]"

definition idempotency_binding_fields where
  "idempotency_binding_fields account_id device_id method target body_hash =
    [(''domain'', str_bytes ''rctl-idempotency-binding-v1''), (''account_id'', str_bytes account_id),
     (''device_id'', str_bytes device_id), (''method'', str_bytes method),
     (''path'', str_bytes target), (''body_hash'', body_hash)]"

lemma api_request_canonical:
  "canonical_api_request_bytes m t b r d a ts n =
    and_then (canonical_http_method m) (\<lambda>m. and_then (canonical_request_target t) (\<lambda>t.
      canonical_encode (api_request_fields m t b r d a ts n)))"
  by (simp add: canonical_api_request_bytes_def api_request_fields_def
      writer_new_chain [symmetric] push_eta del: try_chain.simps)

lemma operation_binding_canonical:
  "canonical_operation_binding_bytes a d p m t b r e =
    and_then (canonical_http_method m) (\<lambda>m. and_then (canonical_request_target t) (\<lambda>t.
      canonical_encode (operation_binding_fields a d p m t b r e)))"
  by (simp add: canonical_operation_binding_bytes_def operation_binding_fields_def
      writer_new_chain [symmetric] push_eta del: try_chain.simps)

lemma idempotency_binding_canonical:
  "canonical_idempotency_binding_bytes a d m t b =
    and_then (canonical_http_method m) (\<lambda>m. and_then (canonical_request_target t) (\<lambda>t.
      canonical_encode (idempotency_binding_fields a d m t b)))"
  by (simp add: canonical_idempotency_binding_bytes_def idempotency_binding_fields_def
      writer_new_chain [symmetric] push_eta del: try_chain.simps)

text \<open>
  Two requests have the same signed bytes exactly when they agree up to the normalisation of
  method and target.
\<close>

lemma api_request_inject:
  assumes "canonical_api_request_bytes m t b r d a ts n = Inr bs"
    and "canonical_api_request_bytes m' t' b' r' d' a' ts' n' = Inr bs"
  shows "canonical_http_method m = canonical_http_method m'
    \<and> canonical_request_target t = canonical_request_target t'
    \<and> b = b' \<and> r = r' \<and> d = d' \<and> a = a' \<and> ts = ts' \<and> n = n'"
proof -
  obtain m1 t1 where 1: "canonical_http_method m = Inr m1" "canonical_request_target t = Inr t1"
    "canonical_encode (api_request_fields m1 t1 b r d a ts n) = Inr bs"
    using assms(1) by (auto simp: api_request_canonical result_simps)
  obtain m2 t2 where 2: "canonical_http_method m' = Inr m2" "canonical_request_target t' = Inr t2"
    "canonical_encode (api_request_fields m2 t2 b' r' d' a' ts' n') = Inr bs"
    using assms(2) by (auto simp: api_request_canonical result_simps)
  have "api_request_fields m1 t1 b r d a ts n = api_request_fields m2 t2 b' r' d' a' ts' n'"
    using 1(3) 2(3) by (rule canonical_encode_inject)
  with 1 2 show ?thesis by (simp add: api_request_fields_def)
qed

end
