(* ===== verification/Rc_Domains.thy ===== *)
theory Rc_Domains
  imports Rc_Candidates Rc_Target
begin

section \<open>Domain separation\<close>

text \<open>
  Every structure of the protocol that is hashed, signed or used for key derivation, as one
  type, with the bytes the program computes for it. The lemmas show that bytes of one kind
  of structure are never bytes of another kind, so a signature or token made for one purpose
  cannot be presented for another.
\<close>

datatype canonical_message =
    MsgPermissions session_permissions
  | MsgSessionContext session_context
  | MsgKeyExchange signed_key_exchange_payload
  | MsgKeyConfirm key_confirm
  | MsgKdfSalt session_kdf_context
  | MsgKdfInfo session_kdf_context
  | MsgCandidateId connection_candidate_dto
  | MsgCandidatePair u128 u128 u128 transport_path "string option"
  | MsgCandidateToken connection_candidate_dto u64
  | MsgRelayToken relay_allocation
  | MsgRelayOpen relay_open
  | MsgObserveToken u128 string session_role bytes u64
  | MsgObserveResult validated_observe_result
  | MsgLanClaim candidate_token_request bytes bytes bytes u64
  | MsgApiRequest string string bytes string string string u64 string
  | MsgOperation string string string string string bytes string u64
  | MsgIdempotency string string string string bytes

text \<open>The fields of a request, with its method and target normalised.\<close>

definition with_request ::
    "string \<Rightarrow> string \<Rightarrow> (string \<Rightarrow> string \<Rightarrow> field_list) \<Rightarrow> field_list" where
  "with_request method target f =
    (case (canonical_http_method method, canonical_request_target target) of
       (Inr m, Inr t) \<Rightarrow> f m t
     | _ \<Rightarrow> [])"

fun message_fields :: "canonical_message \<Rightarrow> field_list" where
  "message_fields (MsgPermissions p) = permissions_fields p"
| "message_fields (MsgSessionContext c) = session_context_fields c"
| "message_fields (MsgKeyExchange p) = key_exchange_fields p"
| "message_fields (MsgKeyConfirm c) = key_confirm_fields c"
| "message_fields (MsgKdfSalt c) = salt_fields c"
| "message_fields (MsgKdfInfo c) = info_fields c"
| "message_fields (MsgCandidateId c) = candidate_id_fields c"
| "message_fields (MsgCandidatePair a b c p r) = candidate_pair_id_fields a b c p r"
| "message_fields (MsgCandidateToken c e) = candidate_token_binding_fields c e"
| "message_fields (MsgRelayToken a) = relay_token_binding_fields a"
| "message_fields (MsgRelayOpen p) = relay_open_fields p"
| "message_fields (MsgObserveToken s d r n e) = observe_token_fields s d r n e"
| "message_fields (MsgObserveResult r) = observe_result_fields r"
| "message_fields (MsgLanClaim q a b n t) = claim_fields q a b n t"
| "message_fields (MsgApiRequest m t b r d a ts n) =
    with_request m t (\<lambda>m t. api_request_fields m t b r d a ts n)"
| "message_fields (MsgOperation a d p m t b r e) =
    with_request m t (\<lambda>m t. operation_binding_fields a d p m t b r e)"
| "message_fields (MsgIdempotency a d m t b) =
    with_request m t (\<lambda>m t. idempotency_binding_fields a d m t b)"

text \<open>The bytes the program computes.\<close>

fun message_bytes :: "canonical_message \<Rightarrow> canonical_error + bytes" where
  "message_bytes (MsgPermissions p) = permissions_canonical_bytes p"
| "message_bytes (MsgSessionContext c) = session_context_canonical_bytes c"
| "message_bytes (MsgKeyExchange p) = key_exchange_canonical_bytes p"
| "message_bytes (MsgKeyConfirm c) = key_confirm_canonical_mac_input c"
| "message_bytes (MsgKdfSalt c) = salt_canonical_bytes c"
| "message_bytes (MsgKdfInfo c) = info_base c"
| "message_bytes (MsgCandidateId c) = candidate_id_bytes c"
| "message_bytes (MsgCandidatePair a b c p r) = candidate_pair_id_bytes a b c p r"
| "message_bytes (MsgCandidateToken c e) = candidate_token_binding_bytes c e"
| "message_bytes (MsgRelayToken a) = relay_token_binding_bytes a"
| "message_bytes (MsgRelayOpen p) = relay_open_canonical_bytes p"
| "message_bytes (MsgObserveToken s d r n e) = observe_token_binding_bytes s d r n e"
| "message_bytes (MsgObserveResult r) = observe_result_binding_bytes r"
| "message_bytes (MsgLanClaim q a b n t) = local_interface_claim_bytes q a b n t"
| "message_bytes (MsgApiRequest m t b r d a ts n) = canonical_api_request_bytes m t b r d a ts n"
| "message_bytes (MsgOperation a d p m t b r e) = canonical_operation_binding_bytes a d p m t b r e"
| "message_bytes (MsgIdempotency a d m t b) = canonical_idempotency_binding_bytes a d m t b"

fun message_tag :: "canonical_message \<Rightarrow> nat" where
  "message_tag (MsgPermissions _) = 0"
| "message_tag (MsgSessionContext _) = 1"
| "message_tag (MsgKeyExchange _) = 2"
| "message_tag (MsgKeyConfirm _) = 3"
| "message_tag (MsgKdfSalt _) = 4"
| "message_tag (MsgKdfInfo _) = 5"
| "message_tag (MsgCandidateId _) = 6"
| "message_tag (MsgCandidatePair _ _ _ _ _) = 7"
| "message_tag (MsgCandidateToken _ _) = 8"
| "message_tag (MsgRelayToken _) = 9"
| "message_tag (MsgRelayOpen _) = 10"
| "message_tag (MsgObserveToken _ _ _ _ _) = 11"
| "message_tag (MsgObserveResult _) = 12"
| "message_tag (MsgLanClaim _ _ _ _ _) = 13"
| "message_tag (MsgApiRequest _ _ _ _ _ _ _ _) = 14"
| "message_tag (MsgOperation _ _ _ _ _ _ _ _) = 15"
| "message_tag (MsgIdempotency _ _ _ _ _) = 16"

text \<open>The domains by tag; the permissions are written without one.\<close>

definition domain_names :: "string list" where
  "domain_names =
    [[], ''rctl-session-context-v1'', ''rctl-signed-key-exchange-v1'', ''rctl-key-confirm-v1'',
     ''rctl-hkdf-salt-v1'', ''rctl-session-v1'', ''rctl-candidate-id-v1'',
     ''rctl-candidate-pair-id-v1'', ''rctl-candidate-token-binding-v1'',
     ''rctl-relay-token-binding-v1'', ''rctl-relay-open-v1'', ''rctl-observe-token-binding-v1'',
     ''rctl-observe-result-binding-v1'', ''rctl-local-interface-claim-v1'',
     ''rctl-api-input-v1'', ''rctl-operation-binding-v1'', ''rctl-idempotency-binding-v1'']"

lemma message_bytes_fields:
  "message_bytes m = Inr b \<Longrightarrow> canonical_encode (message_fields m) = Inr b"
  by (cases m)
    (auto simp: permissions_canonical session_context_canonical key_exchange_canonical
      key_confirm_canonical salt_canonical info_canonical candidate_id_canonical
      candidate_pair_id_canonical candidate_token_binding_canonical relay_token_binding_canonical
      relay_open_canonical observe_token_canonical observe_result_canonical claim_canonical
      api_request_canonical operation_binding_canonical idempotency_binding_canonical
      with_request_def and_then_eq_Inr)

lemma domain_names_distinct: "distinct domain_names"
  by (simp add: domain_names_def)

lemma message_tag_less: "message_tag m < length domain_names"
  by (cases m) (simp_all add: domain_names_def)

lemmas message_field_defs =
  permissions_fields_def session_context_fields_def key_exchange_fields_def key_confirm_fields_def
  salt_fields_def info_fields_def candidate_id_fields_def candidate_pair_id_fields_def
  candidate_token_binding_fields_def relay_token_binding_fields_def relay_open_fields_def
  observe_token_fields_def observe_result_fields_def claim_fields_def

lemma message_first_field:
  assumes "message_bytes m = Inr b"
  shows "hd (message_fields m) =
    (case m of
       MsgPermissions p \<Rightarrow> (''remote_desktop'', [if sp_remote_desktop p then 1 else 0])
     | _ \<Rightarrow> (''domain'', str_bytes (domain_names ! message_tag m)))"
  using assms
  by (cases m)
    (auto simp: message_field_defs domain_names_def with_request_def and_then_eq_Inr
      api_request_canonical operation_binding_canonical idempotency_binding_canonical
      api_request_fields_def operation_binding_fields_def idempotency_binding_fields_def)

lemma message_domain_separation:
  assumes "message_bytes m = Inr b" "message_bytes n = Inr b"
  shows "message_tag m = message_tag n"
proof -
  have "message_fields m = message_fields n"
    using assms canonical_encode_inject message_bytes_fields by blast
  then have hd: "hd (message_fields m) = hd (message_fields n)" by simp
  have "domain_names ! message_tag m = domain_names ! message_tag n \<Longrightarrow> ?thesis"
    using domain_names_distinct message_tag_less by (simp add: nth_eq_iff_index_eq)
  then show ?thesis
    using hd [unfolded message_first_field [OF assms(1)] message_first_field [OF assms(2)]]
    by (cases m; cases n) simp_all
qed

end
