(* ===== verification/Rc_Observe.thy ===== *)
theory Rc_Observe
  imports Rc_Candidates
begin

section \<open>UDP endpoint observation\<close>

text \<open>
  \<^verbatim>\<open>crates/remote-transport/src/observe.rs\<close>: the wire format of observe requests and
  responses, their reader, and the two handlers. What the sockets deliver is an argument:
  the received datagram with its sender, a timeout or an I/O error. A Rust \<^verbatim>\<open>String\<close> is a
  byte string that \<open>utf8_valid\<close> accepts.
\<close>

definition OBSERVE_REQUEST_MAGIC :: bytes where
  "OBSERVE_REQUEST_MAGIC = str_bytes ''RCO1''"

definition OBSERVE_RESPONSE_MAGIC :: bytes where
  "OBSERVE_RESPONSE_MAGIC = str_bytes ''RCO2''"

definition MAX_OBSERVE_DATAGRAM_BYTES :: nat where
  "MAX_OBSERVE_DATAGRAM_BYTES = 4096"

definition MAX_TOKEN_BYTES :: nat where
  "MAX_TOKEN_BYTES = 2048"

definition MAX_TEXT_BYTES :: nat where
  "MAX_TEXT_BYTES = 512"

datatype observe_error =
    Binding binding_error
  | MalformedPacket
  | PacketTooLarge
  | UnexpectedResponder
  | Timeout
  | ObserveIo
  | ResultIdUnavailable

subsection \<open>UTF-8\<close>

text \<open>\<^verbatim>\<open>String::from_utf8\<close> accepts exactly the well-formed byte sequences of the Unicode standard.\<close>

definition in_range :: "u8 \<Rightarrow> u8 \<Rightarrow> u8 \<Rightarrow> bool" where
  "in_range lo hi b \<longleftrightarrow> lo \<le> b \<and> b \<le> hi"

fun utf8_valid :: "bytes \<Rightarrow> bool" where
  "utf8_valid [] = True"
| "utf8_valid (b # bs) =
    (if b < 0x80 then utf8_valid bs
     else
       case bs of
         [] \<Rightarrow> False
       | c # cs \<Rightarrow>
           if in_range 0xC2 0xDF b then in_range 0x80 0xBF c \<and> utf8_valid cs
           else
             case cs of
               [] \<Rightarrow> False
             | d # ds \<Rightarrow>
                 if in_range 0xE0 0xEF b then
                   in_range (if b = 0xE0 then 0xA0 else 0x80) (if b = 0xED then 0x9F else 0xBF) c
                   \<and> in_range 0x80 0xBF d \<and> utf8_valid ds
                 else
                   case ds of
                     [] \<Rightarrow> False
                   | e # es \<Rightarrow>
                       in_range 0xF0 0xF4 b
                       \<and> in_range (if b = 0xF0 then 0x90 else 0x80)
                           (if b = 0xF4 then 0x8F else 0xBF) c
                       \<and> in_range 0x80 0xBF d \<and> in_range 0x80 0xBF e \<and> utf8_valid es)"

subsection \<open>Writing\<close>

fun role_byte :: "session_role \<Rightarrow> u8" where
  "role_byte Controller = 1"
| "role_byte Controlled = 2"

definition decode_role :: "u8 \<Rightarrow> observe_error + session_role" where
  "decode_role v = (if v = 1 then Inr Controller else if v = 2 then Inr Controlled else Inl MalformedPacket)"

definition push_bytes :: "nat \<Rightarrow> bytes \<Rightarrow> bytes \<Rightarrow> observe_error + bytes" where
  "push_bytes max_len value bs =
    (if value = [] \<or> length value > max_len then Inl MalformedPacket
     else if length value \<ge> 2 ^ 16 then Inl PacketTooLarge
     else
       let bs = bs @ to_be_bytes (of_nat (length value) :: u16) @ value in
       if length bs > MAX_OBSERVE_DATAGRAM_BYTES then Inl PacketTooLarge else Inr bs)"

definition push_text :: "string \<Rightarrow> bytes \<Rightarrow> observe_error + bytes" where
  "push_text value bs = push_bytes MAX_TEXT_BYTES (str_bytes value) bs"

definition encode_observe_request :: "observe_authorization \<Rightarrow> observe_error + bytes" where
  "encode_observe_request a =
    (let bs = OBSERVE_REQUEST_MAGIC @ to_be_bytes (oa_session_id a) in
     and_then (push_text (oa_device_id a) bs) (\<lambda>bs.
     let bs = bs @ [role_byte (oa_role a)] @ oa_local_socket_nonce a
           @ to_be_bytes (oa_expires_at_epoch_millis a) @ oa_binding_hash a
     in push_bytes MAX_TOKEN_BYTES (oa_token a) bs))"

definition encode_observe_response :: "validated_observe_result \<Rightarrow> observe_error + bytes" where
  "encode_observe_response r =
    (let bs = OBSERVE_RESPONSE_MAGIC @ to_be_bytes (vo_session_id r) in
     and_then (push_text (vo_device_id r) bs) (\<lambda>bs.
     let bs = bs @ [role_byte (vo_role r)] @ vo_local_socket_nonce r in
     and_then (push_text (vo_observed_endpoint r) bs) (\<lambda>bs.
     and_then (push_text (vo_observe_result_id r) bs) (\<lambda>bs.
     Inr (bs @ vo_binding_hash r @ to_be_bytes (vo_expires_at_epoch_millis r))))))"

subsection \<open>Reading\<close>

record packet_reader =
  rd_bytes :: bytes
  rd_offset :: nat

type_synonym 'a reading = "packet_reader \<Rightarrow> observe_error + 'a \<times> packet_reader"

definition reader_new :: "bytes \<Rightarrow> packet_reader" where
  "reader_new bs = \<lparr>rd_bytes = bs, rd_offset = 0\<rparr>"

definition reader_take :: "nat \<Rightarrow> bytes reading" where
  "reader_take len r =
    (let stop = rd_offset r + len in
     if stop > usize_max then Inl MalformedPacket
     else if stop > length (rd_bytes r) then Inl MalformedPacket
     else Inr (slice (rd_offset r) stop (rd_bytes r), r\<lparr>rd_offset := stop\<rparr>))"

definition expect_magic :: "bytes \<Rightarrow> unit reading" where
  "expect_magic expected r =
    and_then (reader_take 4 r) (\<lambda>(v, r). if v \<noteq> expected then Inl MalformedPacket else Inr ((), r))"

definition reader_u8 :: "u8 reading" where
  "reader_u8 r = and_then (reader_take 1 r) (\<lambda>(v, r). Inr (v ! 0, r))"

definition reader_u16 :: "u16 reading" where
  "reader_u16 r = and_then (reader_take 2 r) (\<lambda>(v, r). Inr (from_be_bytes v, r))"

definition reader_u64 :: "u64 reading" where
  "reader_u64 r = and_then (reader_take 8 r) (\<lambda>(v, r). Inr (from_be_bytes v, r))"

definition reader_u128 :: "u128 reading" where
  "reader_u128 r = and_then (reader_take 16 r) (\<lambda>(v, r). Inr (from_be_bytes v, r))"

definition reader_array :: "nat \<Rightarrow> bytes reading" where
  "reader_array n r = reader_take n r"

definition reader_bytes :: "nat \<Rightarrow> bytes reading" where
  "reader_bytes max_len r =
    and_then (reader_u16 r) (\<lambda>(n, r).
    let len = unat n in
    if len = 0 \<or> len > max_len then Inl MalformedPacket else reader_take len r)"

definition reader_text :: "nat \<Rightarrow> string reading" where
  "reader_text max_len r =
    and_then (reader_bytes max_len r) (\<lambda>(v, r).
    if utf8_valid v then Inr (bytes_str v, r) else Inl MalformedPacket)"

definition reader_finish :: "packet_reader \<Rightarrow> observe_error + unit" where
  "reader_finish r = (if rd_offset r \<noteq> length (rd_bytes r) then Inl MalformedPacket else Inr ())"

definition decode_observe_request :: "bytes \<Rightarrow> observe_error + observe_authorization" where
  "decode_observe_request bs =
    and_then (expect_magic OBSERVE_REQUEST_MAGIC (reader_new bs)) (\<lambda>(_, r).
    and_then (reader_u128 r) (\<lambda>(session_id, r).
    and_then (reader_text MAX_TEXT_BYTES r) (\<lambda>(device_id, r).
    and_then (reader_u8 r) (\<lambda>(b, r).
    and_then (decode_role b) (\<lambda>role.
    and_then (reader_array 32 r) (\<lambda>(nonce, r).
    and_then (reader_u64 r) (\<lambda>(expires_at, r).
    and_then (reader_array 32 r) (\<lambda>(binding_hash, r).
    and_then (reader_bytes MAX_TOKEN_BYTES r) (\<lambda>(token, r).
    and_then (reader_finish r) (\<lambda>_.
    Inr \<lparr>oa_session_id = session_id, oa_device_id = device_id, oa_role = role,
         oa_local_socket_nonce = nonce, oa_token = token, oa_binding_hash = binding_hash,
         oa_expires_at_epoch_millis = expires_at\<rparr>))))))))))"

definition decode_observe_response :: "bytes \<Rightarrow> observe_error + validated_observe_result" where
  "decode_observe_response bs =
    and_then (expect_magic OBSERVE_RESPONSE_MAGIC (reader_new bs)) (\<lambda>(_, r).
    and_then (reader_u128 r) (\<lambda>(session_id, r).
    and_then (reader_text MAX_TEXT_BYTES r) (\<lambda>(device_id, r).
    and_then (reader_u8 r) (\<lambda>(b, r).
    and_then (decode_role b) (\<lambda>role.
    and_then (reader_array 32 r) (\<lambda>(nonce, r).
    and_then (reader_text MAX_TEXT_BYTES r) (\<lambda>(endpoint, r).
    and_then (reader_text MAX_TEXT_BYTES r) (\<lambda>(result_id, r).
    and_then (reader_array 32 r) (\<lambda>(binding_hash, r).
    and_then (reader_u64 r) (\<lambda>(expires_at, r).
    and_then (reader_finish r) (\<lambda>_.
    Inr \<lparr>vo_session_id = session_id, vo_device_id = device_id, vo_role = role,
         vo_local_socket_nonce = nonce, vo_observed_endpoint = endpoint,
         vo_observe_result_id = result_id, vo_binding_hash = binding_hash,
         vo_expires_at_epoch_millis = expires_at\<rparr>)))))))))))"

subsection \<open>Handlers\<close>

datatype received = RecvTimeout | RecvError | Datagram bytes socket_addr

text \<open>
  The server: the datagram is read into a buffer one byte longer than the limit. The result
  carries the observation and the response sent back; \<open>sends\<close> tells whether the socket took it.
\<close>

definition handle_udp_observe_once ::
    "(bytes \<Rightarrow> bytes) \<Rightarrow> received \<Rightarrow> u64 \<Rightarrow> (observe_authorization \<Rightarrow> binding_error + unit)
      \<Rightarrow> (observe_error + string) \<Rightarrow> (bytes \<Rightarrow> bool)
      \<Rightarrow> observe_error + validated_observe_result \<times> bytes" where
  "handle_udp_observe_once sha recv now verify_token generated_id sends =
    (case recv of
       Datagram datagram peer \<Rightarrow>
         let packet = take (MAX_OBSERVE_DATAGRAM_BYTES + 1) datagram in
         if length packet > MAX_OBSERVE_DATAGRAM_BYTES then Inl PacketTooLarge
         else
           and_then (decode_observe_request packet) (\<lambda>a.
           and_then (map_err Binding (validate_observe_authorization sha a now)) (\<lambda>_.
           and_then (map_err Binding (verify_token a)) (\<lambda>_.
           and_then generated_id (\<lambda>result_id.
           if result_id = [] \<or> length result_id > MAX_TEXT_BYTES then Inl ResultIdUnavailable
           else
             let r = \<lparr>vo_session_id = oa_session_id a, vo_device_id = oa_device_id a,
                      vo_role = oa_role a, vo_local_socket_nonce = oa_local_socket_nonce a,
                      vo_observed_endpoint = show_socket peer, vo_observe_result_id = result_id,
                      vo_binding_hash = replicate 32 0,
                      vo_expires_at_epoch_millis = oa_expires_at_epoch_millis a\<rparr>
             in and_then (map_err Binding (observe_result_binding_hash sha r)) (\<lambda>hash.
                let r = r\<lparr>vo_binding_hash := hash\<rparr> in
                and_then (encode_observe_response r) (\<lambda>response.
                if \<not> sends response then Inl ObserveIo else Inr (r, response)))))))
     | _ \<Rightarrow> Inl ObserveIo)"

text \<open>
  The client: \<open>sent\<close> is what the socket reports for the request (\<open>None\<close>: error), \<open>recv\<close>
  what arrives before the timeout.
\<close>

definition request_udp_observe ::
    "(bytes \<Rightarrow> bytes) \<Rightarrow> socket_addr \<Rightarrow> observe_authorization \<Rightarrow> u64 \<Rightarrow> (bytes \<Rightarrow> nat option)
      \<Rightarrow> received \<Rightarrow> observe_error + validated_observe_result" where
  "request_udp_observe sha server a now sent recv =
    and_then (map_err Binding (validate_observe_authorization sha a now)) (\<lambda>_.
    and_then (encode_observe_request a) (\<lambda>request.
    and_then (ok_or ObserveIo (sent request)) (\<lambda>n.
    if n = 0 then Inl ObserveIo
    else
      case recv of
        RecvTimeout \<Rightarrow> Inl Timeout
      | RecvError \<Rightarrow> Inl ObserveIo
      | Datagram datagram responder \<Rightarrow>
          let response = take (MAX_OBSERVE_DATAGRAM_BYTES + 1) datagram in
          if responder \<noteq> server then Inl UnexpectedResponder
          else if length response > MAX_OBSERVE_DATAGRAM_BYTES then Inl PacketTooLarge
          else
            and_then (decode_observe_response response) (\<lambda>r.
            and_then (map_err Binding (validate_observe_result sha r a now)) (\<lambda>_. Inr r)))))"

subsection \<open>Reading what was written\<close>

text \<open>A reader that has consumed \<open>p\<close> and has \<open>s\<close> left.\<close>

definition reader_at :: "bytes \<Rightarrow> bytes \<Rightarrow> packet_reader" where
  "reader_at p s = \<lparr>rd_bytes = p @ s, rd_offset = length p\<rparr>"

named_theorems reader_simps

lemma reader_new_at: "reader_new bs = reader_at [] bs"
  by (simp add: reader_new_def reader_at_def)

lemma reader_take_at:
  "length x = n \<Longrightarrow> length p + n \<le> usize_max \<Longrightarrow>
    reader_take n (reader_at p (x @ s)) = Inr (x, reader_at (p @ x) s)"
  by (auto simp: reader_take_def reader_at_def Let_def slice_def)

lemma reader_take_ok:
  "reader_take n r = Inr (v, r') \<longleftrightarrow>
    rd_offset r + n \<le> usize_max \<and> rd_offset r + n \<le> length (rd_bytes r)
    \<and> v = slice (rd_offset r) (rd_offset r + n) (rd_bytes r) \<and> r' = r\<lparr>rd_offset := rd_offset r + n\<rparr>"
  by (auto simp: reader_take_def Let_def)

lemma reader_take_split:
  assumes "reader_take n (reader_at p s) = Inr (v, r')"
  shows "\<exists>t. s = v @ t \<and> length v = n \<and> r' = reader_at (p @ v) t"
proof -
  from assms have len: "n \<le> length s" and v: "v = take n s"
    and r': "r' = \<lparr>rd_bytes = p @ s, rd_offset = length p + n\<rparr>"
    by (auto simp: reader_take_ok reader_at_def slice_def)
  then show ?thesis by (intro exI [of _ "drop n s"]) (simp add: reader_at_def)
qed

lemma reader_finish_at: "reader_finish (reader_at p s) = Inr u \<longleftrightarrow> s = []"
  by (simp add: reader_finish_def reader_at_def)

text \<open>A reading returns \<open>a\<close> from exactly the bytes \<open>x\<close>.\<close>

definition reads :: "'a reading \<Rightarrow> bytes \<Rightarrow> 'a \<Rightarrow> bool" where
  "reads f x a \<longleftrightarrow>
    (\<forall>p s. length (p @ x @ s) \<le> usize_max \<longrightarrow>
      f (reader_at p (x @ s)) = Inr (a, reader_at (p @ x) s))"

lemma readsD:
  "reads f x a \<Longrightarrow> length (p @ x @ s) \<le> usize_max \<Longrightarrow>
    f (reader_at p (x @ s)) = Inr (a, reader_at (p @ x) s)"
  by (simp add: reads_def)

lemma reads_take: "length x = n \<Longrightarrow> reads (reader_take n) x x"
  by (simp add: reads_def reader_take_at)

lemma reads_magic: "length m = 4 \<Longrightarrow> reads (expect_magic m) m ()"
  by (simp add: reads_def expect_magic_def reader_take_at)

lemma reads_u8: "reads reader_u8 [b] b"
  using reader_take_at [of "[b]" 1] by (simp add: reads_def reader_u8_def)

lemma reads_u16: "reads reader_u16 (to_be_bytes v) v"
  by (simp add: reads_def reader_u16_def reader_take_at)

lemma reads_u64: "reads reader_u64 (to_be_bytes v) v"
  by (simp add: reads_def reader_u64_def reader_take_at)

lemma reads_u128: "reads reader_u128 (to_be_bytes v) v"
  by (simp add: reads_def reader_u128_def reader_take_at)

lemma reads_array: "length x = n \<Longrightarrow> reads (reader_array n) x x"
  by (simp add: reads_def reader_array_def reader_take_at)

lemma reads_bytes:
  assumes "v \<noteq> []" "length v \<le> m" "length v < 2 ^ 16"
  shows "reads (reader_bytes m) (to_be_bytes (of_nat (length v) :: u16) @ v) v"
  unfolding reads_def
proof (intro allI impI)
  fix p s :: bytes
  let ?n = "of_nat (length v) :: u16"
  assume len: "length (p @ (to_be_bytes ?n @ v) @ s) \<le> usize_max"
  have n: "unat ?n = length v" using assms(3) by (simp add: unat_of_nat)
  have "reader_u16 (reader_at p (to_be_bytes ?n @ v @ s)) =
      Inr (?n, reader_at (p @ to_be_bytes ?n) (v @ s))"
    using readsD [OF reads_u16, of p ?n "v @ s"] len by simp
  moreover have "reader_take (length v) (reader_at (p @ to_be_bytes ?n) (v @ s)) =
      Inr (v, reader_at (p @ to_be_bytes ?n @ v) s)"
    using reader_take_at [of v "length v" "p @ to_be_bytes ?n" s] len by simp
  ultimately show "reader_bytes m (reader_at p ((to_be_bytes ?n @ v) @ s)) =
      Inr (v, reader_at (p @ to_be_bytes ?n @ v) s)"
    using assms(1,2) n by (simp add: reader_bytes_def Let_def)
qed

lemma reads_text:
  assumes "s \<noteq> []" "length s \<le> m" "length s < 2 ^ 16" "utf8_valid (str_bytes s)"
  shows "reads (reader_text m) (to_be_bytes (of_nat (length s) :: u16) @ str_bytes s) s"
proof -
  have "reads (reader_bytes m) (to_be_bytes (of_nat (length (str_bytes s)) :: u16) @ str_bytes s)
      (str_bytes s)"
    using assms by (intro reads_bytes) simp_all
  with assms(4) show ?thesis by (simp add: reads_def reader_text_def)
qed

lemma role_byte_inverse [simp]: "decode_role (role_byte r) = Inr r"
  by (cases r) (simp_all add: decode_role_def)

lemma push_bytes_ok:
  "push_bytes m v bs = Inr bs' \<longleftrightarrow>
    v \<noteq> [] \<and> length v \<le> m \<and> length v < 2 ^ 16
    \<and> bs' = bs @ to_be_bytes (of_nat (length v) :: u16) @ v
    \<and> length bs' \<le> MAX_OBSERVE_DATAGRAM_BYTES"
  by (auto simp: push_bytes_def Let_def)

lemma push_text_ok:
  "push_text v bs = Inr bs' \<longleftrightarrow>
    v \<noteq> [] \<and> length v \<le> MAX_TEXT_BYTES
    \<and> bs' = bs @ to_be_bytes (of_nat (length v) :: u16) @ str_bytes v
    \<and> length bs' \<le> MAX_OBSERVE_DATAGRAM_BYTES"
  by (auto simp: push_text_def push_bytes_ok MAX_TEXT_BYTES_def)

text \<open>
  The \<open>?\<close> after each reading, in the form the packets have: one lemma per kind of field,
  on a packet that is not longer than a datagram.
\<close>

definition packet_fits :: "bytes \<Rightarrow> bytes \<Rightarrow> bool" where
  "packet_fits p s \<longleftrightarrow> length p + length s \<le> MAX_OBSERVE_DATAGRAM_BYTES"

lemma packet_fits_usize: "packet_fits p s \<Longrightarrow> length p + length s \<le> usize_max"
  by (simp add: packet_fits_def MAX_OBSERVE_DATAGRAM_BYTES_def usize_max_def)

lemma bind_reads:
  assumes "reads f x a" "packet_fits p (x @ s)"
  shows "and_then (f (reader_at p (x @ s))) k = k (a, reader_at (p @ x) s)"
  using readsD [OF assms(1), of p s] packet_fits_usize [OF assms(2)] by simp

lemma bind_magic:
  "packet_fits p (m @ s) \<Longrightarrow> length m = 4 \<Longrightarrow>
    and_then (expect_magic m (reader_at p (m @ s))) k = k ((), reader_at (p @ m) s)"
  by (rule bind_reads [OF reads_magic])

lemma bind_u128:
  "packet_fits p (to_be_bytes v @ s) \<Longrightarrow>
    and_then (reader_u128 (reader_at p (to_be_bytes v @ s))) k = k (v, reader_at (p @ to_be_bytes v) s)"
  by (rule bind_reads [OF reads_u128])

lemma bind_u64:
  "packet_fits p (to_be_bytes v @ s) \<Longrightarrow>
    and_then (reader_u64 (reader_at p (to_be_bytes v @ s))) k = k (v, reader_at (p @ to_be_bytes v) s)"
  by (rule bind_reads [OF reads_u64])

lemma bind_u8:
  "packet_fits p (b # s) \<Longrightarrow>
    and_then (reader_u8 (reader_at p (b # s))) k = k (b, reader_at (p @ [b]) s)"
  using bind_reads [OF reads_u8, of p b s] by simp

lemma bind_array:
  "packet_fits p (x @ s) \<Longrightarrow> length x = n \<Longrightarrow>
    and_then (reader_array n (reader_at p (x @ s))) k = k (x, reader_at (p @ x) s)"
  by (rule bind_reads [OF reads_array])

lemma bind_bytes:
  "packet_fits p (to_be_bytes (of_nat (length v) :: u16) @ v @ s) \<Longrightarrow> v \<noteq> [] \<Longrightarrow> length v \<le> m \<Longrightarrow>
    m < 2 ^ 16 \<Longrightarrow>
    and_then (reader_bytes m (reader_at p (to_be_bytes (of_nat (length v) :: u16) @ v @ s))) k =
      k (v, reader_at (p @ to_be_bytes (of_nat (length v) :: u16) @ v) s)"
  using bind_reads [OF reads_bytes, of v m p s] by simp

lemma bind_text:
  "packet_fits p (to_be_bytes (of_nat (length v) :: u16) @ str_bytes v @ s) \<Longrightarrow> v \<noteq> [] \<Longrightarrow>
    length v \<le> m \<Longrightarrow> m < 2 ^ 16 \<Longrightarrow> utf8_valid (str_bytes v) \<Longrightarrow>
    and_then (reader_text m (reader_at p (to_be_bytes (of_nat (length v) :: u16) @ str_bytes v @ s))) k =
      k (v, reader_at (p @ to_be_bytes (of_nat (length v) :: u16) @ str_bytes v) s)"
  using bind_reads [OF reads_text, of v m p s] by simp

lemmas bind_simps = bind_magic bind_u128 bind_u64 bind_u8 bind_array bind_text

subsection \<open>Round trips\<close>

lemma length_magics [simp]: "length OBSERVE_REQUEST_MAGIC = 4" "length OBSERVE_RESPONSE_MAGIC = 4"
  by (simp_all add: OBSERVE_REQUEST_MAGIC_def OBSERVE_RESPONSE_MAGIC_def)

lemma finish_at: "reader_finish (reader_at p []) = Inr ()"
  by (simp add: reader_finish_at)

lemma encode_observe_request_ok:
  "encode_observe_request a = Inr bs \<longleftrightarrow>
    oa_device_id a \<noteq> [] \<and> length (oa_device_id a) \<le> MAX_TEXT_BYTES
    \<and> oa_token a \<noteq> [] \<and> length (oa_token a) \<le> MAX_TOKEN_BYTES
    \<and> length bs \<le> MAX_OBSERVE_DATAGRAM_BYTES
    \<and> bs = OBSERVE_REQUEST_MAGIC @ to_be_bytes (oa_session_id a)
        @ to_be_bytes (of_nat (length (oa_device_id a)) :: u16) @ str_bytes (oa_device_id a)
        @ role_byte (oa_role a) # oa_local_socket_nonce a @ to_be_bytes (oa_expires_at_epoch_millis a)
        @ oa_binding_hash a @ to_be_bytes (of_nat (length (oa_token a)) :: u16) @ oa_token a"
  by (auto simp: encode_observe_request_def Let_def result_simps push_text_ok push_bytes_ok
      MAX_TOKEN_BYTES_def)

lemma decode_encode_observe_request:
  assumes enc: "encode_observe_request a = Inr bs"
    and "utf8_valid (str_bytes (oa_device_id a))"
    and "length (oa_local_socket_nonce a) = 32" "length (oa_binding_hash a) = 32"
  shows "decode_observe_request bs = Inr a"
proof -
  from enc have bs: "bs = OBSERVE_REQUEST_MAGIC @ to_be_bytes (oa_session_id a)
        @ to_be_bytes (of_nat (length (oa_device_id a)) :: u16) @ str_bytes (oa_device_id a)
        @ role_byte (oa_role a) # oa_local_socket_nonce a @ to_be_bytes (oa_expires_at_epoch_millis a)
        @ oa_binding_hash a @ to_be_bytes (of_nat (length (oa_token a)) :: u16) @ oa_token a"
    and parts: "oa_device_id a \<noteq> []" "length (oa_device_id a) \<le> MAX_TEXT_BYTES"
      "oa_token a \<noteq> []" "length (oa_token a) \<le> MAX_TOKEN_BYTES"
    and fits: "packet_fits [] bs"
    by (auto simp: encode_observe_request_ok packet_fits_def)
  have small: "MAX_TEXT_BYTES < 2 ^ 16" "MAX_TOKEN_BYTES < 2 ^ 16"
    by (simp_all add: MAX_TEXT_BYTES_def MAX_TOKEN_BYTES_def)
  note token = bind_bytes [where s = "[]", simplified append_Nil2]
  show ?thesis
    using fits assms(2-4) parts small
    unfolding decode_observe_request_def reader_new_at bs
    by (simp add: bind_simps token finish_at packet_fits_def)
qed

lemma encode_observe_response_ok:
  "encode_observe_response r = Inr bs \<Longrightarrow>
    vo_device_id r \<noteq> [] \<and> length (vo_device_id r) \<le> MAX_TEXT_BYTES
    \<and> vo_observed_endpoint r \<noteq> [] \<and> length (vo_observed_endpoint r) \<le> MAX_TEXT_BYTES
    \<and> vo_observe_result_id r \<noteq> [] \<and> length (vo_observe_result_id r) \<le> MAX_TEXT_BYTES
    \<and> bs = OBSERVE_RESPONSE_MAGIC @ to_be_bytes (vo_session_id r)
        @ to_be_bytes (of_nat (length (vo_device_id r)) :: u16) @ str_bytes (vo_device_id r)
        @ role_byte (vo_role r) # vo_local_socket_nonce r
        @ to_be_bytes (of_nat (length (vo_observed_endpoint r)) :: u16) @ str_bytes (vo_observed_endpoint r)
        @ to_be_bytes (of_nat (length (vo_observe_result_id r)) :: u16) @ str_bytes (vo_observe_result_id r)
        @ vo_binding_hash r @ to_be_bytes (vo_expires_at_epoch_millis r)"
  by (auto simp: encode_observe_response_def Let_def result_simps push_text_ok)

lemma decode_encode_observe_response:
  assumes enc: "encode_observe_response r = Inr bs"
    and "utf8_valid (str_bytes (vo_device_id r))" "utf8_valid (str_bytes (vo_observed_endpoint r))"
      "utf8_valid (str_bytes (vo_observe_result_id r))"
    and arrays: "length (vo_local_socket_nonce r) = 32" "length (vo_binding_hash r) = 32"
  shows "decode_observe_response bs = Inr r" and "length bs \<le> MAX_OBSERVE_DATAGRAM_BYTES"
proof -
  from encode_observe_response_ok [OF enc]
  have bs: "bs = OBSERVE_RESPONSE_MAGIC @ to_be_bytes (vo_session_id r)
        @ to_be_bytes (of_nat (length (vo_device_id r)) :: u16) @ str_bytes (vo_device_id r)
        @ role_byte (vo_role r) # vo_local_socket_nonce r
        @ to_be_bytes (of_nat (length (vo_observed_endpoint r)) :: u16) @ str_bytes (vo_observed_endpoint r)
        @ to_be_bytes (of_nat (length (vo_observe_result_id r)) :: u16) @ str_bytes (vo_observe_result_id r)
        @ vo_binding_hash r @ to_be_bytes (vo_expires_at_epoch_millis r)"
    and parts: "vo_device_id r \<noteq> []" "length (vo_device_id r) \<le> MAX_TEXT_BYTES"
      "vo_observed_endpoint r \<noteq> []" "length (vo_observed_endpoint r) \<le> MAX_TEXT_BYTES"
      "vo_observe_result_id r \<noteq> []" "length (vo_observe_result_id r) \<le> MAX_TEXT_BYTES"
    by blast+
  have "length bs \<le> 1700" using arrays parts by (simp add: bs MAX_TEXT_BYTES_def)
  then show len: "length bs \<le> MAX_OBSERVE_DATAGRAM_BYTES" by (simp add: MAX_OBSERVE_DATAGRAM_BYTES_def)
  have small: "MAX_TEXT_BYTES < 2 ^ 16" by (simp add: MAX_TEXT_BYTES_def)
  note last_field = bind_u64 [where s = "[]", simplified append_Nil2]
  show "decode_observe_response bs = Inr r"
    using len assms(2-) parts small
    unfolding decode_observe_response_def reader_new_at bs
    by (simp add: bind_simps last_field finish_at packet_fits_def)
qed

subsection \<open>A decoded request is the only encoding of its content\<close>

lemma take_dest:
  "reader_take n (reader_at p s) = Inr (v, r') \<Longrightarrow>
    \<exists>t. s = v @ t \<and> length v = n \<and> r' = reader_at (p @ v) t"
  by (rule reader_take_split)

lemma magic_dest:
  "expect_magic m (reader_at p s) = Inr (u, r') \<Longrightarrow> \<exists>t. s = m @ t \<and> r' = reader_at (p @ m) t"
  by (auto simp: expect_magic_def result_simps dest!: take_dest split: if_splits)

lemma u128_dest:
  "reader_u128 (reader_at p s) = Inr (v, r') \<Longrightarrow>
    \<exists>t. s = to_be_bytes v @ t \<and> r' = reader_at (p @ to_be_bytes v) t"
  by (auto simp: reader_u128_def result_simps be128.enc_dec dest!: take_dest)

lemma u64_dest:
  "reader_u64 (reader_at p s) = Inr (v, r') \<Longrightarrow>
    \<exists>t. s = to_be_bytes v @ t \<and> r' = reader_at (p @ to_be_bytes v) t"
  by (auto simp: reader_u64_def result_simps be64.enc_dec dest!: take_dest)

lemma u8_dest:
  assumes "reader_u8 (reader_at p s) = Inr (b, r')"
  shows "\<exists>t. s = b # t \<and> r' = reader_at (p @ [b]) t"
proof -
  from assms obtain v where v: "reader_take 1 (reader_at p s) = Inr (v, r')" "b = v ! 0"
    by (auto simp: reader_u8_def result_simps)
  from take_dest [OF v(1)] obtain t where t: "s = v @ t" "length v = 1" "r' = reader_at (p @ v) t"
    by blast
  then have "v = [b]" using v(2) by (cases v) auto
  with t show ?thesis by simp
qed

lemma array_dest:
  "reader_array n (reader_at p s) = Inr (v, r') \<Longrightarrow>
    \<exists>t. s = v @ t \<and> length v = n \<and> r' = reader_at (p @ v) t"
  by (simp add: reader_array_def take_dest)

lemma bytes_dest:
  assumes "reader_bytes m (reader_at p s) = Inr (v, r')"
  shows "\<exists>t. s = to_be_bytes (of_nat (length v) :: u16) @ v @ t \<and> v \<noteq> [] \<and> length v \<le> m
    \<and> r' = reader_at (p @ to_be_bytes (of_nat (length v) :: u16) @ v) t"
proof -
  from assms obtain n w q where w: "reader_take 2 (reader_at p s) = Inr (w, q)"
    "n = (from_be_bytes w :: u16)" "unat n \<noteq> 0" "unat n \<le> m" "reader_take (unat n) q = Inr (v, r')"
    by (auto simp: reader_bytes_def reader_u16_def Let_def result_simps split: if_splits)
  from take_dest [OF w(1)] obtain t where t: "s = w @ t" "length w = 2" "q = reader_at (p @ w) t"
    by blast
  from w(5) [unfolded t(3)] obtain t' where t': "t = v @ t'" "length v = unat n"
    "r' = reader_at ((p @ w) @ v) t'"
    using take_dest by blast
  have "to_be_bytes (of_nat (length v) :: u16) = w"
    using t'(2) w(2) t(2) by (simp add: be16.enc_dec)
  moreover have "v \<noteq> []" using t'(2) w(3) by auto
  ultimately show ?thesis using t t' w(4) by auto
qed

lemma text_dest:
  assumes "reader_text m (reader_at p s) = Inr (v, r')"
  shows "\<exists>t. s = to_be_bytes (of_nat (length v) :: u16) @ str_bytes v @ t \<and> v \<noteq> [] \<and> length v \<le> m
    \<and> utf8_valid (str_bytes v)
    \<and> r' = reader_at (p @ to_be_bytes (of_nat (length v) :: u16) @ str_bytes v) t"
proof -
  from assms obtain w where w: "reader_bytes m (reader_at p s) = Inr (w, r')" "utf8_valid w"
    "v = bytes_str w"
    by (auto simp: reader_text_def result_simps split: if_splits)
  then have "str_bytes v = w" by simp
  then have "length v = length w" by (metis length_str_bytes)
  with bytes_dest [OF w(1)] \<open>str_bytes v = w\<close> w(2) show ?thesis by auto
qed

lemma decode_role_ok: "decode_role b = Inr r \<longleftrightarrow> b = role_byte r"
  by (cases r) (auto simp: decode_role_def)

lemma encode_decode_observe_request:
  assumes dec: "decode_observe_request bs = Inr a" and len: "length bs \<le> MAX_OBSERVE_DATAGRAM_BYTES"
  shows "encode_observe_request a = Inr bs \<and> utf8_valid (str_bytes (oa_device_id a))
    \<and> length (oa_local_socket_nonce a) = 32 \<and> length (oa_binding_hash a) = 32"
  using assms
  unfolding decode_observe_request_def reader_new_at encode_observe_request_ok
  by (auto simp: result_simps decode_role_ok reader_finish_at
      dest!: magic_dest u128_dest text_dest u8_dest array_dest u64_dest bytes_dest)

subsection \<open>A whole observation\<close>

definition ascii :: "string \<Rightarrow> bool" where
  "ascii s \<longleftrightarrow> (\<forall>c \<in> set s. (of_char c :: nat) < 128)"

lemma ascii_utf8: "ascii s \<Longrightarrow> utf8_valid (str_bytes s)"
proof (induction s)
  case Nil
  then show ?case by (simp add: str_bytes_def)
next
  case (Cons c s)
  then have "(of_char c :: u8) < 0x80"
    by (simp add: ascii_def word_less_nat_alt unat_of_char)
  moreover have "str_bytes (c # s) = of_char c # str_bytes s" by (simp add: str_bytes_def)
  ultimately show ?case using Cons by (simp add: ascii_def)
qed

lemma ascii_append [simp]: "ascii (s @ t) \<longleftrightarrow> ascii s \<and> ascii t"
  by (auto simp: ascii_def)

lemma ascii_digit_char: "d < 36 \<Longrightarrow> (of_char (digit_char d) :: nat) < 128"
proof -
  assume d: "d < 36"
  have "(of_char (char_of n :: char) :: nat) = n" if "n < 256" for n :: nat
    using that by (simp only: of_char_of mod_less)
  with d show ?thesis by (cases "d < 10") (simp_all only: digit_char_def if_True if_False)
qed

lemma ascii_show_radix:
  assumes "2 \<le> b" "b \<le> 36"
  shows "ascii (show_radix b n)"
  unfolding ascii_def show_radix_digits
proof
  fix c assume "c \<in> set (map digit_char (radix_digits b n))"
  then obtain d where "d \<in> set (radix_digits b n)" "c = digit_char d" by auto
  with radix_digits_range [OF assms(1)] assms(2) show "(of_char c :: nat) < 128"
    using ascii_digit_char [of d] less_le_trans by blast
qed

lemma ascii_join: "ascii sep \<Longrightarrow> \<forall>x \<in> set xs. ascii x \<Longrightarrow> ascii (join sep xs)"
proof (induction xs)
  case Nil
  then show ?case by (simp add: ascii_def)
next
  case (Cons x xs)
  then show ?case by (cases xs) simp_all
qed

lemma ascii_show_socket_v4: "ascii (show_socket (SocketV4 a p))"
proof -
  have sep: "ascii ''.''" "ascii '':''" by (simp_all add: ascii_def)
  have "ascii (show_v4 a)"
    unfolding show_v4_def by (rule ascii_join) (auto simp: sep ascii_show_radix)
  then show ?thesis using sep by (simp only: show_socket.simps ascii_append) (simp add: ascii_show_radix)
qed

text \<open>What the server has checked and answered, for a datagram that it decodes to \<open>a\<close>.\<close>

lemma handle_observe_ok:
  assumes "handle_udp_observe_once sha (Datagram d peer) now verify (Inr i) sends = Inr (r, response)"
    and "decode_observe_request d = Inr a"
  shows "validate_observe_authorization sha a now = Inr () \<and> verify a = Inr ()
    \<and> i \<noteq> [] \<and> vo_session_id r = oa_session_id a \<and> vo_device_id r = oa_device_id a
    \<and> vo_role r = oa_role a \<and> vo_local_socket_nonce r = oa_local_socket_nonce a
    \<and> vo_observed_endpoint r = show_socket peer \<and> vo_observe_result_id r = i
    \<and> vo_expires_at_epoch_millis r = oa_expires_at_epoch_millis a
    \<and> observe_result_binding_hash sha r = Inr (vo_binding_hash r)
    \<and> encode_observe_response r = Inr response"
proof -
  have "length d \<le> MAX_OBSERVE_DATAGRAM_BYTES"
    using assms(1) by (auto simp: handle_udp_observe_once_def Let_def split: if_splits)
  then have "take (MAX_OBSERVE_DATAGRAM_BYTES + 1) d = d" by simp
  with assms show ?thesis
    by (auto simp: handle_udp_observe_once_def Let_def result_simps observe_result_binding_hash_def
        observe_result_canonical observe_result_fields_def split: if_splits)
qed

lemma observe_end_to_end:
  assumes valid: "validate_observe_authorization sha a now = Inr ()"
    and encoded: "encode_observe_request a = Inr request"
    and arrays: "length (oa_local_socket_nonce a) = 32" "length (oa_binding_hash a) = 32"
    and texts: "utf8_valid (str_bytes (oa_device_id a))" "utf8_valid (str_bytes i)"
    and sha: "\<And>m. length (sha m) = 32"
    and server: "handle_udp_observe_once sha (Datagram request (SocketV4 ip port)) now verify (Inr i) sends
      = Inr (r, response)"
    and sent: "sent request = Some n" "0 < n"
  shows "request_udp_observe sha srv a now sent (Datagram response srv) = Inr r
    \<and> vo_observed_endpoint r = show_socket (SocketV4 ip port)"
proof -
  have dec: "decode_observe_request request = Inr a"
    by (rule decode_encode_observe_request [OF encoded texts(1) arrays])
  have r: "vo_session_id r = oa_session_id a"
    "vo_device_id r = oa_device_id a" "vo_role r = oa_role a"
    "vo_local_socket_nonce r = oa_local_socket_nonce a"
    "vo_observed_endpoint r = show_socket (SocketV4 ip port)" "i \<noteq> []"
    "vo_observe_result_id r = i" "vo_expires_at_epoch_millis r = oa_expires_at_epoch_millis a"
    "observe_result_binding_hash sha r = Inr (vo_binding_hash r)"
    "encode_observe_response r = Inr response"
    using handle_observe_ok [OF server dec] by blast+
  have hash: "length (vo_binding_hash r) = 32"
    using r(9) sha by (auto simp: observe_result_binding_hash_def result_simps)
  have endpoint: "utf8_valid (str_bytes (show_socket (SocketV4 ip port)))"
    by (rule ascii_utf8) (rule ascii_show_socket_v4)
  have "decode_observe_response response = Inr r" "length response \<le> MAX_OBSERVE_DATAGRAM_BYTES"
    by (rule decode_encode_observe_response [OF r(10)];
        use r(2,4,5,7) texts endpoint arrays(1) hash in \<open>simp del: show_socket.simps\<close>)+
  moreover from this(2) have "take (MAX_OBSERVE_DATAGRAM_BYTES + 1) response = response" by simp
  moreover have "\<not> vo_expires_at_epoch_millis r < now"
    using valid r(8) by (auto simp: validate_observe_authorization_def split: if_splits)
  then have "validate_observe_result sha r a now = Inr ()"
    using valid r parse_show_v4 [of ip port]
    by (simp add: validate_observe_result_def del: show_socket.simps)
  ultimately have "request_udp_observe sha srv a now sent (Datagram response srv) = Inr r"
    using valid encoded sent by (simp add: request_udp_observe_def Let_def)
  with r(5) show ?thesis by blast
qed

text \<open>Whatever a client accepts was bound, by its hash, to the very token it sent.\<close>

lemma request_observe_ok:
  assumes "request_udp_observe sha srv a now sent recv = Inr r"
  shows "(\<exists>d. recv = Datagram d srv \<and> decode_observe_response d = Inr r)
    \<and> validate_observe_result sha r a now = Inr ()"
  using assms
  by (auto simp: request_udp_observe_def Let_def result_simps split: received.splits if_splits)

end
