(* ===== verification/Rc_Channel.thy ===== *)
theory Rc_Channel
  imports Rc_Racing
begin

section \<open>Data channel frames\<close>

text \<open>
  \<^verbatim>\<open>crates/remote-transport/src/channel.rs\<close>: limits of a data channel, the opaque frame and
  its wire format, the role handshake, the routing of channels over QUIC and the
  cancellation flag. A \<^verbatim>\<open>Duration\<close> is its number of nanoseconds. Waiting for a deadline is
  left to the runtime; \<open>run_with_deadline\<close> takes the event that won the race as its argument.
\<close>

definition RELIABLE_CHANNELS :: "channel_id list" where
  "RELIABLE_CHANNELS =
    [SecureControl, InputReliable, MediaControl, Clipboard, FileTransfer, DeviceControl]"

type_synonym duration = nat

definition from_secs :: "nat \<Rightarrow> duration" where
  "from_secs n = n * 10 ^ 9"

record data_channel_limits =
  dl_connect_timeout :: duration
  dl_handshake_timeout :: duration
  dl_io_timeout :: duration
  dl_idle_timeout :: duration
  dl_keep_alive_interval :: duration
  dl_max_frame_payload_bytes :: nat
  dl_max_video_stream_bytes :: nat
  dl_max_video_stream_messages :: nat
  dl_max_datagram_bytes :: nat
  dl_stream_receive_window_bytes :: u32
  dl_connection_receive_window_bytes :: u32
  dl_datagram_buffer_bytes :: nat
  dl_max_bidirectional_streams :: u32
  dl_max_unidirectional_streams :: u32

definition data_channel_limits_default :: data_channel_limits where
  "data_channel_limits_default =
    \<lparr>dl_connect_timeout = from_secs 3, dl_handshake_timeout = from_secs 3,
     dl_io_timeout = from_secs 5, dl_idle_timeout = from_secs 30,
     dl_keep_alive_interval = from_secs 10,
     dl_max_frame_payload_bytes = 8 * 1024 * 1024,
     dl_max_video_stream_bytes = 16 * 1024 * 1024,
     dl_max_video_stream_messages = 1024, dl_max_datagram_bytes = 1200,
     dl_stream_receive_window_bytes = 2 * 1024 * 1024,
     dl_connection_receive_window_bytes = 16 * 1024 * 1024,
     dl_datagram_buffer_bytes = 256 * 1024, dl_max_bidirectional_streams = 8,
     dl_max_unidirectional_streams = 64\<rparr>"

datatype data_channel_failure =
    Cancelled
  | Timeout
  | InvalidAddress
  | Authentication
  | Connection
  | ChannelClosed
  | Protocol
  | FrameTooLarge
  | ResourceLimit
  | DatagramUnavailable
  | ChannelBackpressure
  | InvalidConfiguration
  | ChannelIo

record data_channel_error =
  de_kind :: data_channel_failure
  de_operation :: string

definition channel_error :: "data_channel_failure \<Rightarrow> string \<Rightarrow> data_channel_error + 'a" where
  "channel_error kind operation = Inl \<lparr>de_kind = kind, de_operation = operation\<rparr>"

definition limits_validate :: "data_channel_limits \<Rightarrow> data_channel_error + data_channel_limits" where
  "limits_validate l =
    (if dl_connect_timeout l = 0
        \<or> dl_handshake_timeout l = 0
        \<or> dl_io_timeout l = 0
        \<or> dl_idle_timeout l = 0
        \<or> dl_keep_alive_interval l = 0
        \<or> dl_keep_alive_interval l \<ge> dl_idle_timeout l
        \<or> dl_max_frame_payload_bytes l = 0
        \<or> dl_max_video_stream_bytes l < HEADER_LEN
        \<or> dl_max_video_stream_messages l < 2
        \<or> dl_max_datagram_bytes l < HEADER_LEN
        \<or> dl_stream_receive_window_bytes l = 0
        \<or> dl_connection_receive_window_bytes l < dl_stream_receive_window_bytes l
        \<or> dl_datagram_buffer_bytes l < dl_max_datagram_bytes l
        \<or> dl_max_bidirectional_streams l < of_nat (length RELIABLE_CHANNELS)
        \<or> dl_max_unidirectional_streams l = 0
     then channel_error InvalidConfiguration ''validate_limits''
     else Inr l)"

subsection \<open>Frames\<close>

record opaque_frame =
  of_header :: message_header
  of_payload :: bytes

definition frame_new :: "message_header \<Rightarrow> bytes \<Rightarrow> data_channel_error + opaque_frame" where
  "frame_new header payload =
    (case validate_kind_channel header of
       Inl _ \<Rightarrow> channel_error Protocol ''validate_frame''
     | Inr _ \<Rightarrow>
         if unat (h_payload_len header) \<noteq> length payload \<or> h_sequence header > MAX_SECURE_SEQUENCE
         then channel_error Protocol ''validate_frame''
         else Inr \<lparr>of_header = header, of_payload = payload\<rparr>)"

definition frame_wire_len :: "opaque_frame \<Rightarrow> nat" where
  "frame_wire_len f = usize_saturating_add HEADER_LEN (length (of_payload f))"

definition to_wire_bytes :: "opaque_frame \<Rightarrow> bytes" where
  "to_wire_bytes f = encode_header (of_header f) @ of_payload f"

definition validate_for ::
    "opaque_frame \<Rightarrow> u128 \<Rightarrow> data_channel_limits \<Rightarrow> data_channel_error + unit" where
  "validate_for f session_id limits =
    (if h_session_id (of_header f) \<noteq> session_id then channel_error Protocol ''validate_session''
     else if length (of_payload f) > dl_max_frame_payload_bytes limits
     then channel_error FrameTooLarge ''validate_frame''
     else Inr ())"

definition from_wire_bytes ::
    "bytes \<Rightarrow> u128 \<Rightarrow> data_channel_limits \<Rightarrow> data_channel_error + opaque_frame" where
  "from_wire_bytes bs session_id limits =
    (if length bs < HEADER_LEN then channel_error Protocol ''decode_frame''
     else
       case decode_header (take HEADER_LEN bs) of
         Inl _ \<Rightarrow> channel_error Protocol ''decode_frame_header''
       | Inr header \<Rightarrow>
           let payload_len = unat (h_payload_len header) in
           if payload_len > dl_max_frame_payload_bytes limits
           then channel_error FrameTooLarge ''decode_frame_length''
           else if length bs \<noteq> usize_saturating_add HEADER_LEN payload_len
           then channel_error Protocol ''decode_frame_length''
           else
             and_then (frame_new header (drop HEADER_LEN bs)) (\<lambda>frame.
             and_then (validate_for frame session_id limits) (\<lambda>_. Inr frame)))"

subsection \<open>Handshake, routes, cancellation\<close>

record role_handshake =
  rh_session_id :: u128
  rh_role :: session_role

definition role_handshake_new :: "u128 \<Rightarrow> session_role \<Rightarrow> role_handshake" where
  "role_handshake_new session_id role = \<lparr>rh_session_id = session_id, rh_role = role\<rparr>"

definition expected_peer_role :: "role_handshake \<Rightarrow> session_role" where
  "expected_peer_role h = (case rh_role h of Controller \<Rightarrow> Controlled | Controlled \<Rightarrow> Controller)"

datatype quic_frame_route = ReliableStream channel_id | VideoFrameStream | DatagramRoute

definition quic_route :: "channel_id \<Rightarrow> quic_frame_route" where
  "quic_route channel =
    (case channel of
       Video \<Rightarrow> VideoFrameStream
     | InputRealtime \<Rightarrow> DatagramRoute
     | Telemetry \<Rightarrow> DatagramRoute
     | channel \<Rightarrow> ReliableStream channel)"

definition supports_quic_data_path :: "transport_kind \<Rightarrow> bool" where
  "supports_quic_data_path kind \<longleftrightarrow> kind \<in> {KLanDirect, KUdpP2p, KQuicRelay}"

record transport_cancellation =
  tc_cancelled :: bool

text \<open>\<^verbatim>\<open>cancel\<close>; the flag tells whether the waiters are notified by this call.\<close>

definition cancellation_cancel :: "transport_cancellation \<Rightarrow> bool \<times> transport_cancellation" where
  "cancellation_cancel c = (\<not> tc_cancelled c, c\<lparr>tc_cancelled := True\<rparr>)"

datatype ('e, 'a) deadline_event = CancelledFirst | Completed "'e + 'a" | TimedOut

definition run_with_deadline ::
    "transport_cancellation \<Rightarrow> string \<Rightarrow> ('e, 'a) deadline_event \<Rightarrow> data_channel_error + 'a" where
  "run_with_deadline c operation event =
    (if tc_cancelled c then channel_error Cancelled operation
     else
       case event of
         CancelledFirst \<Rightarrow> channel_error Cancelled operation
       | Completed (Inr value) \<Rightarrow> Inr value
       | Completed (Inl _) \<Rightarrow> channel_error ChannelIo operation
       | TimedOut \<Rightarrow> channel_error Timeout operation)"

text \<open>\<^verbatim>\<open>From<DataChannelError> for TransportError\<close>; \<open>show\<close> is the error's \<^verbatim>\<open>Display\<close>.\<close>

definition transport_error_from ::
    "(data_channel_error \<Rightarrow> string) \<Rightarrow> data_channel_error \<Rightarrow> transport_error" where
  "transport_error_from show' e =
    (case de_kind e of
       Cancelled \<Rightarrow> TransportClosed
     | ChannelClosed \<Rightarrow> TransportClosed
     | ChannelBackpressure \<Rightarrow> Backpressure
     | InvalidConfiguration \<Rightarrow> TransportInvalidState
     | Protocol \<Rightarrow> TransportInvalidState
     | _ \<Rightarrow> Io (show' e))"

subsection \<open>The frame codec\<close>

lemma channel_error_simps [simp, result_simps]:
  "channel_error k s \<noteq> Inr x" "Inr x \<noteq> channel_error k s"
  by (simp_all add: channel_error_def)

lemma frame_new_ok:
  "frame_new h p = Inr f \<longleftrightarrow>
    kind_accepts_channel (h_kind h) (h_channel_id h) \<and> unat (h_payload_len h) = length p
    \<and> h_sequence h \<le> MAX_SECURE_SEQUENCE \<and> f = \<lparr>of_header = h, of_payload = p\<rparr>"
  by (auto simp: frame_new_def validate_kind_channel_def not_less)

text \<open>A frame built by \<^verbatim>\<open>new\<close>, of the current version.\<close>

definition frame_ok :: "opaque_frame \<Rightarrow> bool" where
  "frame_ok f \<longleftrightarrow> h_version (of_header f) = PROTOCOL_VERSION
    \<and> frame_new (of_header f) (of_payload f) = Inr f"

lemma wire_len_exact: "n < 2 ^ 32 \<Longrightarrow> usize_saturating_add HEADER_LEN n = HEADER_LEN + n"
  by (simp add: usize_saturating_add_def usize_max_def HEADER_LEN_def)

lemma from_to_wire_bytes:
  assumes ok: "frame_ok f" and valid: "validate_for f sid l = Inr ()"
  shows "from_wire_bytes (to_wire_bytes f) sid l = Inr f"
proof -
  let ?h = "of_header f"
  have v: "h_version ?h = PROTOCOL_VERSION" "kind_accepts_channel (h_kind ?h) (h_channel_id ?h)"
    and len: "unat (h_payload_len ?h) = length (of_payload f)"
    and new: "frame_new ?h (of_payload f) = Inr f"
    using ok by (auto simp: frame_ok_def frame_new_ok)
  have dec: "decode_header (encode_header ?h) = Inr ?h"
    using decode_encode_header [OF v, of "[]"] by simp
  have bound: "length (of_payload f) < 2 ^ 32"
    using unat_bound [of "h_payload_len ?h"] len by simp
  have "\<not> length (of_payload f) > dl_max_frame_payload_bytes l"
    using valid by (auto simp: validate_for_def channel_error_def split: if_splits)
  then show ?thesis
    using dec len new valid wire_len_exact [OF bound]
    by (simp add: from_wire_bytes_def to_wire_bytes_def Let_def)
qed

lemma to_from_wire_bytes:
  assumes "from_wire_bytes bs sid l = Inr f"
  shows "to_wire_bytes f = bs" and "frame_ok f" and "validate_for f sid l = Inr ()"
proof -
  from assms obtain h where len: "HEADER_LEN \<le> length bs"
    and dec: "decode_header (take HEADER_LEN bs) = Inr h"
    and new: "frame_new h (drop HEADER_LEN bs) = Inr f" and "validate_for f sid l = Inr ()"
    by (auto simp: from_wire_bytes_def Let_def result_simps split: if_splits sum.splits)
  then show "validate_for f sid l = Inr ()" by blast
  have f: "of_header f = h" "of_payload f = drop HEADER_LEN bs"
    using new by (simp_all add: frame_new_ok)
  have "encode_header h = take HEADER_LEN bs"
    using encode_decode_header(1) [OF dec] by simp
  then show "to_wire_bytes f = bs" using f by (simp add: to_wire_bytes_def)
  show "frame_ok f" using new f encode_decode_header(2) [OF dec] by (simp add: frame_ok_def)
qed

lemma limits_default_valid:
  "limits_validate data_channel_limits_default = Inr data_channel_limits_default"
  by (simp add: limits_validate_def data_channel_limits_default_def from_secs_def HEADER_LEN_def
      RELIABLE_CHANNELS_def word_less_nat_alt)

text \<open>Exactly the six reliable channels get a stream of their own.\<close>

lemma quic_route_reliable: "quic_route c = ReliableStream d \<longleftrightarrow> c = d \<and> c \<in> set RELIABLE_CHANNELS"
  by (cases c) (auto simp: quic_route_def RELIABLE_CHANNELS_def)

end
