(* ===== verification/Rc_Samples.thy ===== *)
theory Rc_Samples
  imports Rc_Ordering Rc_Policy Rc_Scheduler Rc_Reconnect Rc_Racing Rc_Domains Rc_Observe
    Rc_Channel
begin

section \<open>Concrete inputs\<close>

text \<open>
  Concrete primitives, sessions, messages and guards at which the properties of the
  development are instantiated. The primitives are not secure; they satisfy the laws that
  the properties assume of the real ones (a signature verifies, a sealed message unseals).
\<close>

definition sample_primitives :: primitives where
  "sample_primitives =
    \<lparr>pr_sha256 = (\<lambda>m. replicate 32 0),
     pr_hmac = (\<lambda>k m. Some (replicate 32 7)),
     pr_hkdf = (\<lambda>salt secret info n. Some (replicate n 1)),
     pr_public = (\<lambda>k. k),
     pr_sign = (\<lambda>k m. take 64 (k @ m @ replicate 64 0)),
     pr_verify = (\<lambda>k m s. Some (s = take 64 (k @ m @ replicate 64 0))),
     pr_x_public = (\<lambda>k. k),
     pr_x_shared = (\<lambda>k p. k @ p),
     pr_seal = (\<lambda>k n a m. Some (m @ replicate 16 0)),
     pr_unseal = (\<lambda>k n a c. if length c < 16 then None else Some (take (length c - 16) c))\<rparr>"

lemma sample_signature_scheme: "signature_scheme sample_primitives"
  by (auto simp: signature_scheme_def sample_primitives_def min_def)

lemma sample_aead_scheme: "aead_scheme sample_primitives"
  by (auto simp: aead_scheme_def sample_primitives_def AUTH_TAG_LEN_def)

definition sample_permissions :: session_permissions where
  "sample_permissions =
    \<lparr>sp_remote_desktop = True, sp_input_control = True, sp_clipboard = False,
     sp_file_transfer = False, sp_unattended = False, sp_privacy_screen = False,
     sp_block_local_input = False, sp_require_prompt = True, sp_allow_relay = True\<rparr>"

definition sample_keys :: derived_session_keys where
  "sample_keys =
    \<lparr>sk_controller_to_controlled_key = replicate 32 1,
     sk_controller_to_controlled_nonce_prefix = replicate 4 1,
     sk_controlled_to_controller_key = replicate 32 2,
     sk_controlled_to_controller_nonce_prefix = replicate 4 2,
     sk_key_confirmation_controller_to_controlled = replicate 32 3,
     sk_key_confirmation_controlled_to_controller = replicate 32 4\<rparr>"

definition fresh_session :: "session_role \<Rightarrow> secure_session" where
  "fresh_session role =
    \<lparr>ss_session_id = 1, ss_local_role = role, ss_permissions = sample_permissions,
     ss_permissions_digest = replicate 32 5, ss_path = UdpP2p, ss_candidate_pair_id = 2,
     ss_relay_node_id = None, ss_key_exchange_transcript_hash = replicate 32 6,
     ss_keys = sample_keys, ss_send_sequences = replicate 9 0,
     ss_receive_replay_guard = replay_guard_default,
     ss_key_confirm_replay_guard = key_confirm_replay_guard_default,
     ss_local_confirm_sent = False, ss_peer_confirmed = False, ss_invalidated = False\<rparr>"

definition ready_session :: "session_role \<Rightarrow> secure_session" where
  "ready_session role =
    (fresh_session role)\<lparr>ss_local_confirm_sent := True, ss_peer_confirmed := True\<rparr>"

lemma fresh_session_new:
  "session_new 1 role sample_permissions (replicate 32 5) UdpP2p 2 None (replicate 32 6)
    sample_keys = Inr (fresh_session role)"
  by (simp add: session_new_def fresh_session_def is_relay_def)

lemma ready_session_state: "session_state (ready_session role) = Ready"
  by (simp add: session_state_def ready_session_def fresh_session_def)

lemma sample_peers: "session_peers (ready_session Controller) (ready_session Controlled)"
  by (simp add: session_peers_def ready_session_def fresh_session_def)

text \<open>A frame sealed by a ready controller.\<close>

definition sample_header :: message_header where
  "sample_header = (header_new InputEvent 1 0 17)\<lparr>h_channel_id := InputReliable\<rparr>"

lemma sample_sealed:
  "session_seal sample_primitives (ready_session Controller) InputEvent InputReliable 0 [1] =
    (Inr (sample_header, [1] @ replicate 16 0),
     (ready_session Controller)\<lparr>ss_send_sequences := (replicate 9 0)[1 := 1]\<rparr>)"
  by (simp add: session_seal_ok seal_frame_ok encrypt_payload_ok ready_session_state build_nonce_ok)
    (simp add: ready_session_def fresh_session_def sample_primitives_def sample_permissions_def
      channel_index_def kind_accepts_channel_iff sample_header_def send_header_def header_new_def
      AUTH_TAG_LEN_def saturating_add_def MAX_SECURE_SEQUENCE_def)

text \<open>Confirmations of two fresh peers.\<close>

definition sample_confirm :: "session_role \<Rightarrow> key_confirm" where
  "sample_confirm role =
    \<lparr>kc_session_id = 1, kc_device_id = ''d'', kc_role = role,
     kc_key_exchange_transcript_hash = replicate 32 6, kc_confirm_mac = replicate 32 7,
     kc_timestamp_epoch_millis = 10\<rparr>"

lemma sample_created:
  "create_local_key_confirm sample_primitives (fresh_session role) ''d'' 10 =
    (Inr (sample_confirm role), (fresh_session role)\<lparr>ss_local_confirm_sent := True\<rparr>)"
  by (cases role)
    (simp_all add: create_local_key_confirm_ok create_key_confirm_def fresh_session_def
      sample_confirm_def key_confirm_canonical canonical_encode_total key_confirm_fields_def
      field_fits_def sample_primitives_def)

lemma fresh_peers: "session_peers (fresh_session Controller) (fresh_session Controlled)"
  by (simp add: session_peers_def fresh_session_def)

definition sample_calls :: "session_op list" where
  "sample_calls =
    [CreateConfirm ''d'' 10, VerifyConfirm (sample_confirm Controlled) ''d'' 40,
     Seal InputEvent InputReliable 0 [1]]"

lemma sample_verified:
  "\<exists>g. verify_peer_key_confirm sample_primitives
      ((fresh_session Controller)\<lparr>ss_local_confirm_sent := True\<rparr>) (sample_confirm Controlled)
      ''d'' 40 =
    (Inr (), (ready_session Controller)\<lparr>ss_key_confirm_replay_guard := g\<rparr>)"
  by (auto simp: verify_peer_key_confirm_ok key_confirm_verify_ok key_confirm_checked_ok
      fresh_session_def ready_session_def sample_confirm_def key_confirm_canonical
      canonical_encode_total key_confirm_fields_def field_fits_def sample_primitives_def
      key_confirm_replay_guard_default_def abs_diff_def KEY_CONFIRM_WINDOW_MILLIS_def)

lemma sample_calls_data:
  "data_kind (fst (fst (run_ops (session_step sample_primitives) (fresh_session Controller)
      sample_calls) ! 2)) (snd (fst (run_ops (session_step sample_primitives)
      (fresh_session Controller) sample_calls) ! 2)) = Some InputEvent"
  "length sample_calls = 3"
  "fst (fst (run_ops (session_step sample_primitives) (fresh_session Controller) sample_calls) ! 2)
    = sample_calls ! 2"
proof -
  obtain g where g: "verify_peer_key_confirm sample_primitives
      ((fresh_session Controller)\<lparr>ss_local_confirm_sent := True\<rparr>) (sample_confirm Controlled)
      ''d'' 40 = (Inr (), (ready_session Controller)\<lparr>ss_key_confirm_replay_guard := g\<rparr>)"
    using sample_verified by blast
  have "session_seal sample_primitives
      ((ready_session Controller)\<lparr>ss_key_confirm_replay_guard := g\<rparr>) InputEvent InputReliable 0 [1] =
    (Inr (sample_header, [1] @ replicate 16 0), (ready_session Controller)
      \<lparr>ss_key_confirm_replay_guard := g, ss_send_sequences := (replicate 9 0)[1 := 1]\<rparr>)"
    by (simp add: session_seal_ok seal_frame_ok encrypt_payload_ok build_nonce_ok session_state_def)
      (simp add: ready_session_def fresh_session_def sample_primitives_def sample_permissions_def
        channel_index_def kind_accepts_channel_iff sample_header_def send_header_def header_new_def
        AUTH_TAG_LEN_def saturating_add_def MAX_SECURE_SEQUENCE_def)
  then show "data_kind (fst (fst (run_ops (session_step sample_primitives) (fresh_session Controller)
      sample_calls) ! 2)) (snd (fst (run_ops (session_step sample_primitives)
      (fresh_session Controller) sample_calls) ! 2)) = Some InputEvent"
    by (simp add: sample_calls_def session_step_def sample_created g)
qed (simp_all add: sample_calls_def split_beta)

subsection \<open>Key exchange\<close>

definition sample_payload :: "session_role \<Rightarrow> signed_key_exchange_payload" where
  "sample_payload role =
    \<lparr>ke_session_id = 1, ke_device_id = ''d'', ke_role = role,
     ke_session_context_hash = replicate 32 1, ke_permissions_digest = replicate 32 2,
     ke_session_expires_at_epoch_millis = 9, ke_ephemeral_public_key = replicate 32 3,
     ke_key_exchange_nonce = replicate 32 4, ke_selected_transport_path = UdpP2p,
     ke_selected_candidate_pair_id = 5, ke_relay_node_id = None, ke_timestamp_epoch_millis = 6\<rparr>"

definition sample_exchange :: "session_role \<Rightarrow> signed_key_exchange" where
  "sample_exchange role = \<lparr>ske_payload = sample_payload role, ske_signature = replicate 64 0\<rparr>"

lemma sample_payload_bytes:
  "key_exchange_canonical_bytes (sample_payload role) =
    Inr (fields_bytes (key_exchange_fields (sample_payload role)))"
  by (cases role)
    (simp_all add: key_exchange_canonical canonical_encode_total key_exchange_fields_def
      sample_payload_def field_fits_def opt_bytes_def)

lemma sample_payload_binding: "validate_path_binding (ske_payload (sample_exchange role))"
  by (simp add: sample_exchange_def sample_payload_def validate_path_binding_def is_relay_def)

lemma zeros_64: "replicate 64 (0 :: u8) = replicate 32 0 @ replicate 32 0"
  using replicate_add [of 32 32 "0 :: u8"] by simp

lemma sample_signed:
  "sign_key_exchange sample_primitives (sample_payload role)
      (from_private_key sample_primitives (replicate 32 0)) = Inr (sample_exchange role)"
  using sample_payload_binding [of role]
  by (simp add: sign_key_exchange_def sample_payload_bytes sample_exchange_def sign_canonical_def
      sign_digest_def from_private_key_def sample_primitives_def zeros_64)

lemma sample_transcript:
  "\<exists>t. key_exchange_transcript (sample_exchange Controller) (sample_exchange Controlled) = Inr t"
  by (simp add: key_exchange_transcript_def sample_exchange_def sample_payload_bytes
      signature_bytes_def) (simp add: sample_payload_def)

definition sample_kdf :: session_kdf_context where
  "sample_kdf =
    \<lparr>kdf_account_id = ''a'', kdf_session_id = 1, kdf_controller_device_id = ''c'',
     kdf_controlled_device_id = ''d'', kdf_permissions_digest = replicate 32 1,
     kdf_protocol_version = 1, kdf_session_expires_at_epoch_millis = 9,
     kdf_selected_transport_path = UdpP2p, kdf_selected_candidate_pair_id = 5,
     kdf_relay_node_id = None, kdf_key_exchange_transcript_hash = replicate 32 2\<rparr>"

lemma sample_info: "info_base sample_kdf = Inr (fields_bytes (info_fields sample_kdf))"
  by (simp add: info_canonical canonical_encode_total info_fields_def sample_kdf_def
      field_fits_def opt_bytes_def)

subsection \<open>Scheduling and racing\<close>

definition sample_packet :: scheduled_packet where
  "sample_packet =
    \<lparr>pk_header = (header_new InputEvent 1 0 2)\<lparr>h_channel_id := InputReliable\<rparr>, pk_payload = [1, 2]\<rparr>"

definition sample_candidate :: "transport_kind \<Rightarrow> connection_candidate" where
  "sample_candidate kind = \<lparr>cc_kind = kind, cc_endpoint = ''e'', cc_rtt_ms = None\<rparr>"

definition sample_metrics :: "u32 \<Rightarrow> link_metrics" where
  "sample_metrics rtt = \<lparr>lm_rtt_ms = rtt, lm_loss_ppm = 0, lm_jitter_ms = 0\<rparr>"

definition sample_race :: path_race where
  "sample_race =
    \<lparr>rf_config = race_config_default, rf_started_at_epoch_millis = 100,
     rf_attempts =
       [\<lparr>ae_candidate = sample_candidate KQuicRelay, ae_state = Succeeded (sample_metrics 1)\<rparr>,
        \<lparr>ae_candidate = sample_candidate KUdpP2p, ae_state = Succeeded (sample_metrics 8)\<rparr>,
        \<lparr>ae_candidate = sample_candidate KTls443Relay, ae_state = Pending\<rparr>]\<rparr>"

definition sample_winner :: race_winner where
  "sample_winner =
    \<lparr>wn_attempt_id = 1, wn_candidate = sample_candidate KUdpP2p, wn_metrics = sample_metrics 8\<rparr>"

lemma sample_race_won: "best_success sample_race = Some sample_winner"
  by (simp add: best_success_def race_successes_def sample_race_def enumerate_eq_zip
      List.map_filter_def compare_winners_def cmp_def sample_candidate_def
      sample_winner_def)

definition sample_loser :: race_winner where
  "sample_loser =
    \<lparr>wn_attempt_id = 0, wn_candidate = sample_candidate KQuicRelay, wn_metrics = sample_metrics 1\<rparr>"

lemma sample_race_lost:
  "sample_loser \<in> set (race_successes sample_race)" "sample_winner \<in> set (race_successes sample_race)"
  "set (race_successes sample_race) \<subseteq> close_rtts (rf_config sample_race) 1"
  by (auto simp: race_successes_def sample_race_def enumerate_eq_zip List.map_filter_def
      sample_loser_def sample_winner_def close_rtts_def sample_metrics_def race_config_default_def
      DEFAULT_RTT_CLOSE_THRESHOLD_MILLIS_def)

lemma sample_tls_due:
  "\<lparr>at_attempt_id = 2, at_candidate = sample_candidate KTls443Relay\<rparr>
    \<in> set (fst (take_due_attempts sample_race 900))"
  "rf_tls_443_start_delay_millis (rf_config sample_race) = DEFAULT_TLS_443_START_DELAY_MILLIS"
  "rf_started_at_epoch_millis sample_race = 100"
  by (simp_all add: take_due_attempts_def sample_race_def race_config_default_def enumerate_eq_zip
      List.map_filter_def attempt_due_def sample_candidate_def saturating_sub_def
      DEFAULT_TLS_443_START_DELAY_MILLIS_def)

subsection \<open>Relay opens\<close>

definition sample_relay_open :: relay_open where
  "sample_relay_open =
    \<lparr>ro_session_id = 1, ro_device_id = ''d'', ro_role = Controller,
     ro_controller_device_id = ''d'', ro_controlled_device_id = ''e'', ro_relay_node_id = ''n'',
     ro_transport = QuicRelay, ro_permissions_digest = replicate 32 1, ro_relay_token_epoch = 2,
     ro_issued_at_epoch_millis = 10, ro_expires_at_epoch_millis = 50, ro_relay_token_id = ''t'',
     ro_relay_open_nonce = replicate 32 9, ro_session_relay_token = [1],
     ro_token_binding_hash = replicate 32 0, ro_device_signature = replicate 64 0\<rparr>"

definition sample_allocation :: relay_allocation where
  "sample_allocation =
    \<lparr>ra_session_id = 1, ra_device_id = ''d'', ra_role = Controller,
     ra_controller_device_id = ''d'', ra_controlled_device_id = ''e'', ra_relay_node_id = ''n'',
     ra_transport = QuicRelay, ra_public_endpoint = ''p'', ra_permissions_digest = replicate 32 1,
     ra_relay_token_epoch = 2, ra_issued_at_epoch_millis = 10, ra_expires_at_epoch_millis = 50,
     ra_relay_token_id = ''t'', ra_session_relay_token = [1],
     ra_token_binding_hash = replicate 32 0\<rparr>"

definition sample_snapshot :: relay_authorization_snapshot where
  "sample_snapshot =
    \<lparr>rs_session_id = 1, rs_device_id = ''d'', rs_role = Controller, rs_status = CanConnect,
     rs_allow_relay = True, rs_permissions_digest = replicate 32 1, rs_relay_token_epoch = 2,
     rs_allowed_relay_node_ids = [''n''], rs_device_public_key = replicate 32 0,
     rs_device_public_key_version = 1, rs_expected_device_public_key_version = 1,
     rs_device_key_revoked = False, rs_expires_at_epoch_millis = 100\<rparr>"

lemma sample_open_authorized:
  "relay_open_authorized sample_primitives sample_relay_open sample_allocation sample_snapshot 20"
  by (simp add: relay_open_authorized_def sample_relay_open_def sample_allocation_def
      sample_snapshot_def is_relay_def relay_open_matches_allocation_def canonical_encode_total
      relay_token_binding_fields_def relay_open_fields_def field_fits_def sample_primitives_def
      saturating_sub_def RELAY_TOKEN_MAX_TTL_MILLIS_def relay_binding_fields_def zeros_64)

subsection \<open>LAN requests\<close>

definition sample_lan_request :: candidate_token_request where
  "sample_lan_request =
    \<lparr>cr_session_id = 1, cr_device_id = ''d'', cr_role = Controller, cr_candidate_id = 0,
     cr_kind = LanDirect, cr_endpoint = show_socket (SocketV4 0xC0A80002 50000),
     cr_source = LocalInterface, cr_relay_node_id = None, cr_observe_result_id = None,
     cr_observe_result_binding_hash = None, cr_local_interface_claim_hash = Some (replicate 32 0),
     cr_local_interface_signature = Some (replicate 64 0),
     cr_interface_name_hash = Some (replicate 32 1), cr_interface_index_hash = Some (replicate 32 2),
     cr_local_socket_nonce = Some (replicate 32 3), cr_timestamp_epoch_millis = Some 100,
     cr_requested_ttl_millis = 1000\<rparr>"

lemma sample_octets: "to_be_bytes (3232235522 :: u32) = [192, 168, 0, 2]"
proof -
  have "be_enc (Suc (Suc (Suc (Suc 0)))) 3232235522 = [192, 168, 0, 2]" by simp
  moreover have "Suc (Suc (Suc (Suc 0))) = 4" by simp
  ultimately show ?thesis by (simp only: to_be_bytes_def) simp
qed

lemma sample_endpoint:
  "validate_lan_endpoint (show_socket (SocketV4 3232235522 50000)) = Inr (SocketV4 3232235522 50000)"
  unfolding validate_lan_endpoint_ok parse_show_v4 socket_ip.simps private_v4_iff
  by (simp add: v4_is_private_def v4_octet_def octets_v4_def sample_octets)

lemma sample_endpoint_text: "show_socket (SocketV4 3232235522 50000) = ''192.168.0.2:50000''"
  by (simp add: show_v4_def octets_v4_def sample_octets show_radix.simps digit_char_def char_of_def
      bit_Suc_0_iff)

lemma sample_candidate_id:
  "candidate_id (\<lambda>m. replicate 32 0) (requested_candidate sample_lan_request) = Inr 0"
proof -
  have "be_dec (replicate 16 0) = 0" by (simp add: be_dec_def numeral_eq_Suc)
  moreover have "\<forall>f \<in> set (candidate_id_fields (requested_candidate sample_lan_request)). field_fits f"
    unfolding requested_candidate_def sample_lan_request_def sample_endpoint_text
    by (simp add: candidate_id_fields_def field_fits_def opt_bytes_def)
  moreover have "validate_candidate_shape (requested_candidate sample_lan_request) = Inr ()"
    by (simp add: validate_candidate_shape_ok requested_candidate_def sample_lan_request_def
        is_relay_def)
  ultimately show ?thesis
    by (simp add: candidate_id_def candidate_id_canonical canonical_encode_total digest_prefix_def
        from_be_bytes_def slice_def)
qed

lemma sample_lan_checked:
  "lan_request_checked sample_primitives sample_lan_request 1 ''d'' Controller (replicate 32 0) 110 =
    Inr (requested_candidate sample_lan_request, replicate 32 3)"
proof -
  have "candidate_from_token_request (pr_sha256 sample_primitives) sample_lan_request =
      Inr (requested_candidate sample_lan_request)"
    using sample_candidate_id
    by (simp add: candidate_from_token_request_ok sample_primitives_def sample_lan_request_def)
  moreover have "local_interface_claim_hash (pr_sha256 sample_primitives) sample_lan_request =
      Inr (replicate 32 0)"
    unfolding local_interface_claim_hash_def claim_canonical
    by (simp add: sample_lan_request_def sample_endpoint_text claim_fields_def canonical_encode_total
        field_fits_def sample_primitives_def del: show_socket.simps)
  ultimately show ?thesis
    using sample_endpoint
    by (simp add: lan_request_checked_def sample_lan_request_def validate_token_request_ttl_def
        verify_digest_signature_def sample_primitives_def abs_diff_def zeros_64
        LAN_INTERFACE_CLAIM_WINDOW_MILLIS_def CANDIDATE_TOKEN_MAX_TTL_MILLIS_def del: show_socket.simps)
qed

lemma sample_lan_accepted:
  "fst (lan_step sample_primitives lan_candidate_guard_default
      \<lparr>lo_request = sample_lan_request, lo_session_id = 1, lo_device_id = ''d'',
       lo_role = Controller, lo_public_key = replicate 32 0, lo_now = 110\<rparr>) =
    Inr (requested_candidate sample_lan_request)"
  by (simp add: lan_step_def lan_validate_request_def sample_lan_checked lan_candidate_guard_default_def
      LAN_CANDIDATE_MAX_PER_DEVICE_SESSION_def Let_def)

subsection \<open>Connections\<close>

definition sample_binding :: secure_path_binding where
  "sample_binding =
    \<lparr>pb_transport_path = UdpP2p, pb_candidate_pair_id = 3, pb_relay_node_id = None,
     pb_permissions_digest = replicate 32 1\<rparr>"

definition sample_connects :: "conn_op list" where
  "sample_connects =
    [Start, PermissionsPrepared, CandidatesGathered, CandidatesExchanged,
     InitialPathSelected sample_binding, SecureSessionEstablished 1000,
     BeginReconnect HeartbeatTimeout]"

definition sample_reconnecting :: connection_state_machine where
  "sample_reconnecting =
    snd (run_ops conn_step (connection_new reconnect_config_default) sample_connects)"

lemma sample_reconnecting_state:
  "cm_phase sample_reconnecting = Reconnecting"
  "cm_active_binding sample_reconnecting = Some sample_binding"
  "cm_last_authenticated_activity sample_reconnecting = Some 1000"
  by (simp_all add: sample_reconnecting_def sample_connects_def conn_step_def conn_defs
      connection_new_def path_binding_validate_def sample_binding_def is_relay_def)

lemma run_history:
  "conn_history config h m \<Longrightarrow> \<forall>(x, r) \<in> set (fst (run_ops conn_step m xs)). is_ok r \<Longrightarrow>
    conn_history config (h @ xs) (snd (run_ops conn_step m xs))"
proof (induction xs arbitrary: h m)
  case Nil
  then show ?case by simp
next
  case (Cons x xs)
  obtain r m' where step: "conn_step m x = (r, m')" by fastforce
  from Cons.prems(2) step obtain u where "r = Inr u"
    by (cases r) (auto simp: run_ops_Cons_simp simp del: run_ops.simps(2))
  with step Cons.prems(1) have "conn_history config (h @ [x]) m'"
    by (simp add: conn_history.succeeds)
  with Cons.IH [of "h @ [x]" m'] Cons.prems(2) step show ?case
    by (simp add: run_ops_Cons_simp del: run_ops.simps(2))
qed

lemma sample_history: "conn_history reconnect_config_default sample_connects sample_reconnecting"
proof -
  have "\<forall>(x, r) \<in> set (fst (run_ops conn_step (connection_new reconnect_config_default)
      sample_connects)). is_ok r"
    by (simp add: sample_connects_def conn_step_def conn_defs connection_new_def
        path_binding_validate_def sample_binding_def is_relay_def)
  from run_history [OF conn_history.initial this] show ?thesis by (simp add: sample_reconnecting_def)
qed

subsection \<open>Guards\<close>

lemma sample_opens_results:
  "map snd (fst (run_ops (relay_open_step sample_primitives) \<lparr>og_seen = {}\<rparr>
      [(sample_relay_open, sample_allocation, sample_snapshot, True, 20),
       (sample_relay_open, sample_allocation, sample_snapshot, True, 20)])) =
    [Inr (), Inl NonceReplay]"
proof -
  have "relay_open_checked sample_primitives sample_relay_open sample_allocation sample_snapshot True 20
      = Inr ()"
    using sample_open_authorized by (simp add: relay_open_checked_ok)
  then show ?thesis by (simp add: relay_open_step_def relay_open_validate_def)
qed

definition sample_probe :: "u64 \<Rightarrow> probe_op" where
  "sample_probe expires =
    \<lparr>po_elapsed = 10,
     po_candidate = (requested_candidate sample_lan_request)\<lparr>cd_endpoint := ''e''\<rparr>,
     po_authorization = \<lparr>ca_candidate_token = [1], ca_candidate_token_binding_hash = replicate 32 0,
       ca_expires_at_epoch_millis = expires\<rparr>,
     po_token = [1], po_role = Controlled, po_nonce = [7]\<rparr>"

subsection \<open>Observation and frames\<close>

definition sample_observe :: observe_authorization where
  "sample_observe =
    \<lparr>oa_session_id = 1, oa_device_id = ''d'', oa_role = Controller,
     oa_local_socket_nonce = replicate 32 1, oa_token = [1], oa_binding_hash = replicate 32 0,
     oa_expires_at_epoch_millis = 120\<rparr>"

lemma sample_observe_valid: "validate_observe_authorization (\<lambda>_. replicate 32 0) sample_observe 100 = Inr ()"
  by (simp add: validate_observe_authorization_def sample_observe_def saturating_sub_def
      OBSERVE_TOKEN_MAX_TTL_MILLIS_def observe_token_binding_hash_def observe_token_canonical
      observe_token_fields_def canonical_encode_total field_fits_def)

definition sample_request :: bytes where
  "sample_request =
    OBSERVE_REQUEST_MAGIC @ to_be_bytes (1 :: u128) @ to_be_bytes (1 :: u16) @ str_bytes ''d''
    @ role_byte Controller # replicate 32 1 @ to_be_bytes (120 :: u64) @ replicate 32 0
    @ to_be_bytes (1 :: u16) @ [1]"

lemma sample_observe_request: "encode_observe_request sample_observe = Inr sample_request"
  by (simp add: encode_observe_request_ok sample_observe_def sample_request_def MAX_TEXT_BYTES_def
      MAX_TOKEN_BYTES_def MAX_OBSERVE_DATAGRAM_BYTES_def)

definition sample_result :: validated_observe_result where
  "sample_result =
    \<lparr>vo_session_id = 1, vo_device_id = ''d'', vo_role = Controller,
     vo_local_socket_nonce = replicate 32 1,
     vo_observed_endpoint = show_socket (SocketV4 3232235522 50000), vo_observe_result_id = ''r'',
     vo_binding_hash = replicate 32 0, vo_expires_at_epoch_millis = 120\<rparr>"

definition sample_response :: bytes where
  "sample_response =
    OBSERVE_RESPONSE_MAGIC @ to_be_bytes (1 :: u128) @ to_be_bytes (1 :: u16) @ str_bytes ''d''
    @ role_byte Controller # replicate 32 1 @ to_be_bytes (17 :: u16) @ str_bytes ''192.168.0.2:50000''
    @ to_be_bytes (1 :: u16) @ str_bytes ''r'' @ replicate 32 0 @ to_be_bytes (120 :: u64)"

lemma sample_observe_response: "encode_observe_response sample_result = Inr sample_response"
  unfolding sample_result_def sample_endpoint_text
  by (simp add: encode_observe_response_def push_text_def push_bytes_def sample_response_def
      Let_def MAX_TEXT_BYTES_def MAX_OBSERVE_DATAGRAM_BYTES_def)

lemma sample_texts: "utf8_valid (str_bytes ''d'')" "utf8_valid (str_bytes ''r'')"
  by (rule ascii_utf8, simp add: ascii_def)+

lemma sample_observe_handled:
  "handle_udp_observe_once (\<lambda>_. replicate 32 0)
      (Datagram sample_request (SocketV4 3232235522 50000)) 100 (\<lambda>_. Inr ()) (Inr ''r'') (\<lambda>_. True) =
    Inr (sample_result, sample_response)"
proof -
  have len: "length sample_request \<le> MAX_OBSERVE_DATAGRAM_BYTES"
    by (simp add: sample_request_def MAX_OBSERVE_DATAGRAM_BYTES_def)
  have dec: "decode_observe_request sample_request = Inr sample_observe"
    by (rule decode_encode_observe_request [OF sample_observe_request])
      (simp_all add: sample_observe_def sample_texts)
  have hash: "observe_result_binding_hash (\<lambda>_. replicate 32 0) sample_result = Inr (replicate 32 0)"
    unfolding sample_result_def sample_endpoint_text
    by (simp add: observe_result_binding_hash_def observe_result_canonical observe_result_fields_def
        canonical_encode_total field_fits_def)
  show ?thesis
    using len dec hash sample_observe_valid sample_observe_response
    by (simp add: handle_udp_observe_once_def Let_def)
      (simp add: sample_observe_def sample_result_def MAX_TEXT_BYTES_def)
qed

definition sample_frame :: opaque_frame where
  "sample_frame = \<lparr>of_header = header_new InputEvent 1 0 2, of_payload = [1, 2]\<rparr>"

lemma sample_frame_ok:
  "frame_ok sample_frame" "validate_for sample_frame 1 data_channel_limits_default = Inr ()"
  by (simp_all add: frame_ok_def frame_new_ok sample_frame_def header_new_def validate_for_def
      data_channel_limits_default_def MAX_SECURE_SEQUENCE_def kind_accepts_channel_def)

end
