(* ===== verification/Rc_Core.thy ===== *)
theory Rc_Core
  imports Rc_Messages "HOL-Library.Finite_Map" "HOL-Library.List_Lexorder" "HOL-Library.Char_ord"
begin

section \<open>Devices, verification codes, sessions\<close>

text \<open>
  \<^verbatim>\<open>crates/remote-core/src/lib.rs\<close>: the registry of devices, the challenge for a
  verification code and the session record. A \<^verbatim>\<open>HashMap\<close> is a finite map; \<^verbatim>\<open>values()\<close> of it
  comes in no particular order, so \<open>list_online\<close> sorts the records as a set.
\<close>

datatype platform_kind = Windows | Ubuntu | Ios

datatype device_status = Online | Offline | Busy

record device_identity =
  di_device_id :: string
  di_display_name :: string
  di_platform :: platform_kind
  di_os_version :: string
  di_arch :: string
  di_public_key :: bytes

record device_record =
  dr_identity :: device_identity
  dr_status :: device_status
  dr_last_seen_epoch_millis :: u64

record device_registry =
  dg_devices :: "(string, device_record) fmap"

datatype device_registry_error = UnknownDevice

definition registry_default :: device_registry where
  "registry_default = \<lparr>dg_devices = fmempty\<rparr>"

definition registry_register :: "device_registry \<Rightarrow> device_identity \<Rightarrow> u64 \<Rightarrow> device_registry" where
  "registry_register r identity seen_at =
    r\<lparr>dg_devices := fmupd (di_device_id identity)
        \<lparr>dr_identity = identity, dr_status = Online, dr_last_seen_epoch_millis = seen_at\<rparr>
        (dg_devices r)\<rparr>"

definition registry_mark_status ::
    "device_registry \<Rightarrow> string \<Rightarrow> device_status \<Rightarrow> u64
      \<Rightarrow> (device_registry_error + unit) \<times> device_registry" where
  "registry_mark_status r device_id status seen_at =
    (case fmlookup (dg_devices r) device_id of
       None \<Rightarrow> (Inl UnknownDevice, r)
     | Some d \<Rightarrow>
         (Inr (), r\<lparr>dg_devices := fmupd device_id
            (d\<lparr>dr_status := status, dr_last_seen_epoch_millis := seen_at\<rparr>) (dg_devices r)\<rparr>))"

definition registry_get :: "device_registry \<Rightarrow> string \<Rightarrow> device_record option" where
  "registry_get r device_id = fmlookup (dg_devices r) device_id"

definition registry_list_online :: "device_registry \<Rightarrow> device_record list" where
  "registry_list_online r =
    map (\<lambda>i. the (fmlookup (dg_devices r) i))
      (filter (\<lambda>i. dr_status (the (fmlookup (dg_devices r) i)) = Online)
        (sorted_list_of_fset (fmdom (dg_devices r))))"

record verification_code =
  vc_device_id :: string
  vc_code :: string
  vc_expires_at_epoch_millis :: u64
  vc_max_attempts :: u8

record verification_challenge =
  ch_code :: verification_code
  ch_attempts_remaining :: u8

datatype verification_result = Accepted | Rejected u8 | Expired | AttemptsExceeded

definition challenge_new :: "verification_code \<Rightarrow> verification_challenge" where
  "challenge_new code = \<lparr>ch_code = code, ch_attempts_remaining = vc_max_attempts code\<rparr>"

definition challenge_verify ::
    "verification_challenge \<Rightarrow> string \<Rightarrow> u64 \<Rightarrow> verification_result \<times> verification_challenge" where
  "challenge_verify c candidate now =
    (if now > vc_expires_at_epoch_millis (ch_code c) then (Expired, c)
     else if ch_attempts_remaining c = 0 then (AttemptsExceeded, c)
     else if candidate = vc_code (ch_code c) then (Accepted, c)
     else
       let c = c\<lparr>ch_attempts_remaining := ch_attempts_remaining c - 1\<rparr> in
       (Rejected (ch_attempts_remaining c), c))"

record session_policy =
  py_permissions :: permissions
  py_require_controlled_side_prompt :: bool
  py_audit_required :: bool

definition session_policy_default :: session_policy where
  "session_policy_default =
    \<lparr>py_permissions = \<lparr>pm_remote_desktop = False, pm_input_control = False, pm_clipboard = False,
       pm_file_transfer = False, pm_unattended = False\<rparr>,
     py_require_controlled_side_prompt = True, py_audit_required = True\<rparr>"

datatype session_failure = FailRejected | Unauthorized | TransportUnavailable | TimedOut | Internal

datatype core_session_state =
    Created
  | WaitingForApproval
  | Approved
  | SessionConnecting
  | SessionConnected
  | SessionDegraded
  | SessionReconnecting
  | SessionClosed
  | SessionFailed session_failure

record core_session =
  cs_session_id :: u128
  cs_controller :: device_identity
  cs_controlled :: device_identity
  cs_state :: core_session_state
  cs_policy :: session_policy

definition core_session_new ::
    "u128 \<Rightarrow> device_identity \<Rightarrow> device_identity \<Rightarrow> session_policy \<Rightarrow> core_session" where
  "core_session_new session_id controller controlled policy =
    \<lparr>cs_session_id = session_id, cs_controller = controller, cs_controlled = controlled,
     cs_state = Created, cs_policy = policy\<rparr>"

definition request_approval :: "core_session \<Rightarrow> core_session" where
  "request_approval s = s\<lparr>cs_state := WaitingForApproval\<rparr>"

definition approve :: "core_session \<Rightarrow> core_session" where
  "approve s = s\<lparr>cs_state := Approved\<rparr>"

definition session_connect :: "core_session \<Rightarrow> core_session" where
  "session_connect s = s\<lparr>cs_state := SessionConnecting\<rparr>"

definition mark_connected :: "core_session \<Rightarrow> core_session" where
  "mark_connected s = s\<lparr>cs_state := SessionConnected\<rparr>"

definition session_close :: "core_session \<Rightarrow> core_session" where
  "session_close s = s\<lparr>cs_state := SessionClosed\<rparr>"

definition session_fail :: "core_session \<Rightarrow> session_failure \<Rightarrow> core_session" where
  "session_fail s reason = s\<lparr>cs_state := SessionFailed reason\<rparr>"

subsection \<open>The registry\<close>

text \<open>Every record is stored under the identifier of its own device.\<close>

definition registry_ok :: "device_registry \<Rightarrow> bool" where
  "registry_ok r \<longleftrightarrow>
    (\<forall>i d. fmlookup (dg_devices r) i = Some d \<longrightarrow> di_device_id (dr_identity d) = i)"

datatype registry_op = Register device_identity u64 | MarkStatus string device_status u64

fun registry_step ::
    "device_registry \<Rightarrow> registry_op \<Rightarrow> (device_registry_error + unit) \<times> device_registry" where
  "registry_step r (Register identity t) = (Inr (), registry_register r identity t)"
| "registry_step r (MarkStatus i st t) = registry_mark_status r i st t"

interpretation registry: guarded_machine registry_step registry_ok
proof
  fix r :: device_registry and x :: registry_op
  assume "registry_ok r"
  then show "registry_ok (snd (registry_step r x))"
    by (cases x)
      (auto simp: registry_ok_def registry_register_def registry_mark_status_def split: option.split)
qed

lemma registry_default_ok: "registry_ok registry_default"
  by (simp add: registry_ok_def registry_default_def)

lemma list_online_set:
  "set (registry_list_online r) =
    {d. \<exists>i. fmlookup (dg_devices r) i = Some d \<and> dr_status d = Online}"
  by (force simp: registry_list_online_def fmlookup_dom_iff)

lemma list_online_ids:
  assumes "registry_ok r"
  shows "map (\<lambda>d. di_device_id (dr_identity d)) (registry_list_online r) =
    filter (\<lambda>i. dr_status (the (fmlookup (dg_devices r) i)) = Online)
      (sorted_list_of_fset (fmdom (dg_devices r)))"
  using assms
  by (auto simp: registry_list_online_def registry_ok_def fmlookup_dom_iff intro!: map_idI)

lemma list_online_sorted:
  assumes "registry_ok r"
  shows "sorted (map (\<lambda>d. di_device_id (dr_identity d)) (registry_list_online r))
    \<and> distinct (map (\<lambda>d. di_device_id (dr_identity d)) (registry_list_online r))"
  unfolding list_online_ids [OF assms]
  by (simp add: sorted_list_of_fset.rep_eq sorted_filter [where f = "\<lambda>x. x", simplified])

subsection \<open>The challenge\<close>

definition challenge_step ::
    "verification_challenge \<Rightarrow> string \<times> u64 \<Rightarrow> verification_result \<times> verification_challenge" where
  "challenge_step c x = challenge_verify c (fst x) (snd x)"

definition is_rejected :: "verification_result \<Rightarrow> bool" where
  "is_rejected r \<longleftrightarrow> (\<exists>n. r = Rejected n)"

lemma challenge_step_code: "ch_code (snd (challenge_step c x)) = ch_code c"
  by (simp add: challenge_step_def challenge_verify_def Let_def)

lemma challenge_step_attempts:
  "unat (ch_attempts_remaining (snd (challenge_step c x))) =
    unat (ch_attempts_remaining c) - (if is_rejected (fst (challenge_step c x)) then 1 else 0)
   \<and> (is_rejected (fst (challenge_step c x)) \<longrightarrow> 0 < unat (ch_attempts_remaining c))"
  by (auto simp: challenge_step_def challenge_verify_def is_rejected_def Let_def unat_minus_one
      unat_gt_0)

text \<open>Wrong codes use up the attempts: what is left and what was refused add up.\<close>

lemma challenge_run_attempts:
  "length (filter is_rejected (map snd (fst (run_ops challenge_step c xs))))
    + unat (ch_attempts_remaining (snd (run_ops challenge_step c xs))) = unat (ch_attempts_remaining c)"
proof (induction xs arbitrary: c)
  case Nil
  then show ?case by simp
next
  case (Cons x xs)
  show ?case
    using Cons [of "snd (challenge_step c x)"] challenge_step_attempts [of c x]
    by (simp add: run_ops_Cons_simp del: run_ops.simps)
qed

lemma challenge_run_code: "ch_code (snd (run_ops challenge_step c xs)) = ch_code c"
  by (induction xs arbitrary: c) (simp_all add: split_beta challenge_step_code)

lemma challenge_accepted:
  "fst (challenge_step c x) = Accepted \<longleftrightarrow>
    snd x \<le> vc_expires_at_epoch_millis (ch_code c) \<and> ch_attempts_remaining c \<noteq> 0
    \<and> fst x = vc_code (ch_code c)"
  by (auto simp: challenge_step_def challenge_verify_def Let_def)

end
