(* ===== verification/Rc_Float.thy ===== *)
theory Rc_Float
  imports Rc_Prelude Complex_Main "HOL-Library.Log_Nat"
begin

section \<open>Floating point values\<close>

text \<open>
  What the program uses of \<^verbatim>\<open>f32\<close> and \<^verbatim>\<open>f64\<close>: a value is not a number, infinite, or a
  rational; a product of finite values is the exact product rounded to the nearest value of
  \<open>p\<close> significant bits, ties to even, with the exponent bounded from below; \<^verbatim>\<open>as u32\<close> and
  \<^verbatim>\<open>as i32\<close> truncate and saturate. Overflow to infinity cannot occur on the arguments used
  here, which are products of numbers below \<open>2 ^ 32\<close>.
\<close>

datatype float_value = NaN | Infinite bool | Finite rat

fun is_finite :: "float_value \<Rightarrow> bool" where
  "is_finite (Finite _) = True"
| "is_finite _ = False"

text \<open>\<^verbatim>\<open>(0.0..=1.0).contains(&x)\<close>\<close>

fun in_unit_range :: "float_value \<Rightarrow> bool" where
  "in_unit_range (Finite q) \<longleftrightarrow> 0 \<le> q \<and> q \<le> 1"
| "in_unit_range _ \<longleftrightarrow> False"

text \<open>The exponent of a positive rational: \<open>2 ^ e \<le> q < 2 ^ (e + 1)\<close>.\<close>

definition exponent :: "rat \<Rightarrow> int" where
  "exponent q =
    (let (n, d) = quotient_of q; k = bitlen n - bitlen d in if 2 powi k \<le> q then k else k - 1)"

definition round_half_even :: "rat \<Rightarrow> int" where
  "round_half_even q =
    (let f = \<lfloor>q\<rfloor>; r = q - of_int f in
     if r < 1 / 2 then f else if r > 1 / 2 then f + 1 else if even f then f else f + 1)"

text \<open>Rounding to \<open>p\<close> bits with smallest exponent \<open>emin\<close> of the last bit.\<close>

definition round_float :: "nat \<Rightarrow> int \<Rightarrow> rat \<Rightarrow> rat" where
  "round_float p emin q =
    (if q = 0 then 0
     else
       let ulp = 2 powi (max (exponent \<bar>q\<bar> - int p + 1) emin) in
       of_int (round_half_even (q / ulp)) * ulp)"

definition round_f64 :: "rat \<Rightarrow> rat" where
  "round_f64 = round_float 53 (- 1074)"

definition round_f32 :: "rat \<Rightarrow> rat" where
  "round_f32 = round_float 24 (- 149)"

text \<open>\<^verbatim>\<open>f64::round\<close>: half away from zero; \<^verbatim>\<open>as i32\<close>, \<^verbatim>\<open>as u32\<close>: truncate, saturate.\<close>

definition round_half_away :: "rat \<Rightarrow> int" where
  "round_half_away q = (if 0 \<le> q then \<lfloor>q + 1 / 2\<rfloor> else - \<lfloor>- q + 1 / 2\<rfloor>)"

definition clamp_int :: "int \<Rightarrow> int \<Rightarrow> int \<Rightarrow> int" where
  "clamp_int lo hi n = max lo (min hi n)"

definition truncate_rat :: "rat \<Rightarrow> int" where
  "truncate_rat q = (if 0 \<le> q then \<lfloor>q\<rfloor> else - \<lfloor>- q\<rfloor>)"

definition as_u32 :: "rat \<Rightarrow> u32" where
  "as_u32 q = of_int (clamp_int 0 (2 ^ 32 - 1) (truncate_rat q))"

subsection \<open>Facts about rounding\<close>

lemma bitlen_rat_bounds:
  assumes "0 < n"
  shows "2 powi (bitlen n - 1) \<le> (of_int n :: rat)" "(of_int n :: rat) < 2 powi (bitlen n)"
proof -
  have pos: "0 < bitlen n"
    using assms bitlen_nonneg [of n] bitlen_eq_zero_iff [of n] by linarith
  have b: "2 ^ nat (bitlen n - 1) \<le> n \<and> n < 2 ^ nat (bitlen n)"
    using assms by (rule bitlen_bounds)
  have "(2 :: rat) powi (bitlen n - 1) = of_int (2 ^ nat (bitlen n - 1))"
    using pos by (simp add: power_int_def)
  with b show "2 powi (bitlen n - 1) \<le> (of_int n :: rat)" by (metis of_int_le_iff)
  have "(2 :: rat) powi (bitlen n) = of_int (2 ^ nat (bitlen n))"
    using pos by (simp add: power_int_def)
  with b show "(of_int n :: rat) < 2 powi (bitlen n)" by (metis of_int_less_iff)
qed

lemma exponent_bounds:
  assumes "0 < q"
  shows "2 powi (exponent q) \<le> q \<and> q < 2 powi (exponent q + 1)"
proof -
  obtain n d where nd: "quotient_of q = (n, d)" by fastforce
  have d: "0 < d" using nd by (rule quotient_of_denom_pos)
  have q: "q = of_int n / of_int d" using nd by (rule quotient_of_div)
  have n: "0 < n" using assms q d by (simp add: zero_less_divide_iff)
  let ?k = "bitlen n - bitlen d"
  have "q < 2 powi (bitlen n) / 2 powi (bitlen d - 1)"
    unfolding q using bitlen_rat_bounds [OF n] bitlen_rat_bounds [OF d] n d
    by (intro frac_less) simp_all
  also have "\<dots> = 2 powi (?k + 1)" by (simp add: power_int_diff [symmetric] algebra_simps)
  finally have hi: "q < 2 powi (?k + 1)" .
  have "2 powi (bitlen n - 1) / 2 powi (bitlen d) < q"
    unfolding q using bitlen_rat_bounds [OF n] bitlen_rat_bounds [OF d] n d
    by (intro frac_less2) simp_all
  also have "2 powi (bitlen n - 1) / 2 powi (bitlen d) = (2 :: rat) powi (?k - 1)"
    by (simp add: power_int_diff [symmetric] algebra_simps)
  finally have lo: "2 powi (?k - 1) < q" .
  show ?thesis using hi lo by (simp add: exponent_def nd Let_def)
qed

lemma round_half_even_bounds: "of_int (round_half_even q) \<le> q + 1 / 2" "q - 1 / 2 \<le> of_int (round_half_even q)"
  by (simp_all add: round_half_even_def Let_def) linarith+

lemma round_half_even_le:
  assumes "q \<le> of_int n"
  shows "round_half_even q \<le> n"
proof (cases "\<lfloor>q\<rfloor> = n")
  case True
  then have "q = of_int n" using assms by linarith
  then show ?thesis by (simp add: round_half_even_def)
next
  case False
  then have "\<lfloor>q\<rfloor> + 1 \<le> n" using assms by linarith
  moreover have "round_half_even q \<le> \<lfloor>q\<rfloor> + 1" by (simp add: round_half_even_def Let_def)
  ultimately show ?thesis by simp
qed

lemma round_half_even_nonneg: "0 \<le> q \<Longrightarrow> 0 \<le> round_half_even q"
  by (simp add: round_half_even_def Let_def)

text \<open>Rounding a nonnegative value never passes a whole number of at most \<open>p\<close> bits.\<close>

lemma round_float_le:
  assumes "0 \<le> q" "q \<le> of_nat n" "n < 2 ^ p" "emin \<le> 0" "0 < p"
  shows "0 \<le> round_float p emin q \<and> round_float p emin q \<le> of_nat n"
proof (cases "q = 0")
  case True
  then show ?thesis by (simp add: round_float_def)
next
  case False
  then have q: "0 < q" using assms(1) by simp
  let ?e = "max (exponent \<bar>q\<bar> - int p + 1) emin"
  have "2 powi (exponent q) \<le> q" using exponent_bounds [OF q] by simp
  also have "q \<le> of_nat n" by (rule assms(2))
  also have "(of_nat n :: rat) < of_nat (2 ^ p)" using assms(3) by (simp only: of_nat_less_iff)
  finally have "(2 :: rat) powi (exponent q) < 2 powi (int p)" by simp
  then have "exponent q < int p" using power_int_le_imp_less_exp [of "2 :: rat"] by simp
  then have e: "?e \<le> 0" using assms(4) q by simp
  obtain k where k: "?e = - int k" using e by (metis minus_minus neg_0_le_iff_le nonneg_int_cases)
  have ulp: "(2 :: rat) powi ?e = 1 / 2 ^ k"
    unfolding k by (simp add: power_int_minus inverse_eq_divide)
  have pos: "(0 :: rat) < 2 powi ?e" by simp
  have "q / 2 powi ?e \<le> of_int (int n * 2 ^ k)"
    unfolding ulp using assms(2) by simp
  then have "round_half_even (q / 2 powi ?e) \<le> int n * 2 ^ k" by (rule round_half_even_le)
  then have "(of_int (round_half_even (q / 2 powi ?e)) :: rat) \<le> of_int (int n * 2 ^ k)"
    by (simp only: of_int_le_iff)
  then have "of_int (round_half_even (q / 2 powi ?e)) * 2 powi ?e \<le> (of_nat n :: rat)"
    unfolding ulp by (simp add: field_simps)
  moreover have "0 \<le> of_int (round_half_even (q / 2 powi ?e)) * (2 powi ?e :: rat)"
    using round_half_even_nonneg [of "q / 2 powi ?e"] assms(1) by simp
  ultimately show ?thesis using False by (simp add: round_float_def Let_def)
qed

lemma round_half_away_le:
  assumes "0 \<le> q" "q \<le> of_nat n"
  shows "0 \<le> round_half_away q \<and> round_half_away q \<le> int n"
  using assms unfolding round_half_away_def by simp linarith

end
