(* ===== verification/Rc_Input.thy ===== *)
theory Rc_Input
  imports Rc_Header Rc_Float
begin

section \<open>Input events and the keys held down\<close>

text \<open>
  \<^verbatim>\<open>crates/remote-protocol/src/input.rs\<close> and \<^verbatim>\<open>crates/remote-core/src/input.rs\<close>: the input
  event with its validation, and the set of pressed keys that the controlled side keeps so
  that it can release them. A \<^verbatim>\<open>Uuid\<close> is its 128 bit value.
\<close>

datatype input_kind =
    MouseMove
  | MouseButtonKind
  | MouseWheel
  | PhysicalKey
  | TextCommit
  | ImeComposition
  | Shortcut
  | TouchGesture
  | ReleaseAllKeys

datatype key_event_kind = Down | Up | Repeat | Tap

datatype mouse_button = LeftButton | RightButton | MiddleButton | BackButton | ForwardButton

datatype composition_state = CompositionStarted | Updated | Committed | CompositionCancelled

datatype input_modifier = Ctrl | Alt | Shift | Meta | CapsLock

record input_event =
  ie_session_id :: u128
  ie_event_id :: u128
  ie_display_id :: string
  ie_input_kind :: input_kind
  ie_key_event_kind :: "key_event_kind option"
  ie_physical_code :: "u32 option"
  ie_scan_code :: "u32 option"
  ie_virtual_key :: "u32 option"
  ie_logical_key :: "string option"
  ie_x_norm :: "float_value option"
  ie_y_norm :: "float_value option"
  ie_button :: "mouse_button option"
  ie_key_code :: u32
  ie_modifiers :: "input_modifier list"
  ie_wheel_delta_x :: float_value
  ie_wheel_delta_y :: float_value
  ie_text :: "string option"
  ie_composition_text :: "string option"
  ie_composition_state :: "composition_state option"
  ie_keyboard_layout :: "string option"
  ie_is_auto_repeat :: bool
  ie_timestamp_epoch_millis :: u64

datatype input_validation_error =
  InvalidNormalizedCoordinate | InvalidWheelDelta | UnexpectedText

definition input_accepts_channel :: "input_event \<Rightarrow> channel_id \<Rightarrow> bool" where
  "input_accepts_channel e channel \<longleftrightarrow>
    (case ie_input_kind e of
       MouseMove \<Rightarrow> channel \<in> {InputReliable, InputRealtime}
     | _ \<Rightarrow> channel = InputReliable)"

definition coordinate_ok :: "float_value option \<Rightarrow> bool" where
  "coordinate_ok c = (case c of None \<Rightarrow> True | Some v \<Rightarrow> is_finite v \<and> in_unit_range v)"

definition input_validate :: "input_event \<Rightarrow> input_validation_error + unit" where
  "input_validate e =
    (if \<not> coordinate_ok (ie_x_norm e) \<or> \<not> coordinate_ok (ie_y_norm e)
     then Inl InvalidNormalizedCoordinate
     else if \<not> is_finite (ie_wheel_delta_x e) \<or> \<not> is_finite (ie_wheel_delta_y e)
     then Inl InvalidWheelDelta
     else if ie_input_kind e = ReleaseAllKeys
        \<and> (ie_text e \<noteq> None \<or> ie_composition_text e \<noteq> None)
     then Inl UnexpectedText
     else Inr ())"

datatype input_apply_result = ForwardInput | KeyPressed | KeyReleased | ReleasedAll nat

datatype input_state_error = InvalidEvent | KeyNotPressed

record input_state =
  is_pressed_keys :: "u32 set"

definition input_state_default :: input_state where
  "input_state_default = \<lparr>is_pressed_keys = {}\<rparr>"

definition release_all :: "input_state \<Rightarrow> input_apply_result \<times> input_state" where
  "release_all s = (ReleasedAll (card (is_pressed_keys s)), s\<lparr>is_pressed_keys := {}\<rparr>)"

definition pressed_count :: "input_state \<Rightarrow> nat" where
  "pressed_count s = card (is_pressed_keys s)"

definition input_apply ::
    "input_state \<Rightarrow> input_event \<Rightarrow> (input_state_error + input_apply_result) \<times> input_state" where
  "input_apply s e =
    (case input_validate e of
       Inl _ \<Rightarrow> (Inl InvalidEvent, s)
     | Inr _ \<Rightarrow>
         if ie_input_kind e = ReleaseAllKeys then apfst Inr (release_all s)
         else if ie_input_kind e \<noteq> PhysicalKey then (Inr ForwardInput, s)
         else
           let key = ie_key_code e in
           if key = 0 then (Inl InvalidEvent, s)
           else
             case ie_key_event_kind e of
               Some Down \<Rightarrow> (Inr KeyPressed, s\<lparr>is_pressed_keys := insert key (is_pressed_keys s)\<rparr>)
             | Some Repeat \<Rightarrow>
                 (if key \<in> is_pressed_keys s then Inr ForwardInput else Inl KeyNotPressed, s)
             | None \<Rightarrow> (Inl InvalidEvent, s)
             | _ \<Rightarrow>
                 if key \<notin> is_pressed_keys s then (Inl KeyNotPressed, s)
                 else (Inr KeyReleased, s\<lparr>is_pressed_keys := is_pressed_keys s - {key}\<rparr>))"

subsection \<open>What the set of pressed keys means\<close>

text \<open>Does a call with this result press the key, or release it?\<close>

definition presses :: "u32 \<Rightarrow> input_event \<times> (input_state_error + input_apply_result) \<Rightarrow> bool" where
  "presses k x \<longleftrightarrow> snd x = Inr KeyPressed \<and> ie_key_code (fst x) = k"

definition releases :: "u32 \<Rightarrow> input_event \<times> (input_state_error + input_apply_result) \<Rightarrow> bool" where
  "releases k x \<longleftrightarrow>
    (snd x = Inr KeyReleased \<and> ie_key_code (fst x) = k) \<or> (\<exists>n. snd x = Inr (ReleasedAll n))"

lemma input_apply_pressed:
  "k \<in> is_pressed_keys (snd (input_apply s e)) \<longleftrightarrow>
    presses k (e, fst (input_apply s e))
    \<or> (k \<in> is_pressed_keys s \<and> \<not> releases k (e, fst (input_apply s e)))"
  by (auto simp: input_apply_def presses_def releases_def release_all_def Let_def
      split: sum.split option.split key_event_kind.split)

text \<open>A key is down exactly if some call pressed it and no later one released it.\<close>

lemma pressed_history:
  "k \<in> is_pressed_keys (snd (run_ops input_apply s es)) \<longleftrightarrow>
    (\<exists>n < length es. presses k (fst (run_ops input_apply s es) ! n)
      \<and> (\<forall>x \<in> set (drop (Suc n) (fst (run_ops input_apply s es))). \<not> releases k x))
    \<or> (k \<in> is_pressed_keys s \<and> (\<forall>x \<in> set (fst (run_ops input_apply s es)). \<not> releases k x))"
proof (induction es arbitrary: s)
  case Nil
  then show ?case by simp
next
  case (Cons e es)
  show ?case
    using Cons [of "snd (input_apply s e)"] input_apply_pressed [of k s e]
    by (simp add: run_ops_Cons_simp Ex_less_Suc2 del: run_ops.simps) blast
qed

lemma releases_needs_pressed:
  "snd (e, fst (input_apply s e)) = Inr KeyReleased \<Longrightarrow> ie_key_code e \<in> is_pressed_keys s"
  by (auto simp: input_apply_def release_all_def Let_def
      split: sum.splits option.splits key_event_kind.splits if_splits)

end
