(* ===== verification/Rc_Gates.thy ===== *)
theory Rc_Gates
  imports Rc_Text Rc_Float
begin

section \<open>Gates of the controlled device\<close>

text \<open>
  \<^verbatim>\<open>crates/remote-core/src\<close>: \<^verbatim>\<open>privacy.rs\<close>, \<^verbatim>\<open>clipboard.rs\<close> and \<^verbatim>\<open>display.rs\<close>. Arithmetic
  on \<^verbatim>\<open>i32\<close> wraps, as in a release build.
\<close>

subsection \<open>Privacy screen\<close>

datatype privacy_capability = Supported | CapabilityPermissionRequired | CapabilityUnsupported

datatype privacy_state = PrivacyDisabled | Enabling | PrivacyEnabled | Restoring | PrivacyFailed

datatype privacy_error = PrivacyUnsupported | PrivacyPermissionRequired | PrivacyInvalidState

record privacy_controller =
  pc_capability :: privacy_capability
  pc_state :: privacy_state

definition privacy_new :: "privacy_capability \<Rightarrow> privacy_controller" where
  "privacy_new capability = \<lparr>pc_capability = capability, pc_state = PrivacyDisabled\<rparr>"

definition privacy_enable :: "privacy_controller \<Rightarrow> (privacy_error + unit) \<times> privacy_controller" where
  "privacy_enable c =
    (case pc_capability c of
       CapabilityUnsupported \<Rightarrow> (Inl PrivacyUnsupported, c)
     | CapabilityPermissionRequired \<Rightarrow> (Inl PrivacyPermissionRequired, c)
     | Supported \<Rightarrow>
         if pc_state c = PrivacyDisabled then (Inr (), c\<lparr>pc_state := PrivacyEnabled\<rparr>)
         else (Inl PrivacyInvalidState, c))"

definition privacy_disable :: "privacy_controller \<Rightarrow> privacy_controller" where
  "privacy_disable c = c\<lparr>pc_state := PrivacyDisabled\<rparr>"

definition privacy_connection_lost :: "privacy_controller \<Rightarrow> privacy_controller" where
  "privacy_connection_lost c =
    (if pc_state c = PrivacyEnabled then c\<lparr>pc_state := Restoring\<rparr> else c)"

definition restore_local_state :: "privacy_controller \<Rightarrow> privacy_controller" where
  "restore_local_state c =
    (if pc_state c = Restoring then c\<lparr>pc_state := PrivacyDisabled\<rparr> else c)"

definition privacy_mark_failed :: "privacy_controller \<Rightarrow> privacy_controller" where
  "privacy_mark_failed c = c\<lparr>pc_state := PrivacyFailed\<rparr>"

definition restore_after_failure :: "privacy_controller \<Rightarrow> privacy_controller" where
  "restore_after_failure c =
    (if pc_state c \<noteq> PrivacyFailed then c else c\<lparr>pc_state := PrivacyDisabled\<rparr>)"

datatype privacy_op =
    Enable
  | Disable
  | ConnectionLost
  | RestoreLocalState
  | MarkFailed
  | RestoreAfterFailure

fun privacy_step :: "privacy_controller \<Rightarrow> privacy_op \<Rightarrow> (privacy_error + unit) \<times> privacy_controller" where
  "privacy_step c Enable = privacy_enable c"
| "privacy_step c Disable = (Inr (), privacy_disable c)"
| "privacy_step c ConnectionLost = (Inr (), privacy_connection_lost c)"
| "privacy_step c RestoreLocalState = (Inr (), restore_local_state c)"
| "privacy_step c MarkFailed = (Inr (), privacy_mark_failed c)"
| "privacy_step c RestoreAfterFailure = (Inr (), restore_after_failure c)"

text \<open>The screen is only ever on, or being restored, on a device that supports it.\<close>

definition privacy_ok :: "privacy_controller \<Rightarrow> bool" where
  "privacy_ok c \<longleftrightarrow>
    pc_state c \<noteq> Enabling \<and> (pc_state c \<in> {PrivacyEnabled, Restoring} \<longrightarrow> pc_capability c = Supported)"

lemmas privacy_defs = privacy_enable_def privacy_disable_def privacy_connection_lost_def
  restore_local_state_def privacy_mark_failed_def restore_after_failure_def

interpretation privacy: guarded_machine privacy_step privacy_ok
proof
  fix c :: privacy_controller and x :: privacy_op
  assume "privacy_ok c"
  then show "privacy_ok (snd (privacy_step c x))"
    by (cases x) (auto simp: privacy_ok_def privacy_defs split: privacy_capability.split)
qed

text \<open>After a lost connection the two restoring calls switch the screen off, whatever the state.\<close>

lemma privacy_restored:
  assumes "privacy_ok c"
  shows "pc_state (restore_after_failure (restore_local_state (privacy_connection_lost c))) =
    PrivacyDisabled"
  using assms by (cases "pc_state c") (simp_all add: privacy_ok_def privacy_defs)

subsection \<open>Clipboard\<close>

datatype clipboard_direction = ClipToControlled | ClipToController

datatype clipboard_state = ClipboardDisabled | ClipboardRequested | ClipboardAccepted | ClipboardRejected

datatype clipboard_error = DisabledError | PendingError | InvalidPayload | PayloadTooLarge

definition MAX_CLIPBOARD_BYTES :: nat where
  "MAX_CLIPBOARD_BYTES = 1024 * 1024"

record clipboard_gate =
  cg_enabled :: bool
  cg_state :: clipboard_state
  cg_direction :: clipboard_direction

definition clipboard_new :: "clipboard_direction \<Rightarrow> clipboard_gate" where
  "clipboard_new direction =
    \<lparr>cg_enabled = False, cg_state = ClipboardDisabled, cg_direction = direction\<rparr>"

definition clipboard_set_enabled :: "clipboard_gate \<Rightarrow> bool \<Rightarrow> clipboard_gate" where
  "clipboard_set_enabled g enabled =
    g\<lparr>cg_enabled := enabled,
      cg_state := if enabled then ClipboardRequested else ClipboardDisabled\<rparr>"

definition clipboard_respond :: "clipboard_gate \<Rightarrow> bool \<Rightarrow> (clipboard_error + unit) \<times> clipboard_gate" where
  "clipboard_respond g accepted =
    (if \<not> cg_enabled g \<or> cg_state g \<noteq> ClipboardRequested then (Inl PendingError, g)
     else (Inr (), g\<lparr>cg_state := if accepted then ClipboardAccepted else ClipboardRejected\<rparr>))"

definition clipboard_validate_payload :: "clipboard_gate \<Rightarrow> bytes \<Rightarrow> clipboard_error + unit" where
  "clipboard_validate_payload g payload =
    (if \<not> cg_enabled g then Inl DisabledError
     else if cg_state g \<noteq> ClipboardAccepted then Inl PendingError
     else if payload = [] then Inl InvalidPayload
     else if length payload > MAX_CLIPBOARD_BYTES then Inl PayloadTooLarge
     else Inr ())"

datatype clipboard_op = SetEnabled bool | Respond bool

fun clipboard_step :: "clipboard_gate \<Rightarrow> clipboard_op \<Rightarrow> (clipboard_error + unit) \<times> clipboard_gate" where
  "clipboard_step g (SetEnabled e) = (Inr (), clipboard_set_enabled g e)"
| "clipboard_step g (Respond a) = clipboard_respond g a"

text \<open>The answer to the latest request, if the clipboard is switched on and was answered.\<close>

fun consent :: "clipboard_op list \<Rightarrow> bool option option" where
  "consent [] = None"
| "consent (SetEnabled e # xs) =
    (case consent xs of
       None \<Rightarrow>
         (if \<not> e then Some None
          else case xs of Respond a # _ \<Rightarrow> Some (Some a) | _ \<Rightarrow> Some None)
     | c \<Rightarrow> c)"
| "consent (Respond _ # xs) = consent xs"

lemma run_no_request:
  assumes "consent xs = None" "\<not> (cg_enabled g \<and> cg_state g = ClipboardRequested)"
  shows "snd (run_ops clipboard_step g xs) = g"
  using assms
proof (induction xs)
  case Nil
  then show ?case by simp
next
  case (Cons x xs)
  then show ?case
    by (cases x) (auto simp: clipboard_respond_def split_beta split: option.splits if_splits list.splits clipboard_op.splits)
qed

lemma consent_accepted:
  "cg_enabled (snd (run_ops clipboard_step g xs)) \<and> cg_state (snd (run_ops clipboard_step g xs)) = ClipboardAccepted
    \<longleftrightarrow> (case consent xs of
          Some c \<Rightarrow> c = Some True
        | None \<Rightarrow>
            (cg_enabled g \<and> cg_state g = ClipboardAccepted)
            \<or> (cg_enabled g \<and> cg_state g = ClipboardRequested
               \<and> (case xs of Respond a # _ \<Rightarrow> a | _ \<Rightarrow> False)))"
proof (induction xs arbitrary: g)
  case Nil
  then show ?case by simp
next
  case (Cons x xs)
  show ?case
  proof (cases x)
    case (SetEnabled e)
    then show ?thesis
      by (simp add: split_beta Cons clipboard_set_enabled_def
          split: option.split list.split clipboard_op.split)
  next
    case (Respond a)
    have "cg_state g \<noteq> ClipboardRequested \<or> \<not> cg_enabled g \<Longrightarrow> snd (clipboard_respond g a) = g"
      by (auto simp: clipboard_respond_def)
    then show ?thesis
      using Respond
      by (auto simp: split_beta Cons clipboard_respond_def split: option.splits)
  qed
qed

text \<open>A new gate lets a payload through exactly when the latest request was accepted.\<close>

lemma clipboard_needs_consent:
  "clipboard_validate_payload (snd (run_ops clipboard_step (clipboard_new d) xs)) payload = Inr () \<longleftrightarrow>
    consent xs = Some (Some True) \<and> payload \<noteq> [] \<and> length payload \<le> MAX_CLIPBOARD_BYTES"
  using consent_accepted [of "clipboard_new d" xs]
  by (auto simp: clipboard_validate_payload_def clipboard_new_def not_less split: option.splits)

subsection \<open>Displays\<close>

type_synonym i32 = "32 word"

record display_info =
  dp_id :: string
  dp_x :: i32
  dp_y :: i32
  dp_width :: u32
  dp_height :: u32
  dp_scale_milli :: u32
  dp_rotation_degrees :: u16

datatype display_error = EmptyId | InvalidGeometry | UnknownDisplay | InvalidCoordinate

record display_topology =
  dt_displays :: "display_info list"
  dt_selected :: "string option"

definition topology_default :: display_topology where
  "topology_default = \<lparr>dt_displays = [], dt_selected = None\<rparr>"

definition topology_replace ::
    "display_topology \<Rightarrow> display_info list \<Rightarrow> (display_error + unit) \<times> display_topology" where
  "topology_replace t displays =
    (if list_ex (\<lambda>d. trim_is_empty (dp_id d) \<or> dp_width d = 0 \<or> dp_height d = 0
          \<or> dp_scale_milli d = 0) displays
     then (Inl InvalidGeometry, t)
     else
       let selected =
         (case dt_selected t of
            Some i \<Rightarrow> if list_ex (\<lambda>d. dp_id d = i) displays then Some i else None
          | None \<Rightarrow> None)
       in (Inr (),
           \<lparr>dt_displays = displays,
            dt_selected =
              (case selected of
                 Some i \<Rightarrow> Some i
               | None \<Rightarrow> (case displays of [] \<Rightarrow> None | d # _ \<Rightarrow> Some (dp_id d)))\<rparr>))"

definition topology_select ::
    "display_topology \<Rightarrow> string \<Rightarrow> (display_error + unit) \<times> display_topology" where
  "topology_select t i =
    (if list_ex (\<lambda>d. dp_id d = i) (dt_displays t) then (Inr (), t\<lparr>dt_selected := Some i\<rparr>)
     else (Inl UnknownDisplay, t))"

definition topology_selected :: "display_topology \<Rightarrow> display_info option" where
  "topology_selected t =
    (case dt_selected t of None \<Rightarrow> None | Some i \<Rightarrow> find (\<lambda>d. dp_id d = i) (dt_displays t))"

text \<open>\<^verbatim>\<open>(x * f64::from(extent - 1)).round() as i32\<close>\<close>

definition scaled :: "rat \<Rightarrow> u32 \<Rightarrow> i32" where
  "scaled x extent =
    of_int (clamp_int (- (2 ^ 31)) (2 ^ 31 - 1)
      (round_half_away (round_f64 (x * of_nat (unat (extent - 1))))))"

definition map_normalized ::
    "display_topology \<Rightarrow> string \<Rightarrow> float_value \<Rightarrow> float_value \<Rightarrow> display_error + i32 \<times> i32" where
  "map_normalized t display_id x y =
    (case (x, y) of
       (Finite qx, Finite qy) \<Rightarrow>
         if \<not> in_unit_range x \<or> \<not> in_unit_range y then Inl InvalidCoordinate
         else
           (case find (\<lambda>d. dp_id d = display_id) (dt_displays t) of
              None \<Rightarrow> Inl UnknownDisplay
            | Some d \<Rightarrow> Inr (dp_x d + scaled qx (dp_width d), dp_y d + scaled qy (dp_height d)))
     | _ \<Rightarrow> Inl InvalidCoordinate)"

datatype topology_op = Replace "display_info list" | Select string

fun topology_step :: "display_topology \<Rightarrow> topology_op \<Rightarrow> (display_error + unit) \<times> display_topology" where
  "topology_step t (Replace ds) = topology_replace t ds"
| "topology_step t (Select i) = topology_select t i"

definition topology_ok :: "display_topology \<Rightarrow> bool" where
  "topology_ok t \<longleftrightarrow>
    (\<forall>d \<in> set (dt_displays t). \<not> trim_is_empty (dp_id d) \<and> dp_width d \<noteq> 0 \<and> dp_height d \<noteq> 0
       \<and> dp_scale_milli d \<noteq> 0)
    \<and> (dt_displays t = [] \<longleftrightarrow> dt_selected t = None)
    \<and> (\<forall>i. dt_selected t = Some i \<longrightarrow> (\<exists>d \<in> set (dt_displays t). dp_id d = i))"

interpretation topology: guarded_machine topology_step topology_ok
proof
  fix t :: display_topology and x :: topology_op
  assume "topology_ok t"
  then show "topology_ok (snd (topology_step t x))"
    by (cases x)
      (auto simp: topology_ok_def topology_replace_def topology_select_def Let_def list_ex_iff
        split: option.splits list.splits)
qed

lemma topology_default_ok: "topology_ok topology_default"
  by (simp add: topology_ok_def topology_default_def)

text \<open>A display is selected whenever there is one.\<close>

lemma topology_selected_some:
  assumes "topology_ok t" "dt_displays t \<noteq> []"
  shows "\<exists>d. topology_selected t = Some d \<and> d \<in> set (dt_displays t) \<and> dt_selected t = Some (dp_id d)"
proof -
  obtain i d where "dt_selected t = Some i" "d \<in> set (dt_displays t)" "dp_id d = i"
    using assms unfolding topology_ok_def by auto
  moreover from this obtain e where "find (\<lambda>d. dp_id d = i) (dt_displays t) = Some e"
    using find_None_iff [of "\<lambda>d. dp_id d = i" "dt_displays t"]
    by (cases "find (\<lambda>d. dp_id d = i) (dt_displays t)") auto
  moreover from this have "e \<in> set (dt_displays t)" "dp_id e = i" by (auto simp: find_Some_iff)
  ultimately show ?thesis by (simp add: topology_selected_def)
qed

lemma scaled_range:
  assumes "0 \<le> x" "x \<le> 1" "extent \<noteq> 0" "unat extent \<le> 2 ^ 31"
  shows "0 \<le> sint (scaled x extent) \<and> sint (scaled x extent) \<le> int (unat extent) - 1"
proof -
  let ?n = "unat (extent - 1)"
  have n: "?n = unat extent - 1" "0 < unat extent"
    using assms(3) by (simp_all add: unat_minus_one unat_gt_0)
  then have n31: "?n < 2 ^ 31" using assms(4) by linarith
  have "x * of_nat ?n \<le> of_nat ?n"
    by (rule mult_left_le_one_le [OF of_nat_0_le_iff assms(1,2)])
  moreover have "0 \<le> x * of_nat ?n" by (rule mult_nonneg_nonneg [OF assms(1) of_nat_0_le_iff])
  ultimately have "0 \<le> round_f64 (x * of_nat ?n) \<and> round_f64 (x * of_nat ?n) \<le> of_nat ?n"
    unfolding round_f64_def using n31 by (intro round_float_le) simp_all
  then have r: "0 \<le> round_half_away (round_f64 (x * of_nat ?n))"
    "round_half_away (round_f64 (x * of_nat ?n)) \<le> int ?n"
    using round_half_away_le by blast+
  define v where "v = round_half_away (round_f64 (x * of_nat ?n))"
  have "int ?n \<le> 2147483647" using n31 by (simp del: of_nat_unat)
  then have v: "0 \<le> v" "v \<le> 2147483647" using r unfolding v_def by linarith+
  then have "sint (scaled x extent) = v"
    by (simp add: scaled_def v_def [symmetric] clamp_int_def signed_of_int
        signed_take_bit_int_eq_self del: of_nat_unat)
  with r n show ?thesis unfolding v_def by simp
qed

lemma i32_add_sint:
  "- (2 ^ 31) \<le> sint a + sint b \<Longrightarrow> sint a + sint b < 2 ^ 31 \<Longrightarrow> sint (a + b :: i32) = sint a + sint b"
  by (simp add: sint_word_ariths signed_take_bit_int_eq_self)

text \<open>A normalised position is mapped into its display, when the display ends within \<^verbatim>\<open>i32\<close>.\<close>

lemma map_normalized_inside:
  assumes ok: "topology_ok t" and r: "map_normalized t i x y = Inr (px, py)"
  obtains d where "d \<in> set (dt_displays t)" "dp_id d = i"
    "unat (dp_width d) \<le> 2 ^ 31 \<Longrightarrow> sint (dp_x d) + int (unat (dp_width d)) \<le> 2 ^ 31 \<Longrightarrow>
      sint (dp_x d) \<le> sint px \<and> sint px < sint (dp_x d) + int (unat (dp_width d))"
    "unat (dp_height d) \<le> 2 ^ 31 \<Longrightarrow> sint (dp_y d) + int (unat (dp_height d)) \<le> 2 ^ 31 \<Longrightarrow>
      sint (dp_y d) \<le> sint py \<and> sint py < sint (dp_y d) + int (unat (dp_height d))"
proof -
  obtain qx qy d where q: "x = Finite qx" "y = Finite qy" "0 \<le> qx" "qx \<le> 1" "0 \<le> qy" "qy \<le> 1"
    and f: "find (\<lambda>d. dp_id d = i) (dt_displays t) = Some d"
    and p: "px = dp_x d + scaled qx (dp_width d)" "py = dp_y d + scaled qy (dp_height d)"
    using r by (auto simp: map_normalized_def split: float_value.splits if_splits option.splits)
  have d: "d \<in> set (dt_displays t)" "dp_id d = i"
    using f by (auto simp: find_Some_iff)
  then have nz: "dp_width d \<noteq> 0" "dp_height d \<noteq> 0" using ok by (auto simp: topology_ok_def)
  have inside: "sint o' \<le> sint (o' + scaled q e) \<and> sint (o' + scaled q e) < sint o' + int (unat e)"
    if "0 \<le> q" "q \<le> 1" "e \<noteq> 0" "unat e \<le> 2 ^ 31" "sint o' + int (unat e) \<le> 2 ^ 31" for o' :: i32 and q e
  proof -
    have s: "0 \<le> sint (scaled q e)" "sint (scaled q e) \<le> int (unat e) - 1"
      using scaled_range [OF that(1-4)] by blast+
    have "- (2 ^ 31) \<le> sint o'" using sint_ge [of o'] by simp
    then have "sint (o' + scaled q e) = sint o' + sint (scaled q e)"
      using s that(5) by (intro i32_add_sint) simp_all
    with s show ?thesis by simp
  qed
  show thesis
    by (rule that [OF d]) (use q nz p inside in blast)+
qed

end
