(* ===== verification/Rc_Transfer.thy ===== *)
theory Rc_Transfer
  imports Rc_Text
begin

section \<open>File transfer and resume tokens\<close>

text \<open>
  \<^verbatim>\<open>crates/remote-core/src/file_transfer.rs\<close> and \<^verbatim>\<open>reboot.rs\<close>. The running hash of a transfer
  is the byte string fed to it so far; the hash function is a parameter. \<^verbatim>\<open>decode_hex\<close> slices a
  string by byte positions, which panics inside a character: that outcome is \<open>Panicked\<close>.
\<close>

subsection \<open>File transfer\<close>

definition MAX_FILE_TRANSFER_BYTES :: u64 where
  "MAX_FILE_TRANSFER_BYTES = 100 * 1024 * 1024"

datatype transfer_state =
  TransferRequested | TransferAccepted | Running | Completed | TransferCancelled | TransferFailed

datatype file_transfer_error = EmptyName | PathTraversal | InvalidName | TooLarge | InvalidTransferState

definition validate_file_name :: "string \<Rightarrow> u64 \<Rightarrow> file_transfer_error + unit" where
  "validate_file_name name sz =
    (if trim_is_empty name then Inl EmptyName
     else if sz > MAX_FILE_TRANSFER_BYTES then Inl TooLarge
     else if name = ''.'' \<or> name = ''..'' \<or> CHR ''/'' \<in> set name \<or> CHR 0x5C \<in> set name
     then Inl PathTraversal
     else if has_control name then Inl InvalidName
     else if last name = CHR ''.'' \<or> last name = CHR '' '' then Inl InvalidName
     else Inr ())"

record transfer_ledger =
  tl_state :: transfer_state
  tl_expected_size :: u64
  tl_received :: u64
  tl_digest :: bytes

definition ledger_new :: "string \<Rightarrow> u64 \<Rightarrow> file_transfer_error + transfer_ledger" where
  "ledger_new name sz =
    and_then (validate_file_name name sz) (\<lambda>_.
    Inr \<lparr>tl_state = TransferRequested, tl_expected_size = sz, tl_received = 0, tl_digest = []\<rparr>)"

definition ledger_accept :: "transfer_ledger \<Rightarrow> (file_transfer_error + unit) \<times> transfer_ledger" where
  "ledger_accept l =
    (if tl_state l \<noteq> TransferRequested then (Inl InvalidTransferState, l)
     else (Inr (), l\<lparr>tl_state := TransferAccepted\<rparr>))"

definition ledger_append ::
    "transfer_ledger \<Rightarrow> bytes \<Rightarrow> (file_transfer_error + unit) \<times> transfer_ledger" where
  "ledger_append l chunk =
    (if tl_state l \<notin> {TransferAccepted, Running} then (Inl InvalidTransferState, l)
     else
       let next_size = saturating_add (tl_received l) (of_nat (length chunk)) in
       if next_size > tl_expected_size l then (Inl TooLarge, l)
       else (Inr (), l\<lparr>tl_digest := tl_digest l @ chunk, tl_received := next_size,
                       tl_state := Running\<rparr>))"

definition ledger_finish ::
    "(bytes \<Rightarrow> bytes) \<Rightarrow> transfer_ledger \<Rightarrow> bytes \<Rightarrow> (file_transfer_error + unit) \<times> transfer_ledger" where
  "ledger_finish sha l expected_sha256 =
    (if tl_received l \<noteq> tl_expected_size l \<or> tl_state l \<noteq> Running then (Inl InvalidTransferState, l)
     else if sha (tl_digest l) \<noteq> expected_sha256
     then (Inl InvalidTransferState, l\<lparr>tl_state := TransferFailed\<rparr>)
     else (Inr (), l\<lparr>tl_state := Completed\<rparr>))"

definition ledger_cancel :: "transfer_ledger \<Rightarrow> transfer_ledger" where
  "ledger_cancel l = l\<lparr>tl_state := TransferCancelled, tl_digest := []\<rparr>"

datatype ledger_op = AcceptTransfer | Append bytes | FinishTransfer bytes | CancelTransfer

fun ledger_step ::
    "(bytes \<Rightarrow> bytes) \<Rightarrow> transfer_ledger \<Rightarrow> ledger_op \<Rightarrow> (file_transfer_error + unit) \<times> transfer_ledger" where
  "ledger_step sha l AcceptTransfer = ledger_accept l"
| "ledger_step sha l (Append chunk) = ledger_append l chunk"
| "ledger_step sha l (FinishTransfer h) = ledger_finish sha l h"
| "ledger_step sha l CancelTransfer = (Inr (), ledger_cancel l)"

text \<open>The bytes a run has taken in.\<close>

fun taken :: "(ledger_op \<times> (file_transfer_error + unit)) list \<Rightarrow> bytes" where
  "taken [] = []"
| "taken ((Append chunk, Inr u) # tr) = chunk @ taken tr"
| "taken (x # tr) = taken tr"

lemma taken_append [simp]: "taken (xs @ ys) = taken xs @ taken ys"
  by (induction xs rule: taken.induct) simp_all

lemma length_u64 [simp]: "length chunk < 2 ^ 64 \<Longrightarrow> unat (of_nat (length chunk) :: u64) = length chunk"
  by (simp add: unat_of_nat)

text \<open>
  Chunks are shorter than \<open>2 ^ 64\<close> bytes, as every Rust slice is. The ledger then agrees
  with the bytes taken: their number is counted exactly and they are what gets hashed.
\<close>

definition ledger_agrees :: "bytes \<Rightarrow> transfer_ledger \<Rightarrow> bool" where
  "ledger_agrees bs l \<longleftrightarrow>
    (tl_state l \<noteq> TransferCancelled \<longrightarrow> tl_digest l = bs \<and> unat (tl_received l) = length bs)
    \<and> (tl_state l = TransferRequested \<or> tl_state l = TransferAccepted \<longrightarrow> bs = [])
    \<and> tl_expected_size l \<le> MAX_FILE_TRANSFER_BYTES
    \<and> tl_received l \<le> tl_expected_size l
    \<and> (tl_state l = Completed \<longrightarrow> tl_received l = tl_expected_size l)"

fun short_chunk :: "ledger_op \<Rightarrow> bool" where
  "short_chunk (Append chunk) \<longleftrightarrow> length chunk < 2 ^ 64"
| "short_chunk _ \<longleftrightarrow> True"

lemma saturating_add_exact:
  assumes "saturating_add a b \<le> m" "m < (- 1 :: 'a::len word)"
  shows "unat (saturating_add a b) = unat a + unat b"
proof (cases "unat a + unat b < 2 ^ LENGTH('a)")
  case True
  then show ?thesis by (simp add: saturating_add_def unat_word_ariths)
next
  case False
  with assms show ?thesis by (simp add: saturating_add_def)
qed

lemma ledger_append_agrees:
  assumes agree: "ledger_agrees bs l" and short: "length chunk < 2 ^ 64"
    and step: "ledger_append l chunk = (r, l')"
  shows "ledger_agrees (bs @ taken [(Append chunk, r)]) l'"
proof (cases "tl_state l \<in> {TransferAccepted, Running}
    \<and> saturating_add (tl_received l) (of_nat (length chunk)) \<le> tl_expected_size l")
  case True
  let ?n = "saturating_add (tl_received l) (of_nat (length chunk))"
  have state: "tl_state l = TransferAccepted \<or> tl_state l = Running" and le: "?n \<le> tl_expected_size l"
    using True by auto
  have max: "tl_expected_size l \<le> MAX_FILE_TRANSFER_BYTES"
    using agree by (simp add: ledger_agrees_def)
  have "unat ?n = unat (tl_received l) + length chunk"
    using saturating_add_exact [OF order.trans [OF le max]] short
    by (simp add: MAX_FILE_TRANSFER_BYTES_def)
  moreover have "r = Inr ()" "l' = l\<lparr>tl_digest := tl_digest l @ chunk, tl_received := ?n, tl_state := Running\<rparr>"
    using step state le by (auto simp: ledger_append_def Let_def not_less [symmetric])
  moreover have "tl_digest l = bs" "unat (tl_received l) = length bs"
    using agree state by (auto simp: ledger_agrees_def)
  ultimately show ?thesis using le max by (simp add: ledger_agrees_def)
next
  case False
  then have "r \<noteq> Inr ()" "l' = l"
    using step by (auto simp: ledger_append_def Let_def not_le split: if_splits)
  then show ?thesis using agree by (cases r) simp_all
qed

lemma ledger_step_agrees:
  assumes agree: "ledger_agrees bs l" and short: "short_chunk x"
    and step: "ledger_step sha l x = (r, l')"
  shows "ledger_agrees (bs @ taken [(x, r)]) l'"
proof (cases x)
  case AcceptTransfer
  then show ?thesis
    using agree step by (cases "tl_state l = TransferRequested") (auto simp: ledger_agrees_def ledger_accept_def)
next
  case (Append chunk)
  then show ?thesis using ledger_append_agrees agree short step by simp
next
  case (FinishTransfer h)
  then show ?thesis
    using agree step by (auto simp: ledger_agrees_def ledger_finish_def split: if_splits)
next
  case CancelTransfer
  then show ?thesis using agree step by (auto simp: ledger_agrees_def ledger_cancel_def)
qed

lemma ledger_run_agrees:
  "ledger_agrees bs l \<Longrightarrow> list_all short_chunk xs \<Longrightarrow>
    ledger_agrees (bs @ taken (fst (run_ops (ledger_step sha) l xs)))
      (snd (run_ops (ledger_step sha) l xs))"
proof (induction xs arbitrary: bs l)
  case Nil
  then show ?case by simp
next
  case (Cons x xs)
  obtain r l' where step: "ledger_step sha l x = (r, l')" by fastforce
  have "ledger_agrees (bs @ taken [(x, r)]) l'"
    using ledger_step_agrees Cons.prems step by simp
  then have "ledger_agrees ((bs @ taken [(x, r)]) @ taken (fst (run_ops (ledger_step sha) l' xs)))
      (snd (run_ops (ledger_step sha) l' xs))"
    by (rule Cons.IH) (use Cons.prems(2) in simp)
  then show ?case
    using step by (simp add: taken_append [of "[(x, r)]", simplified, symmetric] case_prod_beta)
qed

lemma ledger_new_agrees: "ledger_new name sz = Inr l \<Longrightarrow> ledger_agrees [] l"
  by (auto simp: ledger_new_def validate_file_name_def ledger_agrees_def not_less result_simps
      split: if_splits)

lemma run_expected_size:
  "tl_expected_size (snd (run_ops (ledger_step sha) l xs)) = tl_expected_size l"
proof (induction xs arbitrary: l)
  case Nil
  then show ?case by simp
next
  case (Cons x xs)
  have "tl_expected_size (snd (ledger_step sha l x)) = tl_expected_size l"
    by (cases x) (simp_all add: ledger_accept_def ledger_append_def ledger_finish_def
        ledger_cancel_def Let_def)
  with Cons show ?case by (simp add: run_ops_Cons_simp del: run_ops.simps)
qed

text \<open>A transfer that finishes has taken exactly the announced bytes, with the announced hash.\<close>

lemma transfer_complete:
  assumes new: "ledger_new name sz = Inr l" and short: "list_all short_chunk xs"
    and fin: "fst (ledger_finish sha (snd (run_ops (ledger_step sha) l xs)) h) = Inr ()"
  shows "sha (taken (fst (run_ops (ledger_step sha) l xs))) = h
    \<and> length (taken (fst (run_ops (ledger_step sha) l xs))) = unat sz
    \<and> unat sz \<le> unat MAX_FILE_TRANSFER_BYTES \<and> validate_file_name name sz = Inr ()"
proof -
  let ?l = "snd (run_ops (ledger_step sha) l xs)"
  have "ledger_agrees (taken (fst (run_ops (ledger_step sha) l xs))) ?l"
    using ledger_run_agrees [OF ledger_new_agrees [OF new] short] by simp
  moreover have "tl_expected_size ?l = sz"
    using new by (auto simp: run_expected_size ledger_new_def result_simps)
  moreover have "tl_state ?l = Running" "tl_received ?l = tl_expected_size ?l" "sha (tl_digest ?l) = h"
    using fin by (auto simp: ledger_finish_def split: if_splits)
  moreover have "validate_file_name name sz = Inr ()"
    using new by (simp add: ledger_new_def result_simps)
  ultimately show ?thesis by (auto simp: ledger_agrees_def word_le_nat_alt)
qed

lemma validate_file_name_safe:
  assumes "validate_file_name name sz = Inr ()"
  shows "CHR ''/'' \<notin> set name \<and> CHR 0x5C \<notin> set name \<and> name \<notin> {[], ''.'', ''..''} \<and> \<not> has_control name"
  using assms by (auto simp: validate_file_name_def split: if_splits)

subsection \<open>Resume tokens\<close>

record resume_token =
  rt_id :: string
  rt_secret_hash :: bytes

datatype resume_token_error = Malformed | Mismatch | Consumed

definition hex :: "bytes \<Rightarrow> string" where
  "hex bs = concat (map show_hex_byte bs)"

datatype 'a outcome = Panicked | Returned 'a

text \<open>\<^verbatim>\<open>collect\<close> into an option stops at the first \<^verbatim>\<open>None\<close>.\<close>

fun decode_hex_from :: "nat \<Rightarrow> string \<Rightarrow> string \<Rightarrow> bytes option outcome" where
  "decode_hex_from i full (a # b # s) =
    (if \<not> is_char_boundary full i \<or> \<not> is_char_boundary full (i + 2) then Panicked
     else
       case u8_from_hex a b of
         None \<Rightarrow> Returned None
       | Some v \<Rightarrow>
           (case decode_hex_from (i + 2) full s of
              Panicked \<Rightarrow> Panicked
            | Returned r \<Rightarrow> Returned (map_option ((#) v) r)))"
| "decode_hex_from i full _ = Returned (Some [])"

definition decode_hex :: "string \<Rightarrow> bytes option outcome" where
  "decode_hex v = (if odd (length v) then Returned None else decode_hex_from 0 v v)"

definition resume_issue ::
    "(bytes \<Rightarrow> bytes) \<Rightarrow> string \<Rightarrow> bytes \<Rightarrow> resume_token_error + resume_token \<times> string" where
  "resume_issue sha i secret =
    (if i = [] \<or> secret = [] \<or> CHR ''.'' \<in> set i then Inl Malformed
     else Inr (\<lparr>rt_id = i, rt_secret_hash = sha secret\<rparr>, i @ ''.'' @ hex secret))"

definition resume_verify ::
    "(bytes \<Rightarrow> bytes) \<Rightarrow> resume_token \<Rightarrow> string \<Rightarrow> (resume_token_error + unit) outcome" where
  "resume_verify sha t token =
    (case split_once (CHR ''.'') token of
       None \<Rightarrow> Returned (Inl Malformed)
     | Some (i, secret) \<Rightarrow>
         if i \<noteq> rt_id t \<or> secret = [] then Returned (Inl Mismatch)
         else
           (case decode_hex secret of
              Panicked \<Rightarrow> Panicked
            | Returned None \<Rightarrow> Returned (Inl Malformed)
            | Returned (Some decoded) \<Rightarrow>
                Returned (if rt_secret_hash t = sha decoded then Inr () else Inl Mismatch)))"

lemma hex_length [simp]: "length (hex bs) = 2 * length bs"
  by (induction bs) (simp_all add: hex_def show_hex_byte_def)

lemma hex_ascii: "c \<in> set (hex bs) \<Longrightarrow> byte c < 128"
proof -
  assume "c \<in> set (hex bs)"
  then obtain b where "c \<in> set (show_hex_byte b)" by (auto simp: hex_def)
  moreover have "unat b div 16 < 16" using unat_u8_bound [of b] by simp
  ultimately show ?thesis using digit_char_ascii by (auto simp: show_hex_byte_def)
qed

lemma ascii_boundary: "\<forall>c \<in> set s. byte c < 128 \<Longrightarrow> i \<le> length s \<Longrightarrow> is_char_boundary s i"
  unfolding is_char_boundary_def by (metis le_less leD nth_mem)

lemma decode_hex_from_hex:
  "\<forall>c \<in> set full. byte c < 128 \<Longrightarrow> i + 2 * length bs \<le> length full \<Longrightarrow>
    decode_hex_from i full (hex bs) = Returned (Some bs)"
proof (induction bs arbitrary: i)
  case Nil
  then show ?case by (simp add: hex_def)
next
  case (Cons b bs)
  have h: "hex (b # bs) = digit_char (unat b div 16) # digit_char (unat b mod 16) # hex bs"
    by (simp add: hex_def show_hex_byte_def)
  have "is_char_boundary full i" "is_char_boundary full (i + 2)"
    using Cons.prems ascii_boundary by simp_all
  with Cons.IH [of "i + 2"] Cons.prems show ?case by (simp add: h u8_from_show_hex)
qed

lemma decode_hex_hex: "decode_hex (hex bs) = Returned (Some bs)"
  using decode_hex_from_hex [of "hex bs" 0 bs] hex_ascii by (simp add: decode_hex_def)

text \<open>An issued token verifies; a verified one carries a secret with the stored hash.\<close>

lemma resume_issue_verify:
  assumes "resume_issue sha i secret = Inr (t, token)"
  shows "resume_verify sha t token = Returned (Inr ())"
proof -
  have "secret \<noteq> []" "CHR ''.'' \<notin> set i" and t: "t = \<lparr>rt_id = i, rt_secret_hash = sha secret\<rparr>"
    and token: "token = i @ CHR ''.'' # hex secret"
    using assms by (auto simp: resume_issue_def split: if_splits)
  then have "hex secret \<noteq> []" "split_once (CHR ''.'') token = Some (i, hex secret)"
    using hex_length [of secret] split_once_append by (auto simp flip: length_greater_0_conv)
  then show ?thesis by (simp add: resume_verify_def t decode_hex_hex)
qed

lemma resume_verify_accepts:
  assumes "resume_issue sha i secret = Inr (t, token)"
  shows "resume_verify sha t other = Returned (Inr ()) \<longleftrightarrow>
    (\<exists>s decoded. other = i @ ''.'' @ s \<and> s \<noteq> [] \<and> decode_hex s = Returned (Some decoded) \<and> sha decoded = sha secret)"
proof -
  have i: "CHR ''.'' \<notin> set i" and t: "t = \<lparr>rt_id = i, rt_secret_hash = sha secret\<rparr>"
    using assms by (auto simp: resume_issue_def split: if_splits)
  have split: "split_once c s = Some (a, b) \<Longrightarrow> s = a @ c # b" for c s a b
    by (induction s arbitrary: a) (auto split: if_splits)
  show ?thesis
    using split [of "CHR ''.''" other] split_once_append [OF i]
    by (auto simp: resume_verify_def t split: option.splits if_splits outcome.splits)
qed

text \<open>A secret that is not ASCII can make the verification panic.\<close>

lemma resume_verify_panics:
  assumes "resume_issue sha i secret = Inr (t, token)"
  shows "resume_verify sha t (i @ ''.'' @ [CHR ''a'', CHR 0xC3, CHR 0xA9, CHR ''b'']) = Panicked"
proof -
  have i: "CHR ''.'' \<notin> set i" and t: "rt_id t = i"
    using assms by (auto simp: resume_issue_def split: if_splits)
  show ?thesis
    by (simp add: resume_verify_def t split_once_append [OF i] decode_hex_def is_char_boundary_def byte_def)
qed

end
