(* ===== verification/Rc_Media.thy ===== *)
theory Rc_Media
  imports Rc_Messages Rc_Float
begin

section \<open>Media negotiation and adaptation\<close>

text \<open>
  \<^verbatim>\<open>crates/remote-protocol/src/media.rs\<close> and \<^verbatim>\<open>crates/remote-core/src/media.rs\<close>: what two peers
  can encode and decode, the configuration they agree on, and how measurements lower it.
  \<^verbatim>\<open>x as f32 * factor\<close> rounds twice, to 24 significant bits each time.
\<close>

datatype video_codec = H264 | H265Reserved | Av1Reserved

datatype quality_profile = Balanced | TextClear | LowBandwidth | LowLatency

record codec_capability =
  cc_codec :: video_codec
  cc_profiles :: "string list"
  cc_pixel_formats :: "string list"
  cc_color_modes :: "string list"
  cc_max_width :: u32
  cc_max_height :: u32
  cc_max_fps :: u32
  cc_hardware_encode :: bool
  cc_hardware_decode :: bool
  cc_software_encode :: bool
  cc_software_decode :: bool

record display_capability =
  dc_max_displays :: u16
  dc_max_width :: u32
  dc_max_height :: u32
  dc_rotation :: bool
  dc_dynamic_resize :: bool

record input_capability =
  ic_mouse :: bool
  ic_physical_keyboard :: bool
  ic_text_commit :: bool
  ic_ime_composition :: bool
  ic_touch :: bool
  ic_external_pointer :: bool

record media_capabilities =
  mc_session_id :: u128
  mc_role :: session_role
  mc_codec_capabilities :: "codec_capability list"
  mc_display_capabilities :: display_capability
  mc_input_capabilities :: input_capability

record media_config_request =
  mq_session_id :: u128
  mq_display_id :: string
  mq_preferred_codec :: video_codec
  mq_max_width :: u32
  mq_max_height :: u32
  mq_max_fps :: u32
  mq_max_bitrate_kbps :: u32
  mq_quality_profile :: quality_profile
  mq_color_mode :: string
  mq_timestamp_epoch_millis :: u64

datatype media_config_status = MediaActive | MediaDegraded | MediaUnsupported | MediaFailed

record media_config_state =
  ms_session_id :: u128
  ms_display_id :: string
  ms_codec :: video_codec
  ms_width :: u32
  ms_height :: u32
  ms_fps :: u32
  ms_bitrate_kbps :: u32
  ms_profile :: string
  ms_pixel_format :: string
  ms_color_mode :: string
  ms_hardware_acceleration :: bool
  ms_state :: media_config_status
  ms_reason :: "string option"
  ms_timestamp_epoch_millis :: u64

record media_quality_state =
  mm_session_id :: u128
  mm_display_id :: string
  mm_rtt_ms :: u32
  mm_loss_ppm :: u32
  mm_jitter_ms :: u32
  mm_bitrate_kbps :: u32
  mm_fps :: u32
  mm_dropped_frames :: u64
  mm_encode_ms :: u32
  mm_decode_ms :: u32
  mm_cpu_percent :: u16
  mm_memory_mb :: u32
  mm_timestamp_epoch_millis :: u64

datatype media_error = SessionMismatch | DisplayMissing | H264Unavailable | InvalidRequest

definition find_h264 :: "codec_capability list \<Rightarrow> codec_capability option" where
  "find_h264 capabilities = find (\<lambda>cap. cc_codec cap = H264) capabilities"

definition choose_pixel_format :: "codec_capability \<Rightarrow> codec_capability \<Rightarrow> string" where
  "choose_pixel_format sender receiver =
    (case find (\<lambda>f. f \<in> set (cc_pixel_formats receiver)) (cc_pixel_formats sender) of
       Some f \<Rightarrow> f
     | None \<Rightarrow> ''nv12'')"

fun quality_name :: "quality_profile \<Rightarrow> string" where
  "quality_name Balanced = ''balanced''"
| "quality_name TextClear = ''text_clear''"
| "quality_name LowBandwidth = ''low_bandwidth''"
| "quality_name LowLatency = ''low_latency''"

definition negotiated ::
    "media_config_request \<Rightarrow> codec_capability \<Rightarrow> codec_capability \<Rightarrow> u32 \<Rightarrow> u32 \<Rightarrow> u32 \<Rightarrow> media_config_state" where
  "negotiated request sender_h264 receiver_h264 width height fps =
    \<lparr>ms_session_id = mq_session_id request,
     ms_display_id = mq_display_id request,
     ms_codec = H264,
     ms_width = width,
     ms_height = height,
     ms_fps = fps,
     ms_bitrate_kbps = mq_max_bitrate_kbps request,
     ms_profile = quality_name (mq_quality_profile request),
     ms_pixel_format = choose_pixel_format sender_h264 receiver_h264,
     ms_color_mode = mq_color_mode request,
     ms_hardware_acceleration = (cc_hardware_encode sender_h264 \<and> cc_hardware_decode receiver_h264),
     ms_state = MediaActive,
     ms_reason = None,
     ms_timestamp_epoch_millis = mq_timestamp_epoch_millis request\<rparr>"

definition negotiate ::
    "media_capabilities \<Rightarrow> media_capabilities \<Rightarrow> media_config_request \<Rightarrow> media_error + media_config_state" where
  "negotiate sender receiver request =
    (if mc_session_id sender \<noteq> mq_session_id request \<or> mc_session_id receiver \<noteq> mq_session_id request
     then Inl SessionMismatch
     else if mq_preferred_codec request \<noteq> H264 then Inl H264Unavailable
     else if mq_display_id request = [] \<or> mq_max_width request = 0 \<or> mq_max_height request = 0
       \<or> mq_max_fps request = 0 \<or> mq_max_bitrate_kbps request = 0
     then Inl InvalidRequest
     else if dc_max_displays (mc_display_capabilities receiver) = 0 then Inl DisplayMissing
     else
       and_then (ok_or H264Unavailable (find_h264 (mc_codec_capabilities sender))) (\<lambda>sender_h264.
       and_then (ok_or H264Unavailable (find_h264 (mc_codec_capabilities receiver))) (\<lambda>receiver_h264.
       let width = min (min (mq_max_width request) (cc_max_width sender_h264)) (cc_max_width receiver_h264);
           height = min (min (mq_max_height request) (cc_max_height sender_h264)) (cc_max_height receiver_h264);
           fps = min (min (mq_max_fps request) (cc_max_fps sender_h264)) (cc_max_fps receiver_h264)
       in if width = 0 \<or> height = 0 \<or> fps = 0 then Inl InvalidRequest
          else Inr (negotiated request sender_h264 receiver_h264 width height fps))))"

text \<open>\<^verbatim>\<open>(x as f32 * factor) as u32\<close>\<close>

definition scale_u32 :: "u32 \<Rightarrow> rat \<Rightarrow> u32" where
  "scale_u32 x factor = as_u32 (round_f32 (round_f32 (of_nat (unat x)) * factor))"

definition adapt :: "media_config_state \<Rightarrow> media_quality_state \<Rightarrow> media_config_state" where
  "adapt current metrics =
    (let severe = (mm_loss_ppm metrics \<ge> 100000 \<or> mm_rtt_ms metrics \<ge> 500 \<or> mm_cpu_percent metrics \<ge> 95);
         moderate = (mm_loss_ppm metrics \<ge> 30000 \<or> mm_rtt_ms metrics \<ge> 250 \<or> mm_jitter_ms metrics \<ge> 80);
         (factor, state, reason) =
           (if severe then (1 / 2, MediaDegraded, ''link_or_cpu_degraded'')
            else if moderate then (3 / 4, MediaDegraded, ''link_quality_reduced'')
            else (1, MediaActive, ''link_quality_recovered''));
         bitrate = max (scale_u32 (ms_bitrate_kbps current) factor) 128;
         fps = max (scale_u32 (ms_fps current) factor) 1
     in current\<lparr>ms_bitrate_kbps := bitrate, ms_fps := fps, ms_state := state, ms_reason := Some reason\<rparr>)"

subsection \<open>The negotiated configuration stays within every limit\<close>

lemma find_SomeD: "find P xs = Some x \<Longrightarrow> x \<in> set xs \<and> P x"
  by (auto simp: find_Some_iff)

lemma choose_pixel_format_common:
  "(\<exists>f. f \<in> set (cc_pixel_formats s) \<and> f \<in> set (cc_pixel_formats r)) \<Longrightarrow>
    choose_pixel_format s r \<in> set (cc_pixel_formats s) \<inter> set (cc_pixel_formats r)"
  by (auto simp: choose_pixel_format_def find_None_iff dest!: find_SomeD split: option.split)

lemma negotiate_within:
  assumes "negotiate sender receiver request = Inr c"
  shows "\<exists>s r. s \<in> set (mc_codec_capabilities sender) \<and> cc_codec s = H264
    \<and> r \<in> set (mc_codec_capabilities receiver) \<and> cc_codec r = H264
    \<and> ms_codec c = H264
    \<and> 0 < ms_width c \<and> ms_width c \<le> mq_max_width request \<and> ms_width c \<le> cc_max_width s \<and> ms_width c \<le> cc_max_width r
    \<and> 0 < ms_height c \<and> ms_height c \<le> mq_max_height request \<and> ms_height c \<le> cc_max_height s \<and> ms_height c \<le> cc_max_height r
    \<and> 0 < ms_fps c \<and> ms_fps c \<le> mq_max_fps request \<and> ms_fps c \<le> cc_max_fps s \<and> ms_fps c \<le> cc_max_fps r
    \<and> ms_bitrate_kbps c = mq_max_bitrate_kbps request \<and> 0 < ms_bitrate_kbps c
    \<and> (ms_hardware_acceleration c \<longrightarrow> cc_hardware_encode s \<and> cc_hardware_decode r)
    \<and> ms_pixel_format c = choose_pixel_format s r
    \<and> ms_session_id c = mq_session_id request"
proof -
  obtain s r w h f where sr: "find_h264 (mc_codec_capabilities sender) = Some s"
      "find_h264 (mc_codec_capabilities receiver) = Some r"
    and whf: "w = min (min (mq_max_width request) (cc_max_width s)) (cc_max_width r)" "w \<noteq> 0"
      "h = min (min (mq_max_height request) (cc_max_height s)) (cc_max_height r)" "h \<noteq> 0"
      "f = min (min (mq_max_fps request) (cc_max_fps s)) (cc_max_fps r)" "f \<noteq> 0"
    and b: "mq_max_bitrate_kbps request \<noteq> 0" and c: "c = negotiated request s r w h f"
    using assms unfolding negotiate_def Let_def result_simps ok_or_eq_Inr sum.inject by blast
  have "s \<in> set (mc_codec_capabilities sender) \<and> cc_codec s = H264"
      "r \<in> set (mc_codec_capabilities receiver) \<and> cc_codec r = H264"
    using sr by (auto simp: find_h264_def dest!: find_SomeD)
  moreover have "w \<le> mq_max_width request \<and> w \<le> cc_max_width s \<and> w \<le> cc_max_width r"
      "h \<le> mq_max_height request \<and> h \<le> cc_max_height s \<and> h \<le> cc_max_height r"
      "f \<le> mq_max_fps request \<and> f \<le> cc_max_fps s \<and> f \<le> cc_max_fps r"
    unfolding whf by (simp_all add: min_le_iff_disj)
  ultimately show ?thesis
    using whf(2,4,6) b
    by (intro exI [of _ s] exI [of _ r]) (simp add: c negotiated_def word_neq_0_conv)
qed

subsection \<open>Adaptation never raises what was negotiated\<close>

lemma as_u32_le: "0 \<le> q \<Longrightarrow> q \<le> of_nat n \<Longrightarrow> unat (as_u32 q) \<le> n"
proof -
  assume q: "0 \<le> q" "q \<le> of_nat n"
  let ?k = "clamp_int 0 (2 ^ 32 - 1) (truncate_rat q)"
  have f: "0 \<le> \<lfloor>q\<rfloor>" "\<lfloor>q\<rfloor> \<le> int n" using q by (simp_all add: floor_le_iff)
  then have k: "0 \<le> ?k" "?k < 2 ^ 32" "?k \<le> int n"
    using q by (auto simp: clamp_int_def truncate_rat_def)
  then have "uint (as_u32 q) = ?k"
    by (simp add: as_u32_def uint_word_of_int_eq take_bit_int_eq_self_iff)
  with k show ?thesis by (simp add: unat_eq_nat_uint)
qed

lemma scale_u32_le:
  assumes "unat x < 2 ^ 24" "0 \<le> factor" "factor \<le> 1"
  shows "unat (scale_u32 x factor) \<le> unat x"
proof -
  let ?x = "of_nat (unat x) :: rat"
  have a: "0 \<le> round_f32 ?x \<and> round_f32 ?x \<le> ?x"
    unfolding round_f32_def by (rule round_float_le) (use assms in \<open>simp_all del: of_nat_unat\<close>)
  then have "0 \<le> round_f32 ?x * factor" "round_f32 ?x * factor \<le> ?x"
    using assms by (auto intro: order.trans [OF mult_left_le])
  then have "0 \<le> round_f32 (round_f32 ?x * factor) \<and> round_f32 (round_f32 ?x * factor) \<le> ?x"
    using assms(1) by (simp only: fun_cong [OF round_f32_def, of "round_f32 ?x * factor"])
      (intro round_float_le, simp_all del: of_nat_unat)
  then show ?thesis unfolding scale_u32_def by (intro as_u32_le) simp_all
qed

definition media_below :: "u32 \<Rightarrow> u32 \<Rightarrow> media_config_state \<Rightarrow> bool" where
  "media_below fps bitrate c \<longleftrightarrow>
    1 \<le> ms_fps c \<and> ms_fps c \<le> fps \<and> ms_bitrate_kbps c \<le> max bitrate 128"

lemma media_below_update:
  "media_below fps bitrate (c\<lparr>ms_bitrate_kbps := b, ms_fps := f, ms_state := st, ms_reason := re\<rparr>) \<longleftrightarrow>
    1 \<le> f \<and> f \<le> fps \<and> b \<le> max bitrate 128"
  by (simp add: media_below_def)

lemma adapt_below:
  assumes "media_below fps bitrate c" "unat fps < 2 ^ 24" "unat bitrate < 2 ^ 24"
  shows "media_below fps bitrate (adapt c m)"
proof -
  have c: "1 \<le> ms_fps c" "ms_fps c \<le> fps" "ms_bitrate_kbps c \<le> max bitrate 128"
    using assms(1) by (simp_all add: media_below_def)
  have "unat (max bitrate 128) < 2 ^ 24" using assms(3) by (simp add: max_def)
  then have "unat (ms_fps c) < 2 ^ 24" "unat (ms_bitrate_kbps c) < 2 ^ 24"
    using c(2,3) assms(2) unfolding word_le_nat_alt by simp_all
  then have "scale_u32 (ms_fps c) f \<le> ms_fps c" "scale_u32 (ms_bitrate_kbps c) f \<le> ms_bitrate_kbps c"
    if "0 \<le> f" "f \<le> 1" for f
    using scale_u32_le that by (simp_all add: word_le_nat_alt)
  then have "max (scale_u32 (ms_fps c) f) 1 \<le> fps" "max (scale_u32 (ms_bitrate_kbps c) f) 128 \<le> max bitrate 128"
    if "0 \<le> f" "f \<le> 1" for f
    using that c order.trans [of _ "ms_fps c" fps] order.trans [of _ "ms_bitrate_kbps c" "max bitrate 128"]
      order.trans [of 1 "ms_fps c" fps]
    by (simp_all only: max.bounded_iff max.cobounded2 conj_absorb simp_thms)
  then have "media_below fps bitrate (c\<lparr>ms_bitrate_kbps := max (scale_u32 (ms_bitrate_kbps c) f) 128,
      ms_fps := max (scale_u32 (ms_fps c) f) 1, ms_state := st, ms_reason := re\<rparr>)"
    if "0 \<le> f" "f \<le> 1" for f st re
    using that by (simp only: media_below_update max.cobounded2 simp_thms)
  then have "media_below fps bitrate (case t of (f, st, re) \<Rightarrow>
      c\<lparr>ms_bitrate_kbps := max (scale_u32 (ms_bitrate_kbps c) f) 128,
        ms_fps := max (scale_u32 (ms_fps c) f) 1, ms_state := st, ms_reason := Some re\<rparr>)"
    if "0 \<le> fst t" "fst t \<le> 1" for t
    using that by (simp only: case_prod_beta)
  then show ?thesis unfolding adapt_def Let_def by this (simp_all split: if_split)
qed

lemma adapt_run_below:
  assumes "media_below fps bitrate c" "unat fps < 2 ^ 24" "unat bitrate < 2 ^ 24"
  shows "media_below fps bitrate (foldl adapt c ms)"
  using assms(1)
proof (induction ms arbitrary: c)
  case (Cons m ms)
  then show ?case using adapt_below assms(2,3) by simp
qed simp

lemma adapt_run_keeps:
  "ms_session_id (foldl adapt c ms) = ms_session_id c \<and> ms_width (foldl adapt c ms) = ms_width c
    \<and> ms_height (foldl adapt c ms) = ms_height c \<and> ms_codec (foldl adapt c ms) = ms_codec c"
  by (induction ms arbitrary: c) (simp_all add: adapt_def Let_def split: if_splits)

text \<open>A good link after a bad one reports a recovery but keeps the lowered rates.\<close>

lemma adapt_recovery_keeps_rates:
  assumes "mm_loss_ppm m < 30000" "mm_rtt_ms m < 250" "mm_jitter_ms m < 80" "mm_cpu_percent m < 95"
    and "unat (ms_fps c) < 2 ^ 24" "unat (ms_bitrate_kbps c) < 2 ^ 24" "128 \<le> ms_bitrate_kbps c" "1 \<le> ms_fps c"
  shows "ms_reason (adapt c m) = Some ''link_quality_recovered'' \<and> ms_state (adapt c m) = MediaActive
    \<and> ms_bitrate_kbps (adapt c m) \<le> ms_bitrate_kbps c \<and> ms_fps (adapt c m) \<le> ms_fps c"
proof -
  have "\<not> (mm_loss_ppm m \<ge> 100000 \<or> mm_rtt_ms m \<ge> 500 \<or> mm_cpu_percent m \<ge> 95)"
    using assms(1,2,4) by (auto simp: not_le intro: less_trans)
  moreover have "\<not> (mm_loss_ppm m \<ge> 30000 \<or> mm_rtt_ms m \<ge> 250 \<or> mm_jitter_ms m \<ge> 80)"
    using assms(1-3) by (simp add: not_le)
  moreover have "scale_u32 (ms_fps c) 1 \<le> ms_fps c" "scale_u32 (ms_bitrate_kbps c) 1 \<le> ms_bitrate_kbps c"
    using scale_u32_le [of _ 1] assms(5,6) by (simp_all add: word_le_nat_alt)
  ultimately show ?thesis using assms(7,8) by (simp add: adapt_def Let_def)
qed

end
