(* ===== verification/Rc_Controller.thy ===== *)
theory Rc_Controller
  imports Rc_Input
begin

section \<open>The controller session\<close>

text \<open>
  \<^verbatim>\<open>crates/remote-core/src/controller/mod.rs\<close>: the session object of the controlling side. The
  transport is a trait with a mutable receiver; here it is a record of functions over a state
  type \<open>'t\<close> that the session carries. \<^verbatim>\<open>serde_json::to_vec\<close> is the parameter \<open>to_vec\<close>.
\<close>

type_synonym i64 = "64 word"

definition MAX_H264_ACCESS_UNIT_BYTES :: nat where
  "MAX_H264_ACCESS_UNIT_BYTES = 32 * 1024 * 1024"

datatype controller_session_state = CsIdle | CsConnecting | CsStreaming | CsReconnecting | CsClosed

record h264_access_unit =
  au_data :: bytes
  au_presentation_time_millis :: i64
  au_is_keyframe :: bool
  au_frame_id :: u64

datatype input_delivery = DeliverRealtime | DeliverReliable

datatype controller_transport_error = TransportUnavailable string | TransportClosed

datatype controller_session_error =
    CeInvalidState
  | CeInvalidInput
  | CeInputSessionMismatch
  | CeInvalidAccessUnit
  | CeSerialization
  | CeTransport controller_transport_error

datatype controller_session_event =
    StateChanged controller_session_state
  | EvH264 h264_access_unit
  | RecoverableTransportError string
  | FatalTransportError string

datatype controller_transport_event =
    TrConnected
  | TrH264 h264_access_unit
  | TrDisconnected bool string
  | TrClosed

definition access_unit_validate :: "h264_access_unit \<Rightarrow> controller_session_error + unit" where
  "access_unit_validate u =
    (if au_data u = [] \<or> length (au_data u) > MAX_H264_ACCESS_UNIT_BYTES then Inl CeInvalidAccessUnit
     else if take 3 (au_data u) \<noteq> [0, 0, 1] \<and> take 4 (au_data u) \<noteq> [0, 0, 0, 1]
     then Inl CeInvalidAccessUnit
     else Inr ())"

record 't controller_transport =
  ct_start :: "u64 \<Rightarrow> 't \<Rightarrow> (controller_transport_error + unit) \<times> 't"
  ct_send_input :: "bytes \<Rightarrow> input_delivery \<Rightarrow> 't \<Rightarrow> (controller_transport_error + unit) \<times> 't"
  ct_close :: "'t \<Rightarrow> (controller_transport_error + unit) \<times> 't"

record 't controller_session =
  cs_session_id :: u128
  cs_transport :: 't
  cs_state :: controller_session_state
  cs_connection_epoch :: u64
  cs_events :: "controller_session_event list"
  cs_close_started :: bool

definition controller_new :: "u128 \<Rightarrow> 't \<Rightarrow> 't controller_session" where
  "controller_new session_id transport =
    \<lparr>cs_session_id = session_id, cs_transport = transport, cs_state = CsIdle,
     cs_connection_epoch = 0, cs_events = [], cs_close_started = False\<rparr>"

definition transition_to :: "'t controller_session \<Rightarrow> controller_session_state \<Rightarrow> 't controller_session" where
  "transition_to s state =
    (if cs_state s = state then s
     else s\<lparr>cs_state := state, cs_events := cs_events s @ [StateChanged state]\<rparr>)"

definition next_epoch :: "'t controller_session \<Rightarrow> 't controller_session" where
  "next_epoch s = s\<lparr>cs_connection_epoch := saturating_add (cs_connection_epoch s) 1\<rparr>"

definition push_event :: "controller_session_event \<Rightarrow> 't controller_session \<Rightarrow> 't controller_session" where
  "push_event e s = s\<lparr>cs_events := cs_events s @ [e]\<rparr>"

definition controller_close ::
    "'t controller_transport \<Rightarrow> 't controller_session \<Rightarrow> (controller_session_error + unit) \<times> 't controller_session" where
  "controller_close tr s =
    (if cs_close_started s then (Inr (), s)
     else
       let s = next_epoch (s\<lparr>cs_close_started := True\<rparr>);
           (close_result, transport) = ct_close tr (cs_transport s);
           s = transition_to (s\<lparr>cs_transport := transport\<rparr>) CsClosed
       in (map_err CeTransport close_result, s))"

definition fail_transport ::
    "'t controller_transport \<Rightarrow> controller_transport_error \<Rightarrow> 't controller_session \<Rightarrow> 't controller_session" where
  "fail_transport tr e s =
    (let message = (case e of TransportUnavailable m \<Rightarrow> m | TransportClosed \<Rightarrow> ''transport closed'')
     in snd (controller_close tr (push_event (FatalTransportError message) s)))"

text \<open>\<^verbatim>\<open>if let Err(error) = self.transport.start(self.connection_epoch)\<close>, shared by both callers.\<close>

definition start_transport ::
    "'t controller_transport \<Rightarrow> 't controller_session \<Rightarrow> (controller_session_error + unit) \<times> 't controller_session" where
  "start_transport tr s =
    (let (started, transport) = ct_start tr (cs_connection_epoch s) (cs_transport s);
         s = s\<lparr>cs_transport := transport\<rparr>
     in case started of
          Inl e \<Rightarrow> (Inl (CeTransport e), fail_transport tr e s)
        | Inr _ \<Rightarrow> (Inr (), s))"

definition controller_connect ::
    "'t controller_transport \<Rightarrow> 't controller_session \<Rightarrow> (controller_session_error + u64) \<times> 't controller_session" where
  "controller_connect tr s =
    (if cs_state s \<noteq> CsIdle \<or> cs_close_started s then (Inl CeInvalidState, s)
     else
       let (r, s) = start_transport tr (transition_to (next_epoch s) CsConnecting)
       in (and_then r (\<lambda>_. Inr (cs_connection_epoch s)), s))"

definition restart_transport ::
    "'t controller_transport \<Rightarrow> 't controller_session \<Rightarrow> (controller_session_error + unit) \<times> 't controller_session" where
  "restart_transport tr s =
    (if cs_state s \<notin> {CsConnecting, CsStreaming, CsReconnecting} then (Inl CeInvalidState, s)
     else start_transport tr (transition_to (next_epoch s) CsReconnecting))"

definition handle_transport_event ::
    "'t controller_transport \<Rightarrow> 't controller_session \<Rightarrow> u64 \<Rightarrow> controller_transport_event
      \<Rightarrow> (controller_session_error + unit) \<times> 't controller_session" where
  "handle_transport_event tr s epoch event =
    (if cs_close_started s \<or> epoch \<noteq> cs_connection_epoch s then (Inr (), s)
     else
       case event of
         TrConnected \<Rightarrow>
           if cs_state s \<notin> {CsConnecting, CsReconnecting} then (Inl CeInvalidState, s)
           else (Inr (), transition_to s CsStreaming)
       | TrH264 u \<Rightarrow>
           if cs_state s \<noteq> CsStreaming then (Inr (), s)
           else
             (case access_unit_validate u of
                Inl e \<Rightarrow> (Inl e, s)
              | Inr _ \<Rightarrow> (Inr (), push_event (EvH264 u) s))
       | TrDisconnected recoverable reason \<Rightarrow>
           if recoverable then restart_transport tr (push_event (RecoverableTransportError reason) s)
           else controller_close tr (push_event (FatalTransportError reason) s)
       | TrClosed \<Rightarrow> controller_close tr s)"

definition send_input ::
    "(input_event \<Rightarrow> bytes option) \<Rightarrow> 't controller_transport \<Rightarrow> 't controller_session \<Rightarrow> input_event
      \<Rightarrow> (controller_session_error + unit) \<times> 't controller_session" where
  "send_input to_vec tr s event =
    (if cs_state s \<noteq> CsStreaming \<or> cs_close_started s then (Inl CeInvalidState, s)
     else if ie_session_id event \<noteq> cs_session_id s then (Inl CeInputSessionMismatch, s)
     else
       case input_validate event of
         Inl _ \<Rightarrow> (Inl CeInvalidInput, s)
       | Inr _ \<Rightarrow>
           let delivery = (if ie_input_kind event = MouseMove then DeliverRealtime else DeliverReliable) in
           (case to_vec event of
              None \<Rightarrow> (Inl CeSerialization, s)
            | Some payload \<Rightarrow>
                let (r, transport) = ct_send_input tr payload delivery (cs_transport s)
                in (map_err CeTransport r, s\<lparr>cs_transport := transport\<rparr>)))"

fun poll_event :: "'t controller_session \<Rightarrow> controller_session_event option \<times> 't controller_session" where
  "poll_event s =
    (case cs_events s of [] \<Rightarrow> (None, s) | e # es \<Rightarrow> (Some e, s\<lparr>cs_events := es\<rparr>))"

definition controller_drop :: "'t controller_transport \<Rightarrow> 't controller_session \<Rightarrow> 't controller_session" where
  "controller_drop tr s =
    (if cs_close_started s then s
     else s\<lparr>cs_close_started := True, cs_transport := snd (ct_close tr (cs_transport s))\<rparr>)"

subsection \<open>Runs\<close>

datatype controller_op =
    OpConnect
  | OpTransportEvent u64 controller_transport_event
  | OpSendInput input_event
  | OpPoll
  | OpClose

datatype controller_result =
    ResEpoch "controller_session_error + u64"
  | ResUnit "controller_session_error + unit"
  | ResEvent "controller_session_event option"

fun controller_step ::
    "(input_event \<Rightarrow> bytes option) \<Rightarrow> 't controller_transport \<Rightarrow> 't controller_session \<Rightarrow> controller_op
      \<Rightarrow> controller_result \<times> 't controller_session" where
  "controller_step to_vec tr s OpConnect = apfst ResEpoch (controller_connect tr s)"
| "controller_step to_vec tr s (OpTransportEvent epoch e) = apfst ResUnit (handle_transport_event tr s epoch e)"
| "controller_step to_vec tr s (OpSendInput e) = apfst ResUnit (send_input to_vec tr s e)"
| "controller_step to_vec tr s OpPoll = apfst ResEvent (poll_event s)"
| "controller_step to_vec tr s OpClose = apfst ResUnit (controller_close tr s)"

text \<open>The events a run has handed out.\<close>

fun polled :: "(controller_op \<times> controller_result) list \<Rightarrow> controller_session_event list" where
  "polled [] = []"
| "polled ((x, ResEvent (Some e)) # tr) = e # polled tr"
| "polled (x # tr) = polled tr"

lemma polled_append [simp]: "polled (xs @ ys) = polled xs @ polled ys"
  by (induction xs rule: polled.induct) simp_all

subsection \<open>What the application sees\<close>

text \<open>
  The events of a session as an automaton: which event may come in which state, and the state
  after it.
\<close>

fun event_next :: "controller_session_state \<Rightarrow> controller_session_event \<Rightarrow> controller_session_state option" where
  "event_next s (StateChanged s') =
    (if (s = CsIdle \<and> s' = CsConnecting)
        \<or> (s \<in> {CsConnecting, CsReconnecting} \<and> s' = CsStreaming)
        \<or> (s \<in> {CsConnecting, CsStreaming} \<and> s' = CsReconnecting)
        \<or> (s \<noteq> CsClosed \<and> s' = CsClosed)
     then Some s' else None)"
| "event_next s (EvH264 u) =
    (if s = CsStreaming \<and> access_unit_validate u = Inr () then Some s else None)"
| "event_next s (RecoverableTransportError m) = (if s \<noteq> CsClosed then Some s else None)"
| "event_next s (FatalTransportError m) = (if s \<noteq> CsClosed then Some s else None)"

fun follows :: "controller_session_state \<Rightarrow> controller_session_event list \<Rightarrow> controller_session_state option" where
  "follows s [] = Some s"
| "follows s (e # es) = (case event_next s e of None \<Rightarrow> None | Some s' \<Rightarrow> follows s' es)"

lemma follows_append:
  "follows s (xs @ ys) = (case follows s xs of None \<Rightarrow> None | Some s' \<Rightarrow> follows s' ys)"
  by (induction xs arbitrary: s) (auto split: option.split)

text \<open>
  \<open>stream h s\<close>: the events \<open>h\<close> handed out so far, followed by those still queued, are accepted
  and end in the state of the session; closing is what closes.
\<close>

definition stream :: "controller_session_event list \<Rightarrow> 't controller_session \<Rightarrow> bool" where
  "stream h s \<longleftrightarrow>
    follows CsIdle (h @ cs_events s) = Some (cs_state s) \<and> (cs_close_started s \<longleftrightarrow> cs_state s = CsClosed)"

lemma stream_next_epoch [simp]: "stream h (next_epoch s) = stream h s"
  by (simp add: stream_def next_epoch_def)

lemma next_epoch_state [simp]: "cs_state (next_epoch s) = cs_state s"
  by (simp add: next_epoch_def)

lemma stream_transport [simp]: "stream h (s\<lparr>cs_transport := t\<rparr>) = stream h s"
  by (simp add: stream_def)

lemma stream_push:
  "stream h s \<Longrightarrow> event_next (cs_state s) e = Some (cs_state s) \<Longrightarrow> stream h (push_event e s)"
  by (simp add: stream_def push_event_def follows_append flip: append_assoc)

lemma stream_transition:
  assumes "stream h s" "cs_state s \<noteq> CsClosed" "st \<noteq> CsClosed"
    and "cs_state s = st \<or> event_next (cs_state s) (StateChanged st) = Some st"
  shows "stream h (transition_to s st)"
proof (cases "cs_state s = st")
  case False
  then have "event_next (cs_state s) (StateChanged st) = Some st" using assms(4) by blast
  then show ?thesis
    using False assms(1-3)
    by (simp add: stream_def transition_to_def follows_append del: event_next.simps flip: append_assoc)
qed (use assms(1) in \<open>simp add: transition_to_def\<close>)

lemma stream_close:
  assumes "stream h s"
  shows "stream h (snd (controller_close tr s))"
proof (cases "cs_close_started s")
  case False
  then have "cs_state s \<noteq> CsClosed" using assms by (simp add: stream_def)
  then show ?thesis
    using assms False
    by (simp add: controller_close_def Let_def case_prod_beta stream_def transition_to_def next_epoch_def
        follows_append flip: append_assoc)
qed (use assms in \<open>simp add: controller_close_def\<close>)

lemma stream_start:
  assumes "stream h s" "cs_state s \<noteq> CsClosed"
  shows "stream h (snd (start_transport tr s))"
proof -
  have "stream h (push_event (FatalTransportError m) (s\<lparr>cs_transport := t\<rparr>))" for m t
    using assms by (intro stream_push) simp_all
  then show ?thesis
    using assms by (auto simp: start_transport_def fail_transport_def Let_def case_prod_beta
        intro: stream_close split: sum.split)
qed

lemma stream_restart:
  assumes "stream h s"
  shows "stream h (snd (restart_transport tr s))"
proof (cases "cs_state s \<in> {CsConnecting, CsStreaming, CsReconnecting}")
  case True
  have "stream h (transition_to (next_epoch s) CsReconnecting)"
    using assms True by (intro stream_transition) auto
  then show ?thesis
    using True by (auto simp: restart_transport_def intro!: stream_start) (simp_all add: transition_to_def)
qed (use assms in \<open>simp add: restart_transport_def\<close>)

lemma stream_event:
  assumes "stream h s"
  shows "stream h (snd (handle_transport_event tr s epoch e))"
proof (cases "cs_close_started s \<or> epoch \<noteq> cs_connection_epoch s")
  case False
  then have open_state: "cs_state s \<noteq> CsClosed" using assms by (simp add: stream_def)
  show ?thesis
  proof (cases e)
    case TrConnected
    then show ?thesis
      using False assms open_state by (auto simp: handle_transport_event_def intro!: stream_transition)
  next
    case (TrH264 u)
    then show ?thesis
      using False assms by (auto simp: handle_transport_event_def intro!: stream_push split: sum.split)
  next
    case (TrDisconnected r m)
    then show ?thesis
      using False assms open_state
      by (auto simp: handle_transport_event_def intro!: stream_restart stream_close stream_push)
  next
    case TrClosed
    then show ?thesis using False assms by (simp add: handle_transport_event_def stream_close)
  qed
qed (use assms in \<open>auto simp: handle_transport_event_def\<close>)

lemma stream_connect:
  assumes "stream h s"
  shows "stream h (snd (controller_connect tr s))"
proof (cases "cs_state s = CsIdle \<and> \<not> cs_close_started s")
  case True
  have "stream h (transition_to (next_epoch s) CsConnecting)"
    using assms True by (intro stream_transition) auto
  then have "stream h (snd (start_transport tr (transition_to (next_epoch s) CsConnecting)))"
    by (rule stream_start) (simp add: transition_to_def)
  then show ?thesis using True by (simp add: controller_connect_def Let_def case_prod_beta)
qed (use assms in \<open>auto simp: controller_connect_def\<close>)

lemma stream_send: "stream h s \<Longrightarrow> stream h (snd (send_input to_vec tr s e))"
  by (simp add: send_input_def Let_def case_prod_beta split: sum.split option.split)

lemma stream_step:
  assumes "stream h s" "controller_step to_vec tr s x = (r, s')"
  shows "stream (h @ polled [(x, r)]) s'"
proof (cases x)
  case OpPoll
  then show ?thesis
    using assms by (auto simp: stream_def split: list.splits)
next
  case (OpTransportEvent epoch e)
  then show ?thesis
    using assms stream_event [of h s tr epoch e] by (auto simp: apfst_def map_prod_def split: prod.splits)
next
  case (OpSendInput e)
  then show ?thesis
    using assms stream_send [of h s to_vec tr e] by (auto simp: apfst_def map_prod_def split: prod.splits)
qed (use assms stream_connect [of h s tr] stream_close [of h s tr] in
      \<open>auto simp: apfst_def map_prod_def split: prod.splits\<close>)

lemma stream_run:
  "stream h s \<Longrightarrow> stream (h @ polled (fst (run_ops (controller_step to_vec tr) s xs)))
      (snd (run_ops (controller_step to_vec tr) s xs))"
proof (induction xs arbitrary: h s)
  case (Cons x xs)
  obtain r s' where step: "controller_step to_vec tr s x = (r, s')" by fastforce
  have "stream ((h @ polled [(x, r)]) @ polled (fst (run_ops (controller_step to_vec tr) s' xs)))
      (snd (run_ops (controller_step to_vec tr) s' xs))"
    by (rule Cons.IH) (rule stream_step [OF Cons.prems step])
  then show ?case
    using step by (simp add: polled_append [of "[(x, r)]", simplified, symmetric] case_prod_beta)
qed simp

lemma stream_new: "stream [] (controller_new i t)"
  by (simp add: stream_def controller_new_def)

subsection \<open>Epochs\<close>

text \<open>Events of an earlier epoch are ignored, and closing ends the use of the transport.\<close>

lemma stale_event_ignored:
  "epoch \<noteq> cs_connection_epoch s \<Longrightarrow> handle_transport_event tr s epoch e = (Inr (), s)"
  by (simp add: handle_transport_event_def)

lemma closed_step_transport:
  assumes "cs_close_started s"
  shows "cs_transport (snd (controller_step to_vec tr s x)) = cs_transport s
    \<and> cs_close_started (snd (controller_step to_vec tr s x))
    \<and> cs_connection_epoch (snd (controller_step to_vec tr s x)) = cs_connection_epoch s"
  using assms
  by (cases x) (auto simp: controller_connect_def handle_transport_event_def send_input_def
      controller_close_def split: list.split)

lemma closed_run_transport:
  assumes "cs_close_started s"
  shows "cs_transport (snd (run_ops (controller_step to_vec tr) s xs)) = cs_transport s
    \<and> cs_close_started (snd (run_ops (controller_step to_vec tr) s xs))"
  using assms
proof (induction xs arbitrary: s)
  case (Cons x xs)
  then show ?case
    using closed_step_transport [of s to_vec tr x] by (simp add: case_prod_beta)
qed simp

text \<open>
  A transport that notes the epochs it was started with and how often it was closed, around
  any transport.
\<close>

definition logged :: "'t controller_transport \<Rightarrow> ('t \<times> u64 list \<times> nat) controller_transport" where
  "logged tr =
    \<lparr>ct_start = (\<lambda>e (t, es, n). let (r, t) = ct_start tr e t in (r, (t, es @ [e], n))),
     ct_send_input = (\<lambda>p d (t, es, n). let (r, t) = ct_send_input tr p d t in (r, (t, es, n))),
     ct_close = (\<lambda>(t, es, n). let (r, t) = ct_close tr t in (r, (t, es, Suc n)))\<rparr>"

definition epochs_used :: "('t \<times> u64 list \<times> nat) controller_session \<Rightarrow> u64 list" where
  "epochs_used s = fst (snd (cs_transport s))"

definition times_closed :: "('t \<times> u64 list \<times> nat) controller_session \<Rightarrow> nat" where
  "times_closed s = snd (snd (cs_transport s))"

definition epochs_ok :: "('t \<times> u64 list \<times> nat) controller_session \<Rightarrow> bool" where
  "epochs_ok s \<longleftrightarrow>
    times_closed s = (if cs_close_started s then 1 else 0)
    \<and> (\<forall>e \<in> set (epochs_used s). e \<le> cs_connection_epoch s)
    \<and> (cs_connection_epoch s < - 1 \<longrightarrow> sorted_wrt (<) (epochs_used s))"

text \<open>\<open>epochs_below\<close>: no start so far used the current epoch, unless the counter is saturated.\<close>

definition epochs_below :: "('t \<times> u64 list \<times> nat) controller_session \<Rightarrow> bool" where
  "epochs_below s \<longleftrightarrow>
    epochs_ok s \<and> (cs_connection_epoch s < - 1 \<longrightarrow> (\<forall>e \<in> set (epochs_used s). e < cs_connection_epoch s))"

lemmas epoch_defs = epochs_ok_def epochs_used_def times_closed_def

lemma less_saturating_add_one: "saturating_add a 1 < (- 1 :: 'a::len word) \<Longrightarrow> a < saturating_add a 1"
  using saturating_add_one [of a]
  by (cases "unat a + 1 < 2 ^ LENGTH('a)") (auto simp: saturating_add_def word_less_nat_alt)

lemma epochs_next: "epochs_ok s \<Longrightarrow> epochs_below (next_epoch s)"
  using saturating_add_one_ge [of "cs_connection_epoch s"] less_saturating_add_one [of "cs_connection_epoch s"]
  by (auto simp: epochs_below_def epoch_defs next_epoch_def intro: order.trans le_less_trans less_trans)

lemma epochs_transition [simp]: "epochs_ok (transition_to s st) = epochs_ok s"
  "epochs_below (transition_to s st) = epochs_below s"
  by (simp_all add: epochs_below_def epoch_defs transition_to_def)

lemma epochs_push [simp]: "epochs_ok (push_event e s) = epochs_ok s"
  by (simp add: epoch_defs push_event_def)

lemma epochs_close: "epochs_ok s \<Longrightarrow> epochs_ok (snd (controller_close (logged tr) s))"
  using saturating_add_one_ge [of "cs_connection_epoch s"]
  by (auto simp: controller_close_def Let_def case_prod_beta epoch_defs transition_to_def next_epoch_def logged_def
      intro: order.trans le_less_trans)

lemma epochs_start:
  assumes "epochs_below s"
  shows "epochs_ok (snd (start_transport (logged tr) s))"
proof -
  let ?s = "s\<lparr>cs_transport := snd (ct_start (logged tr) (cs_connection_epoch s) (cs_transport s))\<rparr>"
  have "epochs_ok ?s"
    using assms by (auto simp: epochs_below_def epoch_defs logged_def case_prod_beta Let_def sorted_wrt_append)
  then show ?thesis
    by (auto simp: start_transport_def fail_transport_def Let_def case_prod_beta intro: epochs_close split: sum.split)
qed

lemma epochs_step:
  assumes "epochs_ok s"
  shows "epochs_ok (snd (controller_step to_vec (logged tr) s x))"
proof (cases x)
  case OpConnect
  then show ?thesis
    using assms by (simp add: controller_connect_def Let_def case_prod_beta epochs_start epochs_next)
next
  case (OpTransportEvent epoch e)
  then show ?thesis
    using assms by (cases e) (auto simp: handle_transport_event_def restart_transport_def
        intro!: epochs_start epochs_next epochs_close split: sum.split)
next
  case (OpSendInput e)
  then show ?thesis
    using assms by (auto simp: send_input_def Let_def case_prod_beta epoch_defs logged_def split: sum.split option.split)
next
  case OpPoll
  then show ?thesis using assms by (auto simp: epoch_defs split: list.split)
next
  case OpClose
  then show ?thesis using assms by (simp add: epochs_close)
qed

interpretation controller: guarded_machine "controller_step to_vec (logged tr)" epochs_ok for to_vec tr
  by unfold_locales (rule epochs_step)

lemma epochs_new: "epochs_ok (controller_new i (t, [], 0))"
  by (simp add: epoch_defs controller_new_def)

end
