(* ===== verification/Rc_Handshake.thy ===== *)
theory Rc_Handshake
  imports Rc_Ordering
begin

section \<open>The session handshake\<close>

text \<open>
  \<^verbatim>\<open>crates/remote-runtime/src/handshake.rs\<close>: one side of the authenticated key exchange. It
  builds a payload bound to the session context, has it signed outside, checks the peer's
  signed payload, and then derives the keys, the secure session and the local key
  confirmation. The random ephemeral key of \<^verbatim>\<open>new\<close> is the argument of \<open>with_ephemeral_key\<close>.
\<close>

definition KEY_EXCHANGE_WINDOW_MILLIS :: u64 where
  "KEY_EXCHANGE_WINDOW_MILLIS = 30000"

record session_handshake_config =
  hc_context :: session_kdf_context
  hc_permissions :: session_permissions
  hc_local_role :: session_role
  hc_local_device_id :: string
  hc_local_device_public_key :: bytes
  hc_key_exchange_nonce :: bytes
  hc_timestamp_epoch_millis :: u64

datatype session_handshake_error =
    HsInvalidConfiguration
  | HsInvalidState
  | HsInvalidLocalSignature
  | HsPeerBindingMismatch
  | HsPeerMessageTooOld
  | HsSessionExpired
  | HsCrypto crypto_error
  | HsSecureSession secure_session_error

record session_handshake_ready =
  hr_secure_session :: secure_session
  hr_local_key_confirm :: key_confirm
  hr_key_exchange_transcript_hash :: bytes

record session_handshake =
  hs_config :: session_handshake_config
  hs_ephemeral_key :: ephemeral_key_pair
  hs_local_payload :: signed_key_exchange_payload
  hs_local_message :: "signed_key_exchange option"
  hs_peer_message :: "signed_key_exchange option"

fun device_for_role :: "session_kdf_context \<Rightarrow> session_role \<Rightarrow> string" where
  "device_for_role context Controller = kdf_controller_device_id context"
| "device_for_role context Controlled = kdf_controlled_device_id context"

definition validate_config ::
    "primitives \<Rightarrow> session_handshake_config \<Rightarrow> session_handshake_error + unit" where
  "validate_config pr config =
    (let context = hc_context config in
     if kdf_account_id context = []
        \<or> kdf_session_id context = 0
        \<or> hc_local_device_id config = []
        \<or> kdf_controller_device_id context = []
        \<or> kdf_controlled_device_id context = []
        \<or> kdf_controller_device_id context = kdf_controlled_device_id context
        \<or> kdf_protocol_version context \<noteq> PROTOCOL_VERSION
        \<or> kdf_session_expires_at_epoch_millis context \<le> hc_timestamp_epoch_millis config
        \<or> kdf_selected_candidate_pair_id context = 0
        \<or> hc_key_exchange_nonce config = replicate 32 0
        \<or> is_relay (kdf_selected_transport_path context) \<noteq> (kdf_relay_node_id context \<noteq> None)
        \<or> device_for_role context (hc_local_role config) \<noteq> hc_local_device_id config
        \<or> permissions_digest pr (hc_permissions config) \<noteq> Inr (kdf_permissions_digest context)
     then Inl HsInvalidConfiguration
     else Inr ())"

text \<open>The session context whose hash both payloads carry, and the payload.\<close>

definition session_context_of :: "session_kdf_context \<Rightarrow> session_context" where
  "session_context_of context =
    \<lparr>sc_account_id = kdf_account_id context,
     sc_session_id = kdf_session_id context,
     sc_controller_device_id = kdf_controller_device_id context,
     sc_controlled_device_id = kdf_controlled_device_id context,
     sc_permissions_digest = kdf_permissions_digest context,
     sc_protocol_version = kdf_protocol_version context,
     sc_session_expires_at_epoch_millis = kdf_session_expires_at_epoch_millis context\<rparr>"

definition payload_of ::
    "session_handshake_config \<Rightarrow> bytes \<Rightarrow> bytes \<Rightarrow> signed_key_exchange_payload" where
  "payload_of config context_hash ephemeral_public_key =
    \<lparr>ke_session_id = kdf_session_id (hc_context config),
     ke_device_id = hc_local_device_id config,
     ke_role = hc_local_role config,
     ke_session_context_hash = context_hash,
     ke_permissions_digest = kdf_permissions_digest (hc_context config),
     ke_session_expires_at_epoch_millis = kdf_session_expires_at_epoch_millis (hc_context config),
     ke_ephemeral_public_key = ephemeral_public_key,
     ke_key_exchange_nonce = hc_key_exchange_nonce config,
     ke_selected_transport_path = kdf_selected_transport_path (hc_context config),
     ke_selected_candidate_pair_id = kdf_selected_candidate_pair_id (hc_context config),
     ke_relay_node_id = kdf_relay_node_id (hc_context config),
     ke_timestamp_epoch_millis = hc_timestamp_epoch_millis config\<rparr>"

definition with_ephemeral_key ::
    "primitives \<Rightarrow> session_handshake_config \<Rightarrow> ephemeral_key_pair
      \<Rightarrow> session_handshake_error + session_handshake" where
  "with_ephemeral_key pr config ephemeral_key =
    and_then (validate_config pr config) (\<lambda>_.
    and_then (map_err HsCrypto (session_context_hash pr (session_context_of (hc_context config))))
      (\<lambda>context_hash.
    Inr \<lparr>hs_config = config,
         hs_ephemeral_key = ephemeral_key,
         hs_local_payload = payload_of config context_hash (ek_public_key ephemeral_key),
         hs_local_message = None,
         hs_peer_message = None\<rparr>))"

definition local_signature_digest ::
    "primitives \<Rightarrow> session_handshake \<Rightarrow> session_handshake_error + bytes" where
  "local_signature_digest pr h =
    map_err (\<lambda>_. HsCrypto CanonicalEncoding)
      (map_ok (pr_sha256 pr) (key_exchange_canonical_bytes (hs_local_payload h)))"

definition set_local_signature ::
    "primitives \<Rightarrow> session_handshake \<Rightarrow> bytes
      \<Rightarrow> (session_handshake_error + signed_key_exchange) \<times> session_handshake" where
  "set_local_signature pr h signature =
    (if hs_local_message h \<noteq> None \<or> length signature \<noteq> 64 then (Inl HsInvalidState, h)
     else
       case key_exchange_canonical_bytes (hs_local_payload h) of
         Inl _ \<Rightarrow> (Inl (HsCrypto CanonicalEncoding), h)
       | Inr canonical \<Rightarrow>
           (case verify_canonical_signature pr (hc_local_device_public_key (hs_config h)) canonical
               signature of
              Inl _ \<Rightarrow> (Inl HsInvalidLocalSignature, h)
            | Inr _ \<Rightarrow>
                let m = \<lparr>ske_payload = hs_local_payload h, ske_signature = signature\<rparr>
                in (Inr m, h\<lparr>hs_local_message := Some m\<rparr>)))"

text \<open>The comparison of the peer's payload with the own context.\<close>

definition peer_binding_ok :: "session_handshake \<Rightarrow> signed_key_exchange_payload \<Rightarrow> bool" where
  "peer_binding_ok h p \<longleftrightarrow>
    (let context = hc_context (hs_config h);
         expected_peer_role = opposite_role (hc_local_role (hs_config h));
         expected_peer_device = device_for_role context expected_peer_role
     in \<not> (ke_session_id p \<noteq> kdf_session_id context
            \<or> ke_device_id p \<noteq> expected_peer_device
            \<or> ke_role p \<noteq> expected_peer_role
            \<or> ke_session_context_hash p \<noteq> ke_session_context_hash (hs_local_payload h)
            \<or> ke_permissions_digest p \<noteq> kdf_permissions_digest context
            \<or> ke_session_expires_at_epoch_millis p \<noteq> kdf_session_expires_at_epoch_millis context
            \<or> ke_selected_transport_path p \<noteq> kdf_selected_transport_path context
            \<or> ke_selected_candidate_pair_id p \<noteq> kdf_selected_candidate_pair_id context
            \<or> ke_relay_node_id p \<noteq> kdf_relay_node_id context
            \<or> ke_ephemeral_public_key p = replicate 32 0
            \<or> ke_key_exchange_nonce p = replicate 32 0
            \<or> \<not> validate_path_binding p))"

definition peer_message_checked ::
    "primitives \<Rightarrow> session_handshake \<Rightarrow> signed_key_exchange \<Rightarrow> bytes \<Rightarrow> u64
      \<Rightarrow> session_handshake_error + unit" where
  "peer_message_checked pr h message peer_device_public_key now =
    (let expires = kdf_session_expires_at_epoch_millis (hc_context (hs_config h));
         p = ske_payload message in
     if hs_peer_message h \<noteq> None then Inl HsInvalidState
     else if now \<ge> expires \<or> ke_timestamp_epoch_millis p \<ge> expires then Inl HsSessionExpired
     else if \<not> peer_binding_ok h p then Inl HsPeerBindingMismatch
     else if abs_diff (ke_timestamp_epoch_millis p) now > KEY_EXCHANGE_WINDOW_MILLIS
     then Inl HsPeerMessageTooOld
     else
       and_then (ok_or HsPeerBindingMismatch (signature_bytes message)) (\<lambda>signature.
       and_then (map_err (\<lambda>_. HsCrypto CanonicalEncoding) (key_exchange_canonical_bytes p)) (\<lambda>canonical.
       map_err HsCrypto (verify_canonical_signature pr peer_device_public_key canonical signature))))"

definition verify_peer_message ::
    "primitives \<Rightarrow> session_handshake \<Rightarrow> signed_key_exchange \<Rightarrow> bytes \<Rightarrow> u64
      \<Rightarrow> (session_handshake_error + unit) \<times> session_handshake" where
  "verify_peer_message pr h message peer_device_public_key now =
    (case peer_message_checked pr h message peer_device_public_key now of
       Inl e \<Rightarrow> (Inl e, h)
     | Inr _ \<Rightarrow> (Inr (), h\<lparr>hs_peer_message := Some message\<rparr>))"

definition handshake_finish ::
    "primitives \<Rightarrow> session_handshake \<Rightarrow> u64 \<Rightarrow> session_handshake_error + session_handshake_ready" where
  "handshake_finish pr h timestamp =
    (let config = hs_config h; context = hc_context config in
     if timestamp \<ge> kdf_session_expires_at_epoch_millis context then Inl HsSessionExpired
     else
       and_then (ok_or HsInvalidState (hs_local_message h)) (\<lambda>local_m.
       and_then (ok_or HsInvalidState (hs_peer_message h)) (\<lambda>peer.
       let (controller, controlled) =
         (case hc_local_role config of Controller \<Rightarrow> (local_m, peer) | Controlled \<Rightarrow> (peer, local_m)) in
       and_then (map_err HsCrypto (key_exchange_transcript_hash pr controller controlled)) (\<lambda>transcript_hash.
       and_then (map_err HsCrypto
           (diffie_hellman pr (hs_ephemeral_key h) (ke_ephemeral_public_key (ske_payload peer))))
         (\<lambda>shared_secret.
       let kdf_context = context\<lparr>kdf_key_exchange_transcript_hash := transcript_hash\<rparr> in
       and_then (map_err HsCrypto (derive_session_keys pr shared_secret kdf_context)) (\<lambda>keys.
       and_then (map_err HsSecureSession (session_new (kdf_session_id kdf_context) (hc_local_role config)
           (hc_permissions config) (kdf_permissions_digest kdf_context)
           (kdf_selected_transport_path kdf_context) (kdf_selected_candidate_pair_id kdf_context)
           (kdf_relay_node_id kdf_context) transcript_hash keys)) (\<lambda>secure_session.
       let (confirm, secure_session) =
         create_local_key_confirm pr secure_session (hc_local_device_id config) timestamp in
       and_then (map_err HsSecureSession confirm) (\<lambda>local_key_confirm.
       Inr \<lparr>hr_secure_session = secure_session,
            hr_local_key_confirm = local_key_confirm,
            hr_key_exchange_transcript_hash = transcript_hash\<rparr>))))))))"

subsection \<open>Runs of one side\<close>

datatype handshake_op = SetSignature bytes | VerifyPeer signed_key_exchange bytes u64

fun handshake_step ::
    "primitives \<Rightarrow> session_handshake \<Rightarrow> handshake_op \<Rightarrow> (session_handshake_error + unit) \<times> session_handshake" where
  "handshake_step pr h (SetSignature signature) = apfst (map_ok (\<lambda>_. ())) (set_local_signature pr h signature)"
| "handshake_step pr h (VerifyPeer message pk now) = verify_peer_message pr h message pk now"

text \<open>
  What a handshake knows: its own message is its own payload under its own key, and the
  message it took from the peer passed every check.
\<close>

definition handshake_ok :: "primitives \<Rightarrow> session_handshake \<Rightarrow> bool" where
  "handshake_ok pr h \<longleftrightarrow>
    (\<forall>m. hs_local_message h = Some m \<longrightarrow>
       ske_payload m = hs_local_payload h \<and> length (ske_signature m) = 64
       \<and> (\<exists>bs. key_exchange_canonical_bytes (hs_local_payload h) = Inr bs
            \<and> verify_canonical_signature pr (hc_local_device_public_key (hs_config h)) bs (ske_signature m) = Inr ()))
    \<and> (\<forall>m. hs_peer_message h = Some m \<longrightarrow>
         (\<exists>pk now. peer_message_checked pr (h\<lparr>hs_peer_message := None\<rparr>) m pk now = Inr ()))
    \<and> validate_config pr (hs_config h) = Inr ()
    \<and> (\<exists>ch. session_context_hash pr (session_context_of (hc_context (hs_config h))) = Inr ch
         \<and> hs_local_payload h = payload_of (hs_config h) ch (ek_public_key (hs_ephemeral_key h)))"

lemma peer_checked_cong:
  "peer_message_checked pr (h\<lparr>hs_local_message := l, hs_peer_message := None\<rparr>) m pk now =
    peer_message_checked pr (h\<lparr>hs_peer_message := None\<rparr>) m pk now"
  by (simp add: peer_message_checked_def peer_binding_ok_def Let_def)

lemma set_signature_ok:
  assumes "handshake_ok pr h"
  shows "handshake_ok pr (snd (set_local_signature pr h signature))"
proof (cases "fst (set_local_signature pr h signature)")
  case (Inl e)
  then show ?thesis
    using assms by (auto simp: set_local_signature_def Let_def split: if_splits sum.splits)
next
  case (Inr m)
  then obtain bs where m: "m = \<lparr>ske_payload = hs_local_payload h, ske_signature = signature\<rparr>"
    and "length signature = 64" "key_exchange_canonical_bytes (hs_local_payload h) = Inr bs"
      "verify_canonical_signature pr (hc_local_device_public_key (hs_config h)) bs signature = Inr ()"
    and s: "snd (set_local_signature pr h signature) = h\<lparr>hs_local_message := Some m\<rparr>"
    by (auto simp: set_local_signature_def Let_def split: if_splits sum.splits)
  then show ?thesis
    using assms peer_checked_cong [where pr = pr and h = h and l = "Some m"]
    by (auto simp: handshake_ok_def session_handshake.update_convs)
qed

lemma verify_peer_ok:
  assumes "handshake_ok pr h"
  shows "handshake_ok pr (snd (verify_peer_message pr h m pk now))"
proof (cases "peer_message_checked pr h m pk now")
  case (Inr u)
  then have "hs_peer_message h = None"
    by (auto simp: peer_message_checked_def Let_def split: if_splits)
  then have "h\<lparr>hs_peer_message := None\<rparr> = h" by simp
  then show ?thesis
    using assms Inr by (auto simp: verify_peer_message_def handshake_ok_def)
qed (use assms in \<open>simp add: verify_peer_message_def\<close>)

interpretation handshake: guarded_machine "handshake_step pr" "handshake_ok pr" for pr
proof
  fix h x
  assume "handshake_ok pr h"
  then show "handshake_ok pr (snd (handshake_step pr h x))"
    using set_signature_ok verify_peer_ok by (cases x) simp_all
qed

lemma with_ephemeral_key_ok: "with_ephemeral_key pr config ek = Inr h \<Longrightarrow> handshake_ok pr h"
  by (auto simp: with_ephemeral_key_def result_simps handshake_ok_def)

text \<open>An error leaves the handshake as it was.\<close>

lemma handshake_error_unchanged:
  "fst (handshake_step pr h x) = Inl e \<Longrightarrow> snd (handshake_step pr h x) = h"
  by (cases x) (auto simp: set_local_signature_def verify_peer_message_def Let_def split: if_splits sum.splits)

lemma handshake_step_config:
  "hs_config (snd (handshake_step pr h x)) = hs_config h
    \<and> hs_local_payload (snd (handshake_step pr h x)) = hs_local_payload h
    \<and> hs_ephemeral_key (snd (handshake_step pr h x)) = hs_ephemeral_key h"
  by (cases x) (auto simp: set_local_signature_def verify_peer_message_def Let_def split: sum.splits)

subsection \<open>What a finished handshake guarantees\<close>

lemma peer_message_checked_ok:
  "peer_message_checked pr h m pk now = Inr u \<longleftrightarrow>
    hs_peer_message h = None
    \<and> now < kdf_session_expires_at_epoch_millis (hc_context (hs_config h))
    \<and> ke_timestamp_epoch_millis (ske_payload m) < kdf_session_expires_at_epoch_millis (hc_context (hs_config h))
    \<and> peer_binding_ok h (ske_payload m)
    \<and> abs_diff (ke_timestamp_epoch_millis (ske_payload m)) now \<le> KEY_EXCHANGE_WINDOW_MILLIS
    \<and> length (ske_signature m) = 64
    \<and> (\<exists>bs. key_exchange_canonical_bytes (ske_payload m) = Inr bs
         \<and> verify_canonical_signature pr pk bs (ske_signature m) = Inr ())"
  by (auto simp: peer_message_checked_def Let_def result_simps signature_bytes_def not_le not_less
      split: if_splits)

definition controller_message :: "session_handshake \<Rightarrow> signed_key_exchange \<Rightarrow> signed_key_exchange \<Rightarrow> signed_key_exchange" where
  "controller_message h l p = (case hc_local_role (hs_config h) of Controller \<Rightarrow> l | Controlled \<Rightarrow> p)"

lemma handshake_finish_ok:
  "handshake_finish pr h t = Inr r \<longleftrightarrow>
    t < kdf_session_expires_at_epoch_millis (hc_context (hs_config h))
    \<and> (\<exists>l p th z keys s.
        hs_local_message h = Some l \<and> hs_peer_message h = Some p
        \<and> key_exchange_transcript_hash pr (controller_message h l p) (controller_message h p l) = Inr th
        \<and> diffie_hellman pr (hs_ephemeral_key h) (ke_ephemeral_public_key (ske_payload p)) = Inr z
        \<and> derive_session_keys pr z ((hc_context (hs_config h))\<lparr>kdf_key_exchange_transcript_hash := th\<rparr>) = Inr keys
        \<and> session_new (kdf_session_id (hc_context (hs_config h))) (hc_local_role (hs_config h))
            (hc_permissions (hs_config h)) (kdf_permissions_digest (hc_context (hs_config h)))
            (kdf_selected_transport_path (hc_context (hs_config h)))
            (kdf_selected_candidate_pair_id (hc_context (hs_config h)))
            (kdf_relay_node_id (hc_context (hs_config h))) th keys = Inr s
        \<and> create_local_key_confirm pr s (hc_local_device_id (hs_config h)) t =
            (Inr (hr_local_key_confirm r), hr_secure_session r)
        \<and> hr_key_exchange_transcript_hash r = th)"
proof -
  have pair: "(case hc_local_role (hs_config h) of Controller \<Rightarrow> (l, p) | Controlled \<Rightarrow> (p, l)) =
      (controller_message h l p, controller_message h p l)" for l p
    by (simp add: controller_message_def split: session_role.split)
  show ?thesis
    unfolding handshake_finish_def Let_def pair
    by (auto simp: result_simps not_le case_prod_beta intro: session_handshake_ready.equality)
      (metis prod.collapse)+
qed

text \<open>A finished side holds a peer message that is bound to its own session.\<close>

lemma finished_peer_bound:
  assumes "handshake_ok pr h" "handshake_finish pr h t = Inr r"
  shows "\<exists>l p pk now. hs_local_message h = Some l \<and> ske_payload l = hs_local_payload h
    \<and> hs_peer_message h = Some p \<and> peer_message_checked pr (h\<lparr>hs_peer_message := None\<rparr>) p pk now = Inr ()"
  using assms unfolding handshake_finish_ok handshake_ok_def by blast

lemma finished_side:
  assumes ok: "handshake_ok pr h" and fin: "handshake_finish pr h t = Inr r"
  obtains l p th z where "hs_local_message h = Some l" "hs_peer_message h = Some p"
    "ske_payload l = hs_local_payload h"
    "key_exchange_transcript_hash pr (controller_message h l p) (controller_message h p l) = Inr th"
    "diffie_hellman pr (hs_ephemeral_key h) (ke_ephemeral_public_key (ske_payload p)) = Inr z"
    "derive_session_keys pr z ((hc_context (hs_config h))\<lparr>kdf_key_exchange_transcript_hash := th\<rparr>) =
       Inr (ss_keys (hr_secure_session r))"
    "ss_key_exchange_transcript_hash (hr_secure_session r) = th" "hr_key_exchange_transcript_hash r = th"
    "ss_session_id (hr_secure_session r) = kdf_session_id (hc_context (hs_config h))"
    "ss_local_role (hr_secure_session r) = hc_local_role (hs_config h)"
    "ss_permissions_digest (hr_secure_session r) = kdf_permissions_digest (hc_context (hs_config h))"
    "ke_role (ske_payload p) = opposite_role (hc_local_role (hs_config h))"
proof -
  obtain l p th z keys s where f: "hs_local_message h = Some l" "hs_peer_message h = Some p"
      "key_exchange_transcript_hash pr (controller_message h l p) (controller_message h p l) = Inr th"
      "diffie_hellman pr (hs_ephemeral_key h) (ke_ephemeral_public_key (ske_payload p)) = Inr z"
      "derive_session_keys pr z ((hc_context (hs_config h))\<lparr>kdf_key_exchange_transcript_hash := th\<rparr>) = Inr keys"
    and s: "session_new (kdf_session_id (hc_context (hs_config h))) (hc_local_role (hs_config h))
            (hc_permissions (hs_config h)) (kdf_permissions_digest (hc_context (hs_config h)))
            (kdf_selected_transport_path (hc_context (hs_config h)))
            (kdf_selected_candidate_pair_id (hc_context (hs_config h)))
            (kdf_relay_node_id (hc_context (hs_config h))) th keys = Inr s"
    and c: "create_local_key_confirm pr s (hc_local_device_id (hs_config h)) t =
            (Inr (hr_local_key_confirm r), hr_secure_session r)"
    and th: "hr_key_exchange_transcript_hash r = th"
    using fin unfolding handshake_finish_ok by blast
  have "hr_secure_session r = s\<lparr>ss_local_confirm_sent := True\<rparr>"
    using c by (simp add: create_local_key_confirm_ok)
  moreover obtain pk now where "peer_message_checked pr (h\<lparr>hs_peer_message := None\<rparr>) p pk now = Inr ()"
    using ok f(2) unfolding handshake_ok_def by blast
  then have "ke_role (ske_payload p) = opposite_role (hc_local_role (hs_config h))"
    by (simp add: peer_message_checked_ok peer_binding_ok_def Let_def)
  moreover have "ske_payload l = hs_local_payload h" using ok f(1) by (simp add: handshake_ok_def)
  ultimately show thesis
    using that [OF f(1,2) _ f(3,4)] f(5) s th by (auto simp: session_new_def split: if_splits)
qed

text \<open>
  The X25519 law: both orders give the same secret. Two finished sides of one session that
  took each other's message hold the same keys and the same transcript.
\<close>

definition dh_commutes :: "primitives \<Rightarrow> bool" where
  "dh_commutes pr \<longleftrightarrow>
    (\<forall>a b. pr_x_shared pr a (pr_x_public pr b) = pr_x_shared pr b (pr_x_public pr a))"

lemma finished_sides_agree:
  assumes dh: "dh_commutes pr"
    and a: "handshake_ok pr a" "hs_ephemeral_key a = from_secret_bytes pr xa" "handshake_finish pr a ta = Inr ra"
    and b: "handshake_ok pr b" "hs_ephemeral_key b = from_secret_bytes pr xb" "handshake_finish pr b tb = Inr rb"
    and cross: "hs_peer_message a = hs_local_message b" "hs_peer_message b = hs_local_message a"
    and ctx: "hc_context (hs_config a) = hc_context (hs_config b)"
  shows "session_peers (hr_secure_session ra) (hr_secure_session rb)
    \<and> hr_key_exchange_transcript_hash ra = hr_key_exchange_transcript_hash rb"
proof -
  from a obtain la pa tha za where A: "hs_local_message a = Some la" "hs_peer_message a = Some pa"
      "ske_payload la = hs_local_payload a"
      "key_exchange_transcript_hash pr (controller_message a la pa) (controller_message a pa la) = Inr tha"
      "diffie_hellman pr (hs_ephemeral_key a) (ke_ephemeral_public_key (ske_payload pa)) = Inr za"
      "derive_session_keys pr za ((hc_context (hs_config a))\<lparr>kdf_key_exchange_transcript_hash := tha\<rparr>) =
         Inr (ss_keys (hr_secure_session ra))"
    and A': "ss_key_exchange_transcript_hash (hr_secure_session ra) = tha" "hr_key_exchange_transcript_hash ra = tha"
      "ss_session_id (hr_secure_session ra) = kdf_session_id (hc_context (hs_config a))"
      "ss_local_role (hr_secure_session ra) = hc_local_role (hs_config a)"
      "ss_permissions_digest (hr_secure_session ra) = kdf_permissions_digest (hc_context (hs_config a))"
      "ke_role (ske_payload pa) = opposite_role (hc_local_role (hs_config a))"
    by (elim finished_side)
  from b obtain lb pb thb zb where B: "hs_local_message b = Some lb" "hs_peer_message b = Some pb"
      "ske_payload lb = hs_local_payload b"
      "key_exchange_transcript_hash pr (controller_message b lb pb) (controller_message b pb lb) = Inr thb"
      "diffie_hellman pr (hs_ephemeral_key b) (ke_ephemeral_public_key (ske_payload pb)) = Inr zb"
      "derive_session_keys pr zb ((hc_context (hs_config b))\<lparr>kdf_key_exchange_transcript_hash := thb\<rparr>) =
         Inr (ss_keys (hr_secure_session rb))"
    and B': "ss_key_exchange_transcript_hash (hr_secure_session rb) = thb" "hr_key_exchange_transcript_hash rb = thb"
      "ss_session_id (hr_secure_session rb) = kdf_session_id (hc_context (hs_config b))"
      "ss_local_role (hr_secure_session rb) = hc_local_role (hs_config b)"
      "ss_permissions_digest (hr_secure_session rb) = kdf_permissions_digest (hc_context (hs_config b))"
    by (elim finished_side)
  have eq: "pa = lb" "pb = la" using cross A(1,2) B(1,2) by simp_all
  have payload: "ke_ephemeral_public_key (hs_local_payload a) = pr_x_public pr xa"
      "ke_ephemeral_public_key (hs_local_payload b) = pr_x_public pr xb"
      "ke_role (hs_local_payload b) = hc_local_role (hs_config b)"
    using a(1,2) b(1,2) by (auto simp: handshake_ok_def payload_of_def from_secret_bytes_def)
  then have role: "hc_local_role (hs_config b) = opposite_role (hc_local_role (hs_config a))"
    using A'(6) eq B(3) by simp
  have th: "tha = thb"
    using A(4) B(4) role eq
    by (cases "hc_local_role (hs_config a)") (simp_all add: controller_message_def)
  have "za = zb"
    using A(3,5) B(3,5) dh eq payload a(2) b(2)
    by (auto simp: diffie_hellman_def Let_def from_secret_bytes_def dh_commutes_def split: if_splits)
  then have "ss_keys (hr_secure_session ra) = ss_keys (hr_secure_session rb)"
    using A(6) B(6) th ctx by simp
  then show ?thesis using A' B' th ctx role by (simp add: session_peers_def)
qed

text \<open>The confirmation that one finished side sends makes the other side ready.\<close>

lemma finished_fresh:
  assumes "handshake_finish pr h t = Inr r"
  shows "ss_local_confirm_sent (hr_secure_session r)" "\<not> ss_peer_confirmed (hr_secure_session r)"
    "\<not> ss_invalidated (hr_secure_session r)" "kg_accepted (ss_key_confirm_replay_guard (hr_secure_session r)) = {}"
  using assms
  by (auto simp: handshake_finish_ok create_local_key_confirm_ok session_new_def
      key_confirm_replay_guard_default_def split: if_splits)

lemma finished_created:
  assumes "handshake_finish pr h t = Inr r"
  shows "\<exists>s. create_local_key_confirm pr s (hc_local_device_id (hs_config h)) t =
    (Inr (hr_local_key_confirm r), hr_secure_session r)"
  using assms unfolding handshake_finish_ok by blast

lemma finished_confirm_ready:
  assumes peers: "session_peers (hr_secure_session ra) (hr_secure_session rb)"
    and a: "handshake_finish pr a ta = Inr ra" and b: "handshake_finish pr b tb = Inr rb"
    and time: "abs_diff now ta \<le> KEY_CONFIRM_WINDOW_MILLIS"
  shows "\<exists>s. verify_peer_key_confirm pr (hr_secure_session rb) (hr_local_key_confirm ra)
      (hc_local_device_id (hs_config a)) now = (Inr (), s) \<and> session_state s = Ready"
proof -
  obtain s where s: "create_local_key_confirm pr s (hc_local_device_id (hs_config a)) ta =
      (Inr (hr_local_key_confirm ra), hr_secure_session ra)"
    using finished_created [OF a] by blast
  then have "session_peers s (hr_secure_session rb)"
    using peers by (auto simp: create_local_key_confirm_ok session_peers_def)
  from confirm_accepted [OF this s time finished_fresh(3,2,4) [OF b]] finished_fresh(1) [OF b]
  show ?thesis by (auto simp: session_state_def)
qed

subsection \<open>The exchange of two honest sides completes\<close>

text \<open>
  Both sides with their signing keys: each builds its handshake, signs, checks the other's
  message and finishes.
\<close>

definition handshake_run ::
    "primitives \<Rightarrow> session_handshake_config \<Rightarrow> session_handshake_config \<Rightarrow> bytes \<Rightarrow> bytes \<Rightarrow> bytes \<Rightarrow> bytes
      \<Rightarrow> u64 \<Rightarrow> u64 \<Rightarrow> session_handshake_error + session_handshake_ready \<times> session_handshake_ready" where
  "handshake_run pr ca cb xa xb ska skb now t =
    and_then (with_ephemeral_key pr ca (from_secret_bytes pr xa)) (\<lambda>a.
    and_then (with_ephemeral_key pr cb (from_secret_bytes pr xb)) (\<lambda>b.
    and_then (local_signature_digest pr a) (\<lambda>da.
    and_then (local_signature_digest pr b) (\<lambda>db.
    let (ma, a) = set_local_signature pr a (sign_digest pr (from_private_key pr ska) da);
        (mb, b) = set_local_signature pr b (sign_digest pr (from_private_key pr skb) db) in
    and_then ma (\<lambda>ma.
    and_then mb (\<lambda>mb.
    let (va, a) = verify_peer_message pr a mb (pr_public pr skb) now;
        (vb, b) = verify_peer_message pr b ma (pr_public pr ska) now in
    and_then va (\<lambda>_.
    and_then vb (\<lambda>_.
    and_then (handshake_finish pr a t) (\<lambda>ra.
    and_then (handshake_finish pr b t) (\<lambda>rb.
    Inr (ra, rb)))))))))))"

text \<open>What is used of the primitives: they do not fail on the lengths used here.\<close>

definition primitives_total :: "primitives \<Rightarrow> bool" where
  "primitives_total pr \<longleftrightarrow>
    (\<forall>m. length (pr_sha256 pr m) = 32)
    \<and> (\<forall>x. length (pr_x_public pr x) = 32)
    \<and> (\<forall>k m. \<exists>t. pr_hmac pr k m = Some t)
    \<and> (\<forall>s z i n. n \<le> 255 * 32 \<longrightarrow> (\<exists>k. pr_hkdf pr s z i n = Some k))"

definition context_fits :: "session_kdf_context \<Rightarrow> bool" where
  "context_fits c \<longleftrightarrow>
    length (kdf_account_id c) < 2 ^ 32 \<and> length (kdf_controller_device_id c) < 2 ^ 32
    \<and> length (kdf_controlled_device_id c) < 2 ^ 32 \<and> length (kdf_permissions_digest c) = 32
    \<and> length (case kdf_relay_node_id c of None \<Rightarrow> [] | Some n \<Rightarrow> n) < 2 ^ 32"

lemma length_role_path [simp]:
  "length (role_as_str r) < 4294967296" "length (path_as_str p) < 4294967296"
  by (cases r; simp) (cases p; simp)

lemma context_hash_total:
  "primitives_total pr \<Longrightarrow> context_fits c \<Longrightarrow>
    \<exists>ch. session_context_hash pr (session_context_of c) = Inr ch \<and> length ch = 32"
  by (simp add: session_context_hash_def session_context_canonical session_context_of_def
      canonical_encode_total session_context_fields_def field_fits_def context_fits_def primitives_total_def)

lemma payload_encodes:
  assumes "context_fits (hc_context c)" "length ch = 32" "length pk = 32" "length (hc_key_exchange_nonce c) = 32"
    and "device_for_role (hc_context c) (hc_local_role c) = hc_local_device_id c"
  shows "key_exchange_canonical_bytes (payload_of c ch pk) = Inr (fields_bytes (key_exchange_fields (payload_of c ch pk)))"
proof -
  have "length (hc_local_device_id c) < 2 ^ 32"
    using assms(1,5) by (cases "hc_local_role c") (auto simp: context_fits_def)
  then show ?thesis
    using assms
    by (simp add: key_exchange_canonical canonical_encode_total key_exchange_fields_def payload_of_def
        field_fits_def context_fits_def opt_bytes_def)
qed

lemma derive_total:
  assumes "primitives_total pr" "context_fits c" "length th = 32"
    and "is_relay (kdf_selected_transport_path c) \<longleftrightarrow> kdf_relay_node_id c \<noteq> None"
  shows "\<exists>keys. derive_session_keys pr z (c\<lparr>kdf_key_exchange_transcript_hash := th\<rparr>) = Inr keys"
proof -
  let ?c = "c\<lparr>kdf_key_exchange_transcript_hash := th\<rparr>"
  have ex: "\<exists>k. expand pr salt z n base label = Inr k" if "n \<le> 255 * 32" for salt n base label
    using assms(1) that by (metis expand_def ok_or.simps(2) primitives_total_def)
  have salt: "salt_canonical_bytes ?c = Inr (fields_bytes (salt_fields ?c))"
    using assms(2) by (simp add: salt_canonical canonical_encode_total salt_fields_def field_fits_def context_fits_def)
  have info: "info_base ?c = Inr (fields_bytes (info_fields ?c))"
    using assms(2,3)
    by (simp add: info_canonical canonical_encode_total info_fields_def field_fits_def context_fits_def opt_bytes_def)
  define keys where "keys label n =
    projr (expand pr (pr_sha256 pr (fields_bytes (salt_fields ?c))) z n (fields_bytes (info_fields ?c)) label)" for label n
  have k: "expand pr (pr_sha256 pr (fields_bytes (salt_fields ?c))) z n (fields_bytes (info_fields ?c)) label
      = Inr (keys label n)" if "n \<le> 255 * 32" for label n
    unfolding keys_def using ex [OF that, of "pr_sha256 pr (fields_bytes (salt_fields ?c))"
        "fields_bytes (info_fields ?c)" label] by (metis sum.sel(2))
  show ?thesis
    using assms(4) by (simp add: derive_session_keys_def salt info k)
qed

lemma confirm_total:
  assumes "primitives_total pr" "length d < 2 ^ 32" "length (ss_key_exchange_transcript_hash s) = 32"
    and "\<not> ss_invalidated s" "\<not> ss_local_confirm_sent s"
  shows "\<exists>c. create_local_key_confirm pr s d t = (Inr c, s\<lparr>ss_local_confirm_sent := True\<rparr>)"
proof -
  let ?c = "\<lparr>kc_session_id = ss_session_id s, kc_device_id = d, kc_role = ss_local_role s,
      kc_key_exchange_transcript_hash = ss_key_exchange_transcript_hash s,
      kc_confirm_mac = replicate 32 0, kc_timestamp_epoch_millis = t\<rparr>"
  have bytes: "key_confirm_canonical_mac_input ?c = Inr (fields_bytes (key_confirm_fields ?c))"
    using assms(2,3)
    by (simp add: key_confirm_canonical canonical_encode_total key_confirm_fields_def field_fits_def)
  obtain mac where "pr_hmac pr (confirmation_key (ss_keys s) (from_sender_role (ss_local_role s)))
      (fields_bytes (key_confirm_fields ?c)) = Some mac"
    using assms(1) unfolding primitives_total_def by blast
  then have "create_key_confirm pr (ss_session_id s) d (ss_local_role s) (ss_key_exchange_transcript_hash s) t
      (ss_keys s) = Inr (?c\<lparr>kc_confirm_mac := mac\<rparr>)"
    unfolding create_key_confirm_def Let_def bytes by simp
  then show ?thesis using assms(4,5) by (simp only: create_local_key_confirm_ok) simp
qed

lemma transcript_total:
  assumes prims: "primitives_total pr" and ok: "handshake_ok pr h"
    and l: "hs_local_message h = Some l" and p: "hs_peer_message h = Some p"
  shows "\<exists>th. key_exchange_transcript_hash pr (controller_message h l p) (controller_message h p l) = Inr th
    \<and> length th = 32"
proof -
  let ?role = "hc_local_role (hs_config h)"
  obtain pk now where "peer_message_checked pr (h\<lparr>hs_peer_message := None\<rparr>) p pk now = Inr ()"
    using ok p unfolding handshake_ok_def by blast
  then obtain pbs where peer: "ke_role (ske_payload p) = opposite_role ?role" "length (ske_signature p) = 64"
      "key_exchange_canonical_bytes (ske_payload p) = Inr pbs"
    by (auto simp: peer_message_checked_ok peer_binding_ok_def Let_def)
  obtain lbs where own: "ke_role (ske_payload l) = ?role" "length (ske_signature l) = 64"
      "key_exchange_canonical_bytes (ske_payload l) = Inr lbs"
    using ok l by (auto simp: handshake_ok_def payload_of_def)
  have "\<exists>bs. key_exchange_transcript (controller_message h l p) (controller_message h p l) = Inr bs"
    using peer own
    by (cases ?role) (simp_all add: controller_message_def key_exchange_transcript_def signature_bytes_def)
  then show ?thesis using prims by (auto simp: key_exchange_transcript_hash_def primitives_total_def)
qed

lemma finish_total:
  assumes prims: "primitives_total pr" and ok: "handshake_ok pr h" and fits: "context_fits (hc_context (hs_config h))"
    and t: "t < kdf_session_expires_at_epoch_millis (hc_context (hs_config h))"
    and l: "hs_local_message h = Some l" and p: "hs_peer_message h = Some p"
    and dh: "pr_x_shared pr (ek_secret (hs_ephemeral_key h)) (ke_ephemeral_public_key (ske_payload p)) \<noteq> replicate 32 0"
  shows "\<exists>r. handshake_finish pr h t = Inr r"
proof -
  let ?c = "hc_context (hs_config h)" and ?role = "hc_local_role (hs_config h)"
  obtain th where th: "key_exchange_transcript_hash pr (controller_message h l p) (controller_message h p l) = Inr th"
    and len: "length th = 32"
    using transcript_total [OF prims ok l p] by blast
  have "validate_config pr (hs_config h) = Inr ()" using ok by (simp add: handshake_ok_def)
  then have path: "is_relay (kdf_selected_transport_path ?c) \<longleftrightarrow> kdf_relay_node_id ?c \<noteq> None"
    and dev: "device_for_role ?c ?role = hc_local_device_id (hs_config h)"
    by (auto simp: validate_config_def Let_def split: if_splits)
  obtain z where z: "diffie_hellman pr (hs_ephemeral_key h) (ke_ephemeral_public_key (ske_payload p)) = Inr z"
    using dh by (simp add: diffie_hellman_def Let_def)
  obtain keys where keys: "derive_session_keys pr z (?c\<lparr>kdf_key_exchange_transcript_hash := th\<rparr>) = Inr keys"
    using derive_total [OF prims fits len path] by blast
  obtain s where s: "session_new (kdf_session_id ?c) ?role (hc_permissions (hs_config h)) (kdf_permissions_digest ?c)
      (kdf_selected_transport_path ?c) (kdf_selected_candidate_pair_id ?c) (kdf_relay_node_id ?c) th keys = Inr s"
      "\<not> ss_invalidated s" "\<not> ss_local_confirm_sent s" "ss_key_exchange_transcript_hash s = th"
    using path by (simp add: session_new_def)
  have "length (hc_local_device_id (hs_config h)) < 2 ^ 32"
    using fits dev by (cases ?role) (auto simp: context_fits_def)
  then obtain c where "create_local_key_confirm pr s (hc_local_device_id (hs_config h)) t =
      (Inr c, s\<lparr>ss_local_confirm_sent := True\<rparr>)"
    using confirm_total [OF prims _ _ s(2,3)] len s(4) by blast
  then have "handshake_finish pr h t =
      Inr \<lparr>hr_secure_session = s\<lparr>ss_local_confirm_sent := True\<rparr>, hr_local_key_confirm = c,
           hr_key_exchange_transcript_hash = th\<rparr>"
    unfolding handshake_finish_ok using t l p th z keys s(1)
    by (intro conjI exI [of _ l] exI [of _ p] exI [of _ th] exI [of _ z] exI [of _ keys] exI [of _ s]) simp_all
  then show ?thesis by blast
qed

text \<open>One honest side: a valid configuration, its signing key and its ephemeral secret.\<close>

definition honest_side :: "primitives \<Rightarrow> session_handshake_config \<Rightarrow> bytes \<Rightarrow> bytes \<Rightarrow> bool" where
  "honest_side pr c sk x \<longleftrightarrow>
    validate_config pr c = Inr () \<and> context_fits (hc_context c)
    \<and> hc_local_device_public_key c = pr_public pr sk
    \<and> length (hc_key_exchange_nonce c) = 32 \<and> pr_x_public pr x \<noteq> replicate 32 0"

definition own_message :: "primitives \<Rightarrow> session_handshake_config \<Rightarrow> bytes \<Rightarrow> bytes \<Rightarrow> bytes \<Rightarrow> signed_key_exchange" where
  "own_message pr c sk x ch =
    \<lparr>ske_payload = payload_of c ch (pr_x_public pr x),
     ske_signature = pr_sign pr sk (pr_sha256 pr (fields_bytes (key_exchange_fields (payload_of c ch (pr_x_public pr x)))))\<rparr>"

definition side_state ::
    "primitives \<Rightarrow> session_handshake_config \<Rightarrow> bytes \<Rightarrow> bytes \<Rightarrow> signed_key_exchange option
      \<Rightarrow> signed_key_exchange option \<Rightarrow> session_handshake" where
  "side_state pr c x ch l p =
    \<lparr>hs_config = c, hs_ephemeral_key = from_secret_bytes pr x,
     hs_local_payload = payload_of c ch (pr_x_public pr x), hs_local_message = l, hs_peer_message = p\<rparr>"

lemma validate_config_facts:
  assumes "validate_config pr c = Inr ()"
  shows "device_for_role (hc_context c) (hc_local_role c) = hc_local_device_id c"
    "is_relay (kdf_selected_transport_path (hc_context c)) \<longleftrightarrow> kdf_relay_node_id (hc_context c) \<noteq> None"
    "hc_timestamp_epoch_millis c < kdf_session_expires_at_epoch_millis (hc_context c)"
    "hc_key_exchange_nonce c \<noteq> replicate 32 0"
  using assms by (auto simp: validate_config_def Let_def not_le split: if_splits)

lemma honest_payload:
  assumes "primitives_total pr" "honest_side pr c sk x" "length ch = 32"
  shows "key_exchange_canonical_bytes (payload_of c ch (pr_x_public pr x)) =
    Inr (fields_bytes (key_exchange_fields (payload_of c ch (pr_x_public pr x))))"
  using assms validate_config_facts [of pr c]
  by (intro payload_encodes) (simp_all add: honest_side_def primitives_total_def)

lemma honest_signs:
  assumes prims: "primitives_total pr" "signature_scheme pr" and side: "honest_side pr c sk x"
    and ch: "session_context_hash pr (session_context_of (hc_context c)) = Inr ch" "length ch = 32"
  shows "with_ephemeral_key pr c (from_secret_bytes pr x) = Inr (side_state pr c x ch None None)"
    "local_signature_digest pr (side_state pr c x ch None None) =
       Inr (pr_sha256 pr (fields_bytes (key_exchange_fields (payload_of c ch (pr_x_public pr x)))))"
    "set_local_signature pr (side_state pr c x ch None None) (ske_signature (own_message pr c sk x ch)) =
       (Inr (own_message pr c sk x ch), side_state pr c x ch (Some (own_message pr c sk x ch)) None)"
proof -
  note payload = honest_payload [OF prims(1) side ch(2)]
  show "with_ephemeral_key pr c (from_secret_bytes pr x) = Inr (side_state pr c x ch None None)"
    using side ch(1)
    by (simp add: with_ephemeral_key_def honest_side_def side_state_def from_secret_bytes_def)
  show "local_signature_digest pr (side_state pr c x ch None None) =
       Inr (pr_sha256 pr (fields_bytes (key_exchange_fields (payload_of c ch (pr_x_public pr x)))))"
    by (simp add: local_signature_digest_def side_state_def payload)
  have "verify_canonical_signature pr (pr_public pr sk)
      (fields_bytes (key_exchange_fields (payload_of c ch (pr_x_public pr x))))
      (ske_signature (own_message pr c sk x ch)) = Inr ()" "length (ske_signature (own_message pr c sk x ch)) = 64"
    using prims(2) by (simp_all add: verify_canonical_signature_ok own_message_def signature_scheme_def)
  then show "set_local_signature pr (side_state pr c x ch None None) (ske_signature (own_message pr c sk x ch)) =
       (Inr (own_message pr c sk x ch), side_state pr c x ch (Some (own_message pr c sk x ch)) None)"
    using side
    by (simp add: set_local_signature_def side_state_def payload honest_side_def Let_def)
      (simp add: own_message_def)
qed

lemma honest_accepts:
  assumes prims: "primitives_total pr" "signature_scheme pr" and peer: "honest_side pr c' sk' x'" and ch: "length ch = 32"
    and ctx: "hc_context c = hc_context c'" and role: "hc_local_role c' = opposite_role (hc_local_role c)"
    and now: "now < kdf_session_expires_at_epoch_millis (hc_context c)"
    and window: "abs_diff (hc_timestamp_epoch_millis c') now \<le> KEY_EXCHANGE_WINDOW_MILLIS"
  shows "verify_peer_message pr (side_state pr c x ch l None) (own_message pr c' sk' x' ch) (pr_public pr sk') now =
    (Inr (), side_state pr c x ch l (Some (own_message pr c' sk' x' ch)))"
proof -
  note valid = validate_config_facts [of pr c']
  have "peer_binding_ok (side_state pr c x ch l None) (payload_of c' ch (pr_x_public pr x'))"
    using peer valid ctx role
    by (simp add: peer_binding_ok_def side_state_def payload_of_def honest_side_def validate_path_binding_def Let_def)
  moreover have "length (pr_sign pr sk' m) = 64" "pr_verify pr (pr_public pr sk') m (pr_sign pr sk' m) = Some True" for m
    using prims(2) by (simp_all add: signature_scheme_def)
  ultimately have "peer_message_checked pr (side_state pr c x ch l None) (own_message pr c' sk' x' ch) (pr_public pr sk') now = Inr ()"
    using peer valid ctx now window honest_payload [OF prims(1) peer ch]
    by (simp add: peer_message_checked_ok own_message_def verify_canonical_signature_ok honest_side_def)
      (simp add: side_state_def payload_of_def)
  then show ?thesis by (simp add: verify_peer_message_def side_state_def)
qed

text \<open>The run of two honest sides of one session.\<close>

lemma honest_run_ok:
  assumes prims: "primitives_total pr" "signature_scheme pr" "dh_commutes pr"
    and sides: "honest_side pr ca ska xa" "honest_side pr cb skb xb"
    and ctx: "hc_context ca = hc_context cb" and roles: "hc_local_role cb = opposite_role (hc_local_role ca)"
    and times: "now < kdf_session_expires_at_epoch_millis (hc_context ca)"
      "t < kdf_session_expires_at_epoch_millis (hc_context ca)"
      "abs_diff (hc_timestamp_epoch_millis ca) now \<le> KEY_EXCHANGE_WINDOW_MILLIS"
      "abs_diff (hc_timestamp_epoch_millis cb) now \<le> KEY_EXCHANGE_WINDOW_MILLIS"
    and dh: "pr_x_shared pr xa (pr_x_public pr xb) \<noteq> replicate 32 0"
  shows "\<exists>a b ra rb. handshake_run pr ca cb xa xb ska skb now t = Inr (ra, rb)
    \<and> handshake_ok pr a \<and> handshake_finish pr a t = Inr ra \<and> hs_config a = ca
    \<and> handshake_ok pr b \<and> handshake_finish pr b t = Inr rb \<and> hs_config b = cb
    \<and> session_peers (hr_secure_session ra) (hr_secure_session rb)"
proof -
  obtain ch where ch: "session_context_hash pr (session_context_of (hc_context ca)) = Inr ch" "length ch = 32"
    using context_hash_total [OF prims(1)] sides(1) by (auto simp: honest_side_def)
  note ch' = ch [unfolded ctx]
  let ?ma = "own_message pr ca ska xa ch" and ?mb = "own_message pr cb skb xb ch"
  let ?a = "side_state pr ca xa ch (Some ?ma) (Some ?mb)" and ?b = "side_state pr cb xb ch (Some ?mb) (Some ?ma)"
  note A = honest_signs [OF prims(1,2) sides(1) ch] and B = honest_signs [OF prims(1,2) sides(2) ch']
  have va: "verify_peer_message pr (side_state pr ca xa ch (Some ?ma) None) ?mb (pr_public pr skb) now = (Inr (), ?a)"
    using honest_accepts [OF prims(1,2) sides(2) ch(2) ctx roles] times by simp
  have vb: "verify_peer_message pr (side_state pr cb xb ch (Some ?mb) None) ?ma (pr_public pr ska) now = (Inr (), ?b)"
    using honest_accepts [OF prims(1,2) sides(1) ch(2) ctx [symmetric]] roles times ctx by simp
  have oka: "handshake_ok pr ?a"
    using verify_peer_ok [OF set_signature_ok [OF with_ephemeral_key_ok [OF A(1)]]] A(3) va by (metis snd_conv)
  have okb: "handshake_ok pr ?b"
    using verify_peer_ok [OF set_signature_ok [OF with_ephemeral_key_ok [OF B(1)]]] B(3) vb by (metis snd_conv)
  have dh': "pr_x_shared pr xb (pr_x_public pr xa) \<noteq> replicate 32 0"
    using dh prims(3) by (simp add: dh_commutes_def)
  obtain ra where ra: "handshake_finish pr ?a t = Inr ra"
    using finish_total [OF prims(1) oka, of t ?ma ?mb] sides(1) times(2) dh
    by (auto simp: side_state_def own_message_def payload_of_def from_secret_bytes_def honest_side_def)
  obtain rb where rb: "handshake_finish pr ?b t = Inr rb"
    using finish_total [OF prims(1) okb, of t ?mb ?ma] sides(2) times(2) dh' ctx
    by (auto simp: side_state_def own_message_def payload_of_def from_secret_bytes_def honest_side_def)
  have "session_peers (hr_secure_session ra) (hr_secure_session rb)"
    using finished_sides_agree [OF prims(3) oka _ ra okb _ rb, of xa xb] ctx by (simp add: side_state_def)
  moreover have "handshake_run pr ca cb xa xb ska skb now t = Inr (ra, rb)"
    using A B va vb ra rb
    by (simp add: handshake_run_def sign_digest_def from_private_key_def own_message_def Let_def)
  ultimately show ?thesis using oka okb ra rb by (intro exI [of _ ?a] exI [of _ ?b] exI [of _ ra] exI [of _ rb]) (simp add: side_state_def)
qed

end
