(* ===== verification/Rc_Expiry.thy ===== *)
theory Rc_Expiry
  imports Rc_Prelude "HOL-Library.Finite_Map"
begin

section \<open>Caches whose entries expire\<close>

text \<open>
  Several guards of the program keep a map from keys to expiry times, drop the entries that
  are no longer live before each use, and refuse a key that is still present. The locale
  states when such a cache accepts no key twice: the clock does not run backwards, every
  entry of a key carries one expiry \<open>e key\<close>, and a key is only presented while it is live.
\<close>

definition retain_live :: "(u64 \<Rightarrow> bool) \<Rightarrow> ('k, u64) fmap \<Rightarrow> ('k, u64) fmap" where
  "retain_live keep m = fmfilter (\<lambda>k. case fmlookup m k of None \<Rightarrow> False | Some v \<Rightarrow> keep v) m"

lemma lookup_retain_live:
  "fmlookup (retain_live keep m) k = (case fmlookup m k of None \<Rightarrow> None | Some v \<Rightarrow> if keep v then Some v else None)"
  by (auto simp: retain_live_def split: option.split)

lemma fcard_retain_live: "fcard (fmdom (retain_live keep m)) \<le> fcard (fmdom m)"
  by (auto simp: retain_live_def intro: fcard_mono)

lemma fcard_fmupd: "fcard (fmdom (fmupd k v m)) \<le> Suc (fcard (fmdom m))"
  by (simp add: fcard_finsert_if)

locale expiring_cache =
  fixes live :: "u64 \<Rightarrow> u64 \<Rightarrow> bool"
  assumes live_earlier: "a \<le> b \<Longrightarrow> live b v \<Longrightarrow> live a v"
begin

definition agrees :: "('k \<Rightarrow> u64) \<Rightarrow> ('k \<Rightarrow> u64 option) \<Rightarrow> bool" where
  "agrees e m \<longleftrightarrow> (\<forall>k v. m k = Some v \<longrightarrow> v = e k)"

definition used_up :: "('k \<Rightarrow> u64) \<Rightarrow> u64 \<Rightarrow> ('k \<Rightarrow> u64 option) \<Rightarrow> 'k set" where
  "used_up e now m = {k. \<not> live now (e k) \<or> m k \<noteq> None}"

lemma used_up_later: "now \<le> now' \<Longrightarrow> used_up e now m \<subseteq> used_up e now' m"
  using live_earlier by (auto simp: used_up_def)

text \<open>One use of the cache at time \<open>now\<close>: drop what is not live, then store the key.\<close>

lemma store_agrees:
  assumes "agrees e m" "\<And>k. m' k = (if k = k0 then Some (e k0) else
      case m k of None \<Rightarrow> None | Some v \<Rightarrow> if live now v then Some v else None)"
  shows "agrees e m'"
  using assms by (auto simp: agrees_def split: option.splits if_splits)

lemma store_used_up:
  assumes "agrees e m" "before \<le> now"
    and "\<And>k. m' k = (if k = k0 then Some (e k0) else
      case m k of None \<Rightarrow> None | Some v \<Rightarrow> if live now v then Some v else None)"
  shows "used_up e before m \<subseteq> used_up e now m'" "k0 \<in> used_up e now m'"
proof -
  show "used_up e before m \<subseteq> used_up e now m'"
  proof
    fix k
    assume "k \<in> used_up e before m"
    then consider "\<not> live now (e k)" | "m k = Some (e k)"
      using assms(1,2) live_earlier unfolding used_up_def agrees_def by blast
    then show "k \<in> used_up e now m'"
      by cases (use assms(3) [of k] in \<open>auto simp: used_up_def\<close>)
  qed
  show "k0 \<in> used_up e now m'" using assms(3) [of k0] by (simp add: used_up_def)
qed

lemma drop_agrees:
  assumes "agrees e m" "\<And>k. m' k = (case m k of None \<Rightarrow> None | Some v \<Rightarrow> if live now v then Some v else None)"
  shows "agrees e m'"
  using assms by (auto simp: agrees_def split: option.splits if_splits)

lemma drop_used_up:
  assumes "agrees e m" "before \<le> now"
    and "\<And>k. m' k = (case m k of None \<Rightarrow> None | Some v \<Rightarrow> if live now v then Some v else None)"
  shows "used_up e before m \<subseteq> used_up e now m'"
proof
  fix k
  assume "k \<in> used_up e before m"
  then consider "\<not> live now (e k)" | "m k = Some (e k)"
    using assms(1,2) live_earlier unfolding used_up_def agrees_def by blast
  then show "k \<in> used_up e now m'"
    by cases (use assms(3) [of k] in \<open>auto simp: used_up_def\<close>)
qed

lemma fresh_not_used:
  assumes "agrees e m" "before \<le> now" "live now (e k)"
    and "(case m k of None \<Rightarrow> None | Some v \<Rightarrow> if live now v then Some v else None) = None"
  shows "k \<notin> used_up e before m"
  using assms live_earlier unfolding used_up_def agrees_def by (auto split: option.splits if_splits)

end

text \<open>The two comparisons the guards use: an entry lives until, or until after, its expiry.\<close>

interpretation until: expiring_cache "\<lambda>now v. now < v"
  by unfold_locales (rule le_less_trans)

interpretation through: expiring_cache "\<lambda>now v. now \<le> v"
  by unfold_locales (rule order.trans)

text \<open>
  A bounded cache of used keys: drop the expired entries, refuse when the cache is full, and
  store the key. A key that is still present is a duplicate (its expiry is overwritten).
\<close>

datatype replay_record = Recorded | Duplicate | Full

definition record_once ::
    "nat \<Rightarrow> ('k, u64) fmap \<Rightarrow> 'k \<Rightarrow> u64 \<Rightarrow> u64 \<Rightarrow> replay_record \<times> ('k, u64) fmap" where
  "record_once limit m k expires now =
    (let m = retain_live (\<lambda>expires_at. expires_at > now) m in
     if fcard (fmdom m) \<ge> limit then (Full, m)
     else (if fmlookup m k \<noteq> None then Duplicate else Recorded, fmupd k expires m))"

lemma record_once_Recorded:
  "fst (record_once limit m k expires now) = Recorded \<longleftrightarrow>
    fcard (fmdom (retain_live (\<lambda>v. v > now) m)) < limit \<and> fmlookup (retain_live (\<lambda>v. v > now) m) k = None"
  by (auto simp: record_once_def Let_def)

lemma record_once_bound:
  "fcard (fmdom m) \<le> limit \<Longrightarrow> fcard (fmdom (snd (record_once limit m k expires now))) \<le> limit"
  using fcard_retain_live [of "\<lambda>v. v > now" m] fcard_fmupd [of k expires "retain_live (\<lambda>v. v > now) m"]
  by (auto simp: record_once_def Let_def)

lemma record_once_lookup:
  "fmlookup (snd (record_once limit m k expires now)) k' =
    (if k' = k \<and> fcard (fmdom (retain_live (\<lambda>v. v > now) m)) < limit then Some expires
     else case fmlookup m k' of None \<Rightarrow> None | Some v \<Rightarrow> if now < v then Some v else None)"
  by (auto simp: record_once_def Let_def lookup_retain_live split: option.split)

lemma record_once_facts:
  fixes limit :: nat
  assumes agr: "until.agrees e (fmlookup m)" and later: "before \<le> now" and live: "now < e k"
  defines "r \<equiv> fst (record_once limit m k (e k) now)" and "m' \<equiv> snd (record_once limit m k (e k) now)"
  shows "until.agrees e (fmlookup m')"
    and "until.used_up e before (fmlookup m) \<subseteq> until.used_up e now (fmlookup m')"
    and "r = Recorded \<Longrightarrow> k \<notin> until.used_up e before (fmlookup m)"
    and "r = Recorded \<Longrightarrow> k \<in> until.used_up e now (fmlookup m')"
proof -
  have "until.agrees e (fmlookup m')
    \<and> until.used_up e before (fmlookup m) \<subseteq> until.used_up e now (fmlookup m')
    \<and> (r = Recorded \<longrightarrow> k \<notin> until.used_up e before (fmlookup m) \<and> k \<in> until.used_up e now (fmlookup m'))"
  proof (cases "fcard (fmdom (retain_live (\<lambda>v. v > now) m)) < limit")
    case True
    then have l: "fmlookup m' k' = (if k' = k then Some (e k) else
        case fmlookup m k' of None \<Rightarrow> None | Some v \<Rightarrow> if now < v then Some v else None)" for k'
      by (simp add: m'_def record_once_lookup)
    have "k \<notin> until.used_up e before (fmlookup m)" if "r = Recorded"
      using that until.fresh_not_used [OF agr later live]
      by (simp add: r_def record_once_Recorded lookup_retain_live)
    then show ?thesis
      using until.store_agrees [OF agr l] until.store_used_up [OF agr later l] by simp
  next
    case False
    then have l: "fmlookup m' k' =
        (case fmlookup m k' of None \<Rightarrow> None | Some v \<Rightarrow> if now < v then Some v else None)" for k'
      by (simp add: m'_def record_once_lookup)
    have "r \<noteq> Recorded" using False by (simp add: r_def record_once_Recorded)
    then show ?thesis using until.drop_agrees [OF agr l] until.drop_used_up [OF agr later l] by simp
  qed
  then show "until.agrees e (fmlookup m')"
    "until.used_up e before (fmlookup m) \<subseteq> until.used_up e now (fmlookup m')"
    "r = Recorded \<Longrightarrow> k \<notin> until.used_up e before (fmlookup m)"
    "r = Recorded \<Longrightarrow> k \<in> until.used_up e now (fmlookup m')" by blast+
qed

end
