(* ===== verification/Rc_Relay.thy ===== *)
theory Rc_Relay
  imports Rc_Expiry Rc_Binding Rc_Observe Rc_Transfer
begin

section \<open>The relay server: who may open a connection\<close>

text \<open>
  \<^verbatim>\<open>services/relay-server/src/lib.rs\<close>, authentication of a \<^verbatim>\<open>relay_open\<close>: node and transport,
  times, the signed token and its binding, the authorization by the API service, the device
  signature, and the replay cache. Base64, JSON and HTTP are third-party; they are the fields
  of the record \<open>relay_env\<close>, next to the cryptographic primitives.
\<close>

definition MAX_OPEN_BYTES :: nat where
  "MAX_OPEN_BYTES = 64 * 1024"

definition MAX_FRAME_BYTES :: nat where
  "MAX_FRAME_BYTES = 1024 * 1024"

definition MAX_RELAY_TOKEN_TTL_MILLIS :: u64 where
  "MAX_RELAY_TOKEN_TTL_MILLIS = 60000"

definition REPLAY_RETENTION_MILLIS :: u64 where
  "REPLAY_RETENTION_MILLIS = 60000"

definition MAX_REPLAY_ENTRIES :: nat where
  "MAX_REPLAY_ENTRIES = 100000"

definition FRAME_QUEUE_CAPACITY :: nat where
  "FRAME_QUEUE_CAPACITY = 32"

text \<open>The fields of \<^verbatim>\<open>AppConfig\<close> that the modelled code reads.\<close>

record relay_config =
  rc_relay_node_id :: string
  rc_relay_token_secret :: bytes
  rc_allowed_transports :: "transport_path list"

definition parse_transport :: "string \<Rightarrow> string + transport_path" where
  "parse_transport v =
    (if v = ''quic_relay'' then Inr QuicRelay
     else if v = ''tls_443_relay'' then Inr Tls443Relay
     else Inl (''unsupported relay transport: '' @ v))"

record relay_token_claims =
  tc_session_id :: u128
  tc_device_id :: string
  tc_role :: session_role
  tc_controller_device_id :: string
  tc_controlled_device_id :: string
  tc_relay_node_id :: string
  tc_transport :: transport_path
  tc_permissions_digest :: bytes
  tc_relay_token_epoch :: u64
  tc_issued_at_epoch_millis :: u64
  tc_expires_at_epoch_millis :: u64
  tc_relay_token_id :: string

record relay_authorize_request =
  aq_session_id :: string
  aq_device_id :: string
  aq_role :: string
  aq_permissions_digest :: string
  aq_relay_token_epoch :: u64

record relay_authorization =
  rz_authorized :: bool
  rz_session_id :: string
  rz_role :: string
  rz_controller_device_id :: string
  rz_controlled_device_id :: string
  rz_permissions_digest :: string
  rz_relay_token_epoch :: u64
  rz_authorization_expires_at_epoch_millis :: u64
  rz_device_public_key :: string
  rz_device_public_key_id :: string
  rz_device_public_key_version :: u32

datatype auth_error =
    AeInvalidToken
  | AeTokenBindingMismatch
  | AeTokenExpired
  | AeTokenTtlExceeded
  | AeRoleMismatch
  | AeNodeMismatch
  | AeTransportMismatch
  | AeAuthorizationUnavailable
  | AeAuthorizationRejected
  | AeAuthorizationBindingMismatch
  | AeAuthorizationExpired
  | AeInvalidDeviceKey
  | AeInvalidDeviceSignature
  | AeReplayDetected
  | AeReplayCacheFull

fun auth_error_as_str :: "auth_error \<Rightarrow> string" where
  "auth_error_as_str AeInvalidToken = ''invalid relay token''"
| "auth_error_as_str AeTokenBindingMismatch = ''relay token binding mismatch''"
| "auth_error_as_str AeTokenExpired = ''relay token expired''"
| "auth_error_as_str AeTokenTtlExceeded = ''relay token TTL exceeds maximum''"
| "auth_error_as_str AeRoleMismatch = ''relay role does not match device''"
| "auth_error_as_str AeNodeMismatch = ''relay node mismatch or disabled''"
| "auth_error_as_str AeTransportMismatch = ''relay transport mismatch''"
| "auth_error_as_str AeAuthorizationUnavailable = ''relay authorization service unavailable''"
| "auth_error_as_str AeAuthorizationRejected = ''relay authorization rejected''"
| "auth_error_as_str AeAuthorizationBindingMismatch = ''relay authorization binding mismatch''"
| "auth_error_as_str AeAuthorizationExpired = ''relay authorization expired''"
| "auth_error_as_str AeInvalidDeviceKey = ''invalid authorized device key''"
| "auth_error_as_str AeInvalidDeviceSignature = ''invalid relay_open device signature''"
| "auth_error_as_str AeReplayDetected = ''relay_open nonce replay detected''"
| "auth_error_as_str AeReplayCacheFull = ''relay replay cache is full''"

record relay_env =
  re_primitives :: primitives
  \<comment> \<open>\<^verbatim>\<open>URL_SAFE_NO_PAD.decode\<close>\<close>
  re_base64 :: "string \<Rightarrow> bytes option"
  \<comment> \<open>\<^verbatim>\<open>serde_json::from_slice\<close> at the two types\<close>
  re_claims_json :: "bytes \<Rightarrow> relay_token_claims option"
  re_authorization_json :: "bytes \<Rightarrow> relay_authorization option"
  \<comment> \<open>the HTTP request to the API service: status and body, or a failure to reach it\<close>
  re_post :: "relay_authorize_request \<Rightarrow> (u16 \<times> bytes) option"

definition decode_authorization_response ::
    "relay_env \<Rightarrow> u16 \<Rightarrow> bytes \<Rightarrow> auth_error + relay_authorization" where
  "decode_authorization_response env status body =
    (if status \<in> {401, 403, 404} then Inl AeAuthorizationRejected
     else if \<not> (200 \<le> status \<and> status < 300) then Inl AeAuthorizationUnavailable
     else ok_or AeAuthorizationUnavailable (re_authorization_json env body))"

definition relay_authorize :: "relay_env \<Rightarrow> relay_authorize_request \<Rightarrow> auth_error + relay_authorization" where
  "relay_authorize env request =
    (case re_post env request of
       None \<Rightarrow> Inl AeAuthorizationUnavailable
     | Some (status, body) \<Rightarrow> decode_authorization_response env status body)"

text \<open>Lower case hexadecimal digits, and \<^verbatim>\<open>format!("{value:032x}")\<close> cut by hyphens.\<close>

definition relay_hex :: "bytes \<Rightarrow> string" where
  "relay_hex v = concat (map show_hex_byte v)"

definition uuid_string :: "u128 \<Rightarrow> string" where
  "uuid_string v =
    (let v = relay_hex (to_be_bytes v) in
     slice 0 8 v @ ''-'' @ slice 8 12 v @ ''-'' @ slice 12 16 v @ ''-'' @ slice 16 20 v @ ''-'' @ slice 20 32 v)"

definition claims_from_open :: "relay_open \<Rightarrow> relay_token_claims" where
  "claims_from_open p =
    \<lparr>tc_session_id = ro_session_id p,
     tc_device_id = ro_device_id p,
     tc_role = ro_role p,
     tc_controller_device_id = ro_controller_device_id p,
     tc_controlled_device_id = ro_controlled_device_id p,
     tc_relay_node_id = ro_relay_node_id p,
     tc_transport = ro_transport p,
     tc_permissions_digest = ro_permissions_digest p,
     tc_relay_token_epoch = ro_relay_token_epoch p,
     tc_issued_at_epoch_millis = ro_issued_at_epoch_millis p,
     tc_expires_at_epoch_millis = ro_expires_at_epoch_millis p,
     tc_relay_token_id = ro_relay_token_id p\<rparr>"

definition verify_relay_token :: "relay_env \<Rightarrow> bytes \<Rightarrow> bytes \<Rightarrow> auth_error + relay_token_claims" where
  "verify_relay_token env token secret =
    (if \<not> utf8_valid token then Inl AeInvalidToken
     else
       case split_once (CHR ''.'') (bytes_str token) of
         None \<Rightarrow> Inl AeInvalidToken
       | Some (payload, encoded_signature) \<Rightarrow>
           and_then (ok_or AeInvalidToken (re_base64 env encoded_signature)) (\<lambda>signature.
           and_then (ok_or AeInvalidToken (pr_hmac (re_primitives env) secret (str_bytes payload))) (\<lambda>mac.
           if mac \<noteq> signature then Inl AeInvalidToken
           else
             and_then (ok_or AeInvalidToken (re_base64 env payload)) (\<lambda>payload.
             ok_or AeInvalidToken (re_claims_json env payload)))))"

definition append_claim_fields ::
    "relay_token_claims \<Rightarrow> canonical_writer \<Rightarrow> auth_error + canonical_writer" where
  "append_claim_fields c w =
    map_err (\<lambda>_. AeTokenBindingMismatch) (try_chain
      [push_u128 ''session_id'' (tc_session_id c),
       push_str ''device_id'' (tc_device_id c),
       push_str ''role'' (role_as_str (tc_role c)),
       push_str ''controller_device_id'' (tc_controller_device_id c),
       push_str ''controlled_device_id'' (tc_controlled_device_id c),
       push_str ''relay_node_id'' (tc_relay_node_id c),
       push_str ''transport'' (path_as_str (tc_transport c)),
       push_field ''permissions_digest'' (tc_permissions_digest c),
       push_u64 ''relay_token_epoch'' (tc_relay_token_epoch c),
       push_u64 ''issued_at_epoch_millis'' (tc_issued_at_epoch_millis c),
       push_u64 ''expires_at_epoch_millis'' (tc_expires_at_epoch_millis c),
       push_str ''relay_token_id'' (tc_relay_token_id c)] w)"

definition server_token_binding_hash :: "relay_env \<Rightarrow> relay_token_claims \<Rightarrow> auth_error + bytes" where
  "server_token_binding_hash env c =
    and_then (map_err (\<lambda>_. AeTokenBindingMismatch) (writer_new ''rctl-relay-token-binding-v1'')) (\<lambda>w.
    and_then (append_claim_fields c w) (\<lambda>w.
    Inr (pr_sha256 (re_primitives env) (finish w))))"

definition server_open_canonical_bytes :: "relay_open \<Rightarrow> auth_error + bytes" where
  "server_open_canonical_bytes p =
    and_then (map_err (\<lambda>_. AeInvalidDeviceSignature) (writer_new ''rctl-relay-open-v1'')) (\<lambda>w.
    and_then (append_claim_fields (claims_from_open p) w) (\<lambda>w.
    and_then (map_err (\<lambda>_. AeInvalidDeviceSignature) (try_chain
      [push_field ''relay_open_nonce'' (ro_relay_open_nonce p),
       push_field ''session_relay_token'' (ro_session_relay_token p),
       push_field ''token_binding_hash'' (ro_token_binding_hash p)] w)) (\<lambda>w.
    Inr (finish w))))"

definition validate_authorization ::
    "relay_open \<Rightarrow> relay_authorize_request \<Rightarrow> relay_authorization \<Rightarrow> u64 \<Rightarrow> auth_error + unit" where
  "validate_authorization p request authorization now =
    (if \<not> rz_authorized authorization
        \<or> rz_session_id authorization \<noteq> aq_session_id request
        \<or> rz_role authorization \<noteq> aq_role request
        \<or> rz_permissions_digest authorization \<noteq> aq_permissions_digest request
        \<or> rz_relay_token_epoch authorization \<noteq> aq_relay_token_epoch request
        \<or> rz_controller_device_id authorization \<noteq> ro_controller_device_id p
        \<or> rz_controlled_device_id authorization \<noteq> ro_controlled_device_id p
        \<or> rz_device_public_key_id authorization = []
        \<or> rz_device_public_key_version authorization = 0
     then Inl AeAuthorizationBindingMismatch
     else if rz_authorization_expires_at_epoch_millis authorization \<le> now then Inl AeAuthorizationExpired
     else Inr ())"

definition decode_array :: "relay_env \<Rightarrow> nat \<Rightarrow> string \<Rightarrow> bytes option" where
  "decode_array env n v =
    (case re_base64 env v of None \<Rightarrow> None | Some bs \<Rightarrow> if length bs = n then Some bs else None)"

definition role_device :: "relay_open \<Rightarrow> string" where
  "role_device p =
    (case ro_role p of Controller \<Rightarrow> ro_controller_device_id p | Controlled \<Rightarrow> ro_controlled_device_id p)"

definition authorize_request_of :: "relay_open \<Rightarrow> relay_authorize_request" where
  "authorize_request_of p =
    \<lparr>aq_session_id = uuid_string (ro_session_id p),
     aq_device_id = ro_device_id p,
     aq_role = role_as_str (ro_role p),
     aq_permissions_digest = relay_hex (ro_permissions_digest p),
     aq_relay_token_epoch = ro_relay_token_epoch p\<rparr>"

text \<open>The device signature under the authorized key.\<close>

definition check_device_signature ::
    "relay_env \<Rightarrow> relay_open \<Rightarrow> relay_authorization \<Rightarrow> auth_error + unit" where
  "check_device_signature env p authorization =
    and_then (ok_or AeInvalidDeviceKey (decode_array env 32 (rz_device_public_key authorization))) (\<lambda>public_key.
    if length (ro_device_signature p) \<noteq> 64 then Inl AeInvalidDeviceSignature
    else
      and_then (server_open_canonical_bytes p) (\<lambda>canonical.
      case pr_verify (re_primitives env) public_key (pr_sha256 (re_primitives env) canonical)
          (ro_device_signature p) of
        None \<Rightarrow> Inl AeInvalidDeviceKey
      | Some valid \<Rightarrow> if valid then Inr () else Inl AeInvalidDeviceSignature))"

text \<open>Everything before the replay cache.\<close>

definition open_checked ::
    "relay_env \<Rightarrow> relay_config \<Rightarrow> bool \<Rightarrow> relay_open \<Rightarrow> transport_path \<Rightarrow> u64 \<Rightarrow> auth_error + unit" where
  "open_checked env config node_enabled p expected_transport now =
    (if \<not> node_enabled \<or> ro_relay_node_id p \<noteq> rc_relay_node_id config then Inl AeNodeMismatch
     else if ro_transport p \<noteq> expected_transport \<or> \<not> is_relay (ro_transport p)
        \<or> ro_transport p \<notin> set (rc_allowed_transports config)
     then Inl AeTransportMismatch
     else if ro_expires_at_epoch_millis p \<le> now then Inl AeTokenExpired
     else if ro_issued_at_epoch_millis p > saturating_add now 5000
        \<or> saturating_sub (ro_expires_at_epoch_millis p) (ro_issued_at_epoch_millis p)
            > MAX_RELAY_TOKEN_TTL_MILLIS
     then Inl AeTokenTtlExceeded
     else if ro_device_id p \<noteq> role_device p then Inl AeRoleMismatch
     else
       and_then (verify_relay_token env (ro_session_relay_token p) (rc_relay_token_secret config)) (\<lambda>claims.
       if claims \<noteq> claims_from_open p then Inl AeTokenBindingMismatch
       else
         and_then (server_token_binding_hash env claims) (\<lambda>binding_hash.
         if binding_hash \<noteq> ro_token_binding_hash p then Inl AeTokenBindingMismatch
         else
           let request = authorize_request_of p in
           and_then (relay_authorize env request) (\<lambda>authorization.
           and_then (validate_authorization p request authorization now) (\<lambda>_.
           check_device_signature env p authorization)))))"

type_synonym replay_key = "string \<times> session_role \<times> bytes"

definition replay_key :: "relay_open \<Rightarrow> replay_key" where
  "replay_key p = (ro_relay_token_id p, ro_role p, ro_relay_open_nonce p)"

definition record_replay ::
    "(replay_key, u64) fmap \<Rightarrow> relay_open \<Rightarrow> u64 \<Rightarrow> (auth_error + unit) \<times> (replay_key, u64) fmap" where
  "record_replay replays p now =
    (let replays = retain_live (\<lambda>retain_until. retain_until > now) replays in
     if fcard (fmdom replays) \<ge> MAX_REPLAY_ENTRIES then (Inl AeReplayCacheFull, replays)
     else
       (if fmlookup replays (replay_key p) \<noteq> None then Inl AeReplayDetected else Inr (),
        fmupd (replay_key p) (saturating_add (ro_expires_at_epoch_millis p) REPLAY_RETENTION_MILLIS) replays))"

definition authenticate_open ::
    "relay_env \<Rightarrow> relay_config \<Rightarrow> bool \<Rightarrow> (replay_key, u64) fmap \<Rightarrow> relay_open \<Rightarrow> transport_path \<Rightarrow> u64
      \<Rightarrow> (auth_error + string) \<times> (replay_key, u64) fmap" where
  "authenticate_open env config node_enabled replays p expected_transport now =
    (case open_checked env config node_enabled p expected_transport now of
       Inl e \<Rightarrow> (Inl e, replays)
     | Inr _ \<Rightarrow> apfst (map_ok (\<lambda>_. ro_device_id p)) (record_replay replays p now))"

subsection \<open>The server checks the bytes that the client signs\<close>

lemma try_chain_append: "try_chain (fs @ gs) w = and_then (try_chain fs w) (try_chain gs)"
proof (induction fs arbitrary: w)
  case (Cons f fs)
  then show ?case by (cases "f w") simp_all
qed simp

lemma append_claim_fields_open:
  "append_claim_fields (claims_from_open p) w =
    map_err (\<lambda>_. AeTokenBindingMismatch) (try_chain
      (relay_binding_pushes (ro_session_id p) (ro_device_id p) (ro_role p)
        (ro_controller_device_id p) (ro_controlled_device_id p) (ro_relay_node_id p)
        (ro_transport p) (ro_permissions_digest p) (ro_relay_token_epoch p)
        (ro_issued_at_epoch_millis p) (ro_expires_at_epoch_millis p) (ro_relay_token_id p)) w)"
  by (simp only: append_claim_fields_def claims_from_open_def relay_binding_pushes_def
      relay_token_claims.simps)

lemma writer_new_ok: "\<exists>w. writer_new ''rctl-relay-open-v1'' = Inr w"
  by (simp add: writer_new_def push_field_ok push_defs field_fits_def)

lemma server_open_bytes_eq:
  "server_open_canonical_bytes p = Inr bs \<longleftrightarrow> relay_open_canonical_bytes p = Inr bs"
  by (auto simp: server_open_canonical_bytes_def relay_open_canonical_bytes_def append_claim_fields_open
      result_simps try_chain_append simp del: try_chain.simps)

lemma server_binding_hash_eq:
  assumes "relay_open_matches_allocation p a" "is_relay (ro_transport p)"
  shows "server_token_binding_hash env (claims_from_open p) = Inr h \<longleftrightarrow>
    relay_token_binding_hash (pr_sha256 (re_primitives env)) a = Inr h"
  using assms
  by (auto simp: server_token_binding_hash_def relay_token_binding_hash_def relay_token_binding_bytes_def
      append_claim_fields_open relay_open_matches_allocation_def result_simps simp del: try_chain.simps)

subsection \<open>What an accepted open has passed\<close>

lemma relay_hex_inject: "relay_hex a = relay_hex b \<longleftrightarrow> a = b"
proof
  assume "relay_hex a = relay_hex b"
  then have "decode_hex (relay_hex a) = decode_hex (relay_hex b)" by simp
  then show "a = b" using decode_hex_hex by (simp add: relay_hex_def hex_def)
qed simp

lemma relay_hex_length: "length (relay_hex bs) = 2 * length bs"
  using hex_length by (simp add: relay_hex_def hex_def)

lemma uuid_string_inject: "uuid_string a = uuid_string b \<longleftrightarrow> a = b"
proof
  assume eq: "uuid_string a = uuid_string b"
  have len: "length (relay_hex (to_be_bytes (v :: u128))) = 32" for v by (simp add: relay_hex_length)
  have split: "s = slice 0 8 s @ slice 8 12 s @ slice 12 16 s @ slice 16 20 s @ slice 20 32 s"
    if "length s = 32" for s :: string
    using that append_take_drop_id [of 8 s] append_take_drop_id [of 4 "drop 8 s"]
      append_take_drop_id [of 4 "drop 12 s"] append_take_drop_id [of 4 "drop 16 s"]
    by (simp add: slice_def)
  have "slice i j (relay_hex (to_be_bytes a)) = slice i j (relay_hex (to_be_bytes b))"
    if "(i, j) \<in> {(0, 8), (8, 12), (12, 16), (16, 20), (20, 32)}" for i j
    using eq that by (auto simp: uuid_string_def Let_def slice_def len)
  then have "relay_hex (to_be_bytes a) = relay_hex (to_be_bytes b)"
    using split [OF len [of a]] split [OF len [of b]] by simp
  then show "a = b" by (simp add: relay_hex_inject)
qed simp

lemma authenticate_open_ok:
  "fst (authenticate_open env config on rs p tr now) = Inr d \<longleftrightarrow>
    open_checked env config on p tr now = Inr () \<and> fst (record_replay rs p now) = Inr () \<and> d = ro_device_id p"
  by (cases "fst (record_replay rs p now)")
    (auto simp: authenticate_open_def split: sum.split)

lemma record_replay_once:
  "record_replay rs p now =
    (case record_once MAX_REPLAY_ENTRIES rs (replay_key p)
        (saturating_add (ro_expires_at_epoch_millis p) REPLAY_RETENTION_MILLIS) now of
       (Recorded, rs) \<Rightarrow> (Inr (), rs)
     | (Duplicate, rs) \<Rightarrow> (Inl AeReplayDetected, rs)
     | (Full, rs) \<Rightarrow> (Inl AeReplayCacheFull, rs))"
  by (auto simp: record_replay_def record_once_def Let_def)

lemma open_checked_facts:
  assumes "open_checked env config on p tr now = Inr ()"
  shows "on" "ro_relay_node_id p = rc_relay_node_id config" "ro_transport p = tr" "is_relay tr"
    "now < ro_expires_at_epoch_millis p" "ro_device_id p = role_device p"
    "verify_relay_token env (ro_session_relay_token p) (rc_relay_token_secret config) = Inr (claims_from_open p)"
    "server_token_binding_hash env (claims_from_open p) = Inr (ro_token_binding_hash p)"
    "\<exists>z. relay_authorize env (authorize_request_of p) = Inr z
       \<and> validate_authorization p (authorize_request_of p) z now = Inr () \<and> check_device_signature env p z = Inr ()"
  using assms by (auto simp: open_checked_def result_simps Let_def not_le split: if_splits)

lemma token_lifetime:
  assumes "open_checked env config on p tr now = Inr ()"
  shows "unat (ro_expires_at_epoch_millis p) \<le> unat now + 65000"
proof -
  have "ro_issued_at_epoch_millis p \<le> saturating_add now 5000"
    "saturating_sub (ro_expires_at_epoch_millis p) (ro_issued_at_epoch_millis p) \<le> MAX_RELAY_TOKEN_TTL_MILLIS"
    using assms by (auto simp: open_checked_def not_less split: if_splits)
  then have "unat (ro_issued_at_epoch_millis p) \<le> unat now + 5000"
    "unat (ro_expires_at_epoch_millis p) - unat (ro_issued_at_epoch_millis p) \<le> 60000"
    using unat_saturating_add_le [of now 5000]
    by (simp_all add: word_le_nat_alt unat_saturating_sub MAX_RELAY_TOKEN_TTL_MILLIS_def)
  then show ?thesis by linarith
qed

lemma valid_signature_ok [simp]:
  "(case v of None \<Rightarrow> Inl a | Some valid \<Rightarrow> if valid then Inr () else Inl b) = Inr () \<longleftrightarrow> v = Some True"
  by (auto split: option.split)

lemma check_device_signature_ok:
  "check_device_signature env p z = Inr () \<longleftrightarrow>
    (\<exists>pk bs. decode_array env 32 (rz_device_public_key z) = Some pk \<and> length (ro_device_signature p) = 64
      \<and> relay_open_canonical_bytes p = Inr bs
      \<and> pr_verify (re_primitives env) pk (pr_sha256 (re_primitives env) bs) (ro_device_signature p) = Some True)"
  by (auto simp: check_device_signature_def result_simps server_open_bytes_eq)

subsection \<open>No open is accepted twice\<close>

text \<open>
  The replay cache with the clock. An operation lets time pass, may switch the node on or
  off, and presents an open.
\<close>

record open_attempt =
  oa_elapsed :: u64
  oa_node_enabled :: bool
  oa_open :: relay_open
  oa_transport :: transport_path

definition open_step ::
    "relay_env \<Rightarrow> relay_config \<Rightarrow> (replay_key, u64) fmap \<times> u64 \<Rightarrow> open_attempt
      \<Rightarrow> (auth_error + string) \<times> (replay_key, u64) fmap \<times> u64" where
  "open_step env config s x =
    (let now = saturating_add (snd s) (oa_elapsed x);
         (r, rs) = authenticate_open env config (oa_node_enabled x) (fst s) (oa_open x) (oa_transport x) now
     in (r, rs, now))"

definition open_expiry :: "relay_open \<Rightarrow> u64" where
  "open_expiry p = saturating_add (ro_expires_at_epoch_millis p) REPLAY_RETENTION_MILLIS"

text \<open>The machine restricted to opens whose token identifier determines the expiry.\<close>

definition open_step_at ::
    "(replay_key \<Rightarrow> u64) \<Rightarrow> relay_env \<Rightarrow> relay_config \<Rightarrow> (replay_key, u64) fmap \<times> u64 \<Rightarrow> open_attempt
      \<Rightarrow> (auth_error + string) \<times> (replay_key, u64) fmap \<times> u64" where
  "open_step_at e env config s x =
    (if open_expiry (oa_open x) = e (replay_key (oa_open x)) then open_step env config s x
     else (Inl AeTokenBindingMismatch, s))"

definition open_accepted :: "open_attempt \<Rightarrow> auth_error + string \<Rightarrow> replay_key option" where
  "open_accepted x r = (if is_ok r then Some (replay_key (oa_open x)) else None)"

definition opens_ok :: "(replay_key \<Rightarrow> u64) \<Rightarrow> (replay_key, u64) fmap \<times> u64 \<Rightarrow> bool" where
  "opens_ok e s \<longleftrightarrow> until.agrees e (fmlookup (fst s)) \<and> fcard (fmdom (fst s)) \<le> MAX_REPLAY_ENTRIES"

definition opens_spent :: "(replay_key \<Rightarrow> u64) \<Rightarrow> (replay_key, u64) fmap \<times> u64 \<Rightarrow> replay_key set" where
  "opens_spent e s = until.used_up e (snd s) (fmlookup (fst s))"

lemma record_replay_split:
  "fst (record_replay rs p now) = Inr () \<longleftrightarrow>
    fst (record_once MAX_REPLAY_ENTRIES rs (replay_key p) (open_expiry p) now) = Recorded"
  "snd (record_replay rs p now) = snd (record_once MAX_REPLAY_ENTRIES rs (replay_key p) (open_expiry p) now)"
  by (auto simp: record_replay_once open_expiry_def split: prod.split replay_record.split)

lemma open_step_at_facts:
  assumes inv: "opens_ok e s" and step: "open_step_at e env config s x = (r, s')"
  shows "opens_ok e s'" "opens_spent e s \<subseteq> opens_spent e s'"
    and "is_ok r \<Longrightarrow> replay_key (oa_open x) \<notin> opens_spent e s"
    and "is_ok r \<Longrightarrow> replay_key (oa_open x) \<in> opens_spent e s'"
proof -
  let ?now = "saturating_add (snd s) (oa_elapsed x)" and ?p = "oa_open x"
  let ?c = "open_checked env config (oa_node_enabled x) ?p (oa_transport x) ?now"
  have later: "snd s \<le> ?now" by (rule saturating_add_mono)
  have agr: "until.agrees e (fmlookup (fst s))" and bound: "fcard (fmdom (fst s)) \<le> MAX_REPLAY_ENTRIES"
    using inv by (simp_all add: opens_ok_def)
  consider (skip) "open_expiry ?p \<noteq> e (replay_key ?p)"
    | (refused) err where "open_expiry ?p = e (replay_key ?p)" "?c = Inl err"
    | (checked) "open_expiry ?p = e (replay_key ?p)" "?c = Inr ()"
    by (cases ?c) auto
  then have "opens_ok e s' \<and> opens_spent e s \<subseteq> opens_spent e s'
    \<and> (is_ok r \<longrightarrow> replay_key ?p \<notin> opens_spent e s \<and> replay_key ?p \<in> opens_spent e s')"
  proof cases
    case skip
    with step inv show ?thesis by (auto simp: open_step_at_def)
  next
    case refused
    then have "s' = (fst s, ?now)" "\<not> is_ok r"
      using step by (auto simp: open_step_at_def open_step_def authenticate_open_def)
    then show ?thesis
      using agr bound until.used_up_later [OF later] by (simp add: opens_ok_def opens_spent_def)
  next
    case checked
    let ?rs = "snd (record_replay (fst s) ?p ?now)"
    have s': "s' = (?rs, ?now)" and r: "is_ok r \<longleftrightarrow> fst (record_replay (fst s) ?p ?now) = Inr ()"
      using step checked
      by (auto simp: open_step_at_def open_step_def authenticate_open_def Let_def case_prod_beta is_ok_iff
          map_ok_eq_Inr)
    have "?now < ro_expires_at_epoch_millis ?p" using open_checked_facts(5) [OF checked(2)] .
    then have live: "?now < e (replay_key ?p)"
      using saturating_add_mono [of "ro_expires_at_epoch_millis ?p" REPLAY_RETENTION_MILLIS] checked(1)
      by (auto simp: open_expiry_def)
    note once = record_once_facts [OF agr later live, of MAX_REPLAY_ENTRIES]
    show ?thesis
      using once record_once_bound [OF bound] r
      by (simp add: s' opens_ok_def opens_spent_def record_replay_split checked(1))
  qed
  then show "opens_ok e s'" "opens_spent e s \<subseteq> opens_spent e s'"
    "is_ok r \<Longrightarrow> replay_key (oa_open x) \<notin> opens_spent e s"
    "is_ok r \<Longrightarrow> replay_key (oa_open x) \<in> opens_spent e s'" by blast+
qed

interpretation opens: at_most_once "open_step_at e env config" "opens_ok e" open_accepted "opens_spent e"
  for e env config
proof
  fix s :: "(replay_key, u64) fmap \<times> u64" and x :: open_attempt and k :: replay_key
  assume inv: "opens_ok e s"
  note facts = open_step_at_facts [OF inv prod.collapse [symmetric], of env config x]
  show "opens_ok e (snd (open_step_at e env config s x))"
    and "opens_spent e s \<subseteq> opens_spent e (snd (open_step_at e env config s x))"
    by (rule facts)+
  assume "open_accepted x (fst (open_step_at e env config s x)) = Some k"
  then have "is_ok (fst (open_step_at e env config s x))" "k = replay_key (oa_open x)"
    by (auto simp: open_accepted_def split: if_splits)
  with facts(3,4) show "k \<notin> opens_spent e s" "k \<in> opens_spent e (snd (open_step_at e env config s x))"
    by simp_all
qed

lemma open_run_at:
  "\<forall>x \<in> set xs. open_expiry (oa_open x) = e (replay_key (oa_open x)) \<Longrightarrow>
    run_ops (open_step_at e env config) s xs = run_ops (open_step env config) s xs"
  by (induction xs arbitrary: s)
    (simp_all add: run_ops_Cons_simp open_step_at_def del: run_ops.simps(2))

lemma opens_start: "opens_ok e (fmempty, t)"
  by (simp add: opens_ok_def until.agrees_def fcard.rep_eq)

end
