(* ===== verification/Rc_RelayPeers.thy ===== *)
theory Rc_RelayPeers
  imports Rc_Relay Rc_Session
begin

section \<open>The relay server: pairing and forwarding\<close>

text \<open>
  \<^verbatim>\<open>services/relay-server/src/lib.rs\<close>: frames on the wire, the table of connected peers, and
  the server as a whole. Every connection runs a read loop that forwards frames to the peer
  and a write loop that drains its own queue; the runtime interleaves them. Each operation of
  the machine is one such step of one connection. A forward is two steps, because it looks up
  the peer under the lock and then waits for room in the peer's queue. The sender of a peer
  is the handle of that connection's queue, named by the connection number.
\<close>

subsection \<open>Frames on the wire\<close>

datatype io_error = IoUnexpectedEof | IoInvalidData | IoInvalidInput

text \<open>Reading from the bytes that are still to come; \<open>read_exact\<close> fails at their end.\<close>

definition read_frame_after_prefix :: "bytes \<Rightarrow> bytes \<Rightarrow> nat \<Rightarrow> (io_error + bytes) \<times> bytes" where
  "read_frame_after_prefix input pfx maximum =
    (let len = unat (from_be_bytes pfx :: u32) in
     if len = 0 \<or> len > maximum then (Inl IoInvalidData, input)
     else if length input < len then (Inl IoUnexpectedEof, [])
     else (Inr (take len input), drop len input))"

definition read_frame :: "bytes \<Rightarrow> nat \<Rightarrow> (io_error + bytes option) \<times> bytes" where
  "read_frame input maximum =
    (if length input < 4 then (Inr None, [])
     else apfst (map_ok Some) (read_frame_after_prefix (drop 4 input) (take 4 input) maximum))"

definition write_frame :: "bytes \<Rightarrow> io_error + bytes" where
  "write_frame frame =
    (if length frame < 2 ^ 32 then Inr (to_be_bytes (of_nat (length frame) :: u32) @ frame)
     else Inl IoInvalidInput)"

lemma read_write_frame:
  assumes "write_frame f = Inr bs" "f \<noteq> []" "length f \<le> maximum"
  shows "read_frame (bs @ rest) maximum = (Inr (Some f), rest)"
proof -
  have len: "length f < 2 ^ 32" and bs: "bs = to_be_bytes (of_nat (length f) :: u32) @ f"
    using assms(1) by (auto simp: write_frame_def split: if_splits)
  have "take 4 (bs @ rest) = to_be_bytes (of_nat (length f) :: u32)" "drop 4 (bs @ rest) = f @ rest"
    by (simp_all add: bs)
  moreover have "unat (of_nat (length f) :: u32) = length f" using len by (simp add: unat_of_nat)
  ultimately show ?thesis
    using assms(2,3) by (simp add: read_frame_def read_frame_after_prefix_def Let_def bs)
qed

lemma read_frame_bounds:
  "fst (read_frame input maximum) = Inr (Some f) \<Longrightarrow> 0 < length f \<and> length f \<le> maximum"
  by (auto simp: read_frame_def read_frame_after_prefix_def Let_def result_simps split: if_splits)

subsection \<open>The table of peers\<close>

record peer_set =
  ps_controller :: "u64 option"
  ps_controlled :: "u64 option"

definition peer_set_default :: peer_set where
  "peer_set_default = \<lparr>ps_controller = None, ps_controlled = None\<rparr>"

type_synonym peer_table = "u128 \<times> transport_path \<Rightarrow> peer_set option"

fun peer_slot :: "session_role \<Rightarrow> peer_set \<Rightarrow> u64 option" where
  "peer_slot Controller ps = ps_controller ps"
| "peer_slot Controlled ps = ps_controlled ps"

fun set_slot :: "session_role \<Rightarrow> u64 option \<Rightarrow> peer_set \<Rightarrow> peer_set" where
  "set_slot Controller v ps = ps\<lparr>ps_controller := v\<rparr>"
| "set_slot Controlled v ps = ps\<lparr>ps_controlled := v\<rparr>"

definition peers_register ::
    "peer_table \<Rightarrow> u128 \<Rightarrow> transport_path \<Rightarrow> session_role \<Rightarrow> u64 \<Rightarrow> (string + unit) \<times> peer_table" where
  "peers_register sessions session_id transport role connection_id =
    (let peers = (case sessions (session_id, transport) of None \<Rightarrow> peer_set_default | Some ps \<Rightarrow> ps) in
     if peer_slot role peers \<noteq> None
     then (Inl ''relay role already connected'', sessions((session_id, transport) \<mapsto> peers))
     else (Inr (), sessions((session_id, transport) \<mapsto> set_slot role (Some connection_id) peers)))"

text \<open>\<^verbatim>\<open>forward\<close>, first half: the sender of the other role.\<close>

definition forward_lookup ::
    "peer_table \<Rightarrow> u128 \<Rightarrow> transport_path \<Rightarrow> session_role \<Rightarrow> string + u64" where
  "forward_lookup sessions session_id transport sender_role =
    and_then (ok_or ''relay session not paired'' (sessions (session_id, transport))) (\<lambda>peers.
    ok_or ''relay peer not connected'' (peer_slot (opposite_role sender_role) peers))"

definition peers_remove ::
    "peer_table \<Rightarrow> u128 \<Rightarrow> transport_path \<Rightarrow> session_role \<Rightarrow> u64 \<Rightarrow> peer_table" where
  "peers_remove sessions session_id transport role connection_id =
    (case sessions (session_id, transport) of
       None \<Rightarrow> sessions
     | Some peers \<Rightarrow>
         let peers = (if peer_slot role peers = Some connection_id then set_slot role None peers else peers)
         in if ps_controller peers = None \<and> ps_controlled peers = None
            then sessions((session_id, transport) := None)
            else sessions((session_id, transport) \<mapsto> peers))"

lemma slot_set [simp]: "peer_slot r (set_slot r' v ps) = (if r = r' then v else peer_slot r ps)"
  by (cases r; cases r') simp_all

lemma slots_empty: "ps_controller ps = None \<and> ps_controlled ps = None \<longleftrightarrow> (\<forall>r. peer_slot r ps = None)"
  by (metis peer_slot.simps session_role.exhaust)

lemma slot_default [simp]: "peer_slot r peer_set_default = None"
  by (cases r) (simp_all add: peer_set_default_def)

text \<open>The table as a partial function from (session, transport, role) to connections.\<close>

definition peer_at :: "peer_table \<Rightarrow> u128 \<Rightarrow> transport_path \<Rightarrow> session_role \<Rightarrow> u64 option" where
  "peer_at sessions i t r = (case sessions (i, t) of None \<Rightarrow> None | Some ps \<Rightarrow> peer_slot r ps)"

lemma peer_at_register:
  "fst (peers_register ss i t r c) = Inr () \<longleftrightarrow> peer_at ss i t r = None"
  "peer_at (snd (peers_register ss i t r c)) i' t' r' =
    (if (i', t', r') = (i, t, r) \<and> peer_at ss i t r = None then Some c else peer_at ss i' t' r')"
  by (auto simp: peers_register_def peer_at_def Let_def split: option.splits)

lemma peer_at_remove:
  "peer_at (peers_remove ss i t r c) i' t' r' =
    (if (i', t', r') = (i, t, r) \<and> peer_at ss i t r = Some c then None else peer_at ss i' t' r')"
proof (cases "ss (i, t)")
  case (Some ps)
  then show ?thesis
    using slots_empty [of ps] slots_empty [of "set_slot r None ps"]
    by (auto simp: peers_remove_def peer_at_def Let_def slots_empty split: option.splits)
qed (auto simp: peers_remove_def peer_at_def)

lemma forward_lookup_ok: "forward_lookup ss i t r = Inr d \<longleftrightarrow> peer_at ss i t (opposite_role r) = Some d"
  by (auto simp: forward_lookup_def peer_at_def result_simps split: option.splits)

subsection \<open>The server\<close>

record relay_connection =
  cn_session_id :: u128
  cn_transport :: transport_path
  cn_role :: session_role
  cn_queue :: "bytes list"
  cn_pending :: "(u64 \<times> bytes) option"

record relay_state =
  rl_node_enabled :: bool
  rl_replays :: "(replay_key, u64) fmap"
  rl_sessions :: peer_table
  rl_next_connection_id :: u64
  rl_connections :: "u64 \<Rightarrow> relay_connection option"

definition relay_init :: relay_state where
  "relay_init =
    \<lparr>rl_node_enabled = True, rl_replays = fmempty, rl_sessions = (\<lambda>_. None),
     rl_next_connection_id = 1, rl_connections = (\<lambda>_. None)\<rparr>"

definition set_node_enabled :: "relay_state \<Rightarrow> bool \<Rightarrow> relay_state" where
  "set_node_enabled s enabled = s\<lparr>rl_node_enabled := enabled\<rparr>"

datatype relay_op =
    RlSetEnabled bool
  | RlOpen relay_open transport_path u64
  | RlRead u64 bytes
  | RlSend u64
  | RlWrite u64
  | RlEnd u64

datatype relay_event =
    EvRefused auth_error
  | EvAlreadyConnected
  | EvOpened u64
  | EvRead u64 bytes
  | EvSent u64 u64 bytes
  | EvWrote u64 bytes
  | EvEnded u64 "bytes list" "bytes list"
  | EvNothing

text \<open>The end of a connection: \<^verbatim>\<open>remove\<close>, and what it had not written or forwarded is dropped.\<close>

definition relay_end :: "relay_state \<Rightarrow> u64 \<Rightarrow> relay_connection \<Rightarrow> relay_event \<times> relay_state" where
  "relay_end s c cn =
    (EvEnded c (cn_queue cn) (case cn_pending cn of None \<Rightarrow> [] | Some (_, frame) \<Rightarrow> [frame]),
     s\<lparr>rl_sessions := peers_remove (rl_sessions s) (cn_session_id cn) (cn_transport cn) (cn_role cn) c,
       rl_connections := (rl_connections s)(c := None)\<rparr>)"

text \<open>\<^verbatim>\<open>handle_relay_stream\<close> up to the start of the two loops.\<close>

definition relay_open_stream ::
    "relay_env \<Rightarrow> relay_config \<Rightarrow> relay_state \<Rightarrow> relay_open \<Rightarrow> transport_path \<Rightarrow> u64 \<Rightarrow> relay_event \<times> relay_state" where
  "relay_open_stream env config s p expected_transport now =
    (let (authenticated, replays) =
       authenticate_open env config (rl_node_enabled s) (rl_replays s) p expected_transport now;
         s = s\<lparr>rl_replays := replays\<rparr>
     in case authenticated of
          Inl e \<Rightarrow> (EvRefused e, s)
        | Inr _ \<Rightarrow>
            let c = rl_next_connection_id s;
                (registered, sessions) = peers_register (rl_sessions s) (ro_session_id p) (ro_transport p) (ro_role p) c;
                s = s\<lparr>rl_next_connection_id := c + 1, rl_sessions := sessions\<rparr>
            in case registered of
                 Inl _ \<Rightarrow> (EvAlreadyConnected, s)
               | Inr _ \<Rightarrow>
                   (EvOpened c,
                    s\<lparr>rl_connections := (rl_connections s)(c \<mapsto>
                        \<lparr>cn_session_id = ro_session_id p, cn_transport = ro_transport p, cn_role = ro_role p,
                         cn_queue = [], cn_pending = None\<rparr>)\<rparr>))"

definition relay_read :: "relay_state \<Rightarrow> u64 \<Rightarrow> relay_connection \<Rightarrow> bytes \<Rightarrow> relay_event \<times> relay_state" where
  "relay_read s c cn frame =
    (if cn_pending cn \<noteq> None then (EvNothing, s)
     else
       case forward_lookup (rl_sessions s) (cn_session_id cn) (cn_transport cn) (cn_role cn) of
         Inl _ \<Rightarrow> relay_end s c cn
       | Inr d \<Rightarrow>
           (EvRead c frame, s\<lparr>rl_connections := (rl_connections s)(c \<mapsto> cn\<lparr>cn_pending := Some (d, frame)\<rparr>)\<rparr>))"

text \<open>
  \<^verbatim>\<open>sender.send(frame).await\<close>: fails if the receiver is gone, waits while the queue is full.
\<close>

definition relay_send :: "relay_state \<Rightarrow> u64 \<Rightarrow> relay_connection \<Rightarrow> relay_event \<times> relay_state" where
  "relay_send s c cn =
    (case cn_pending cn of
       None \<Rightarrow> (EvNothing, s)
     | Some (d, frame) \<Rightarrow>
         (case rl_connections s d of
            None \<Rightarrow> relay_end s c cn
          | Some peer \<Rightarrow>
              if length (cn_queue peer) \<ge> FRAME_QUEUE_CAPACITY then (EvNothing, s)
              else
                (EvSent c d frame,
                 s\<lparr>rl_connections :=
                     (rl_connections s)(d \<mapsto> peer\<lparr>cn_queue := cn_queue peer @ [frame]\<rparr>,
                                        c \<mapsto> cn\<lparr>cn_pending := None\<rparr>)\<rparr>)))"

definition relay_write :: "relay_state \<Rightarrow> u64 \<Rightarrow> relay_connection \<Rightarrow> relay_event \<times> relay_state" where
  "relay_write s c cn =
    (case cn_queue cn of
       [] \<Rightarrow> (EvNothing, s)
     | frame # rest \<Rightarrow>
         (EvWrote c frame, s\<lparr>rl_connections := (rl_connections s)(c \<mapsto> cn\<lparr>cn_queue := rest\<rparr>)\<rparr>))"

definition on_connection ::
    "relay_state \<Rightarrow> u64 \<Rightarrow> (relay_connection \<Rightarrow> relay_event \<times> relay_state) \<Rightarrow> relay_event \<times> relay_state" where
  "on_connection s c f = (case rl_connections s c of None \<Rightarrow> (EvNothing, s) | Some cn \<Rightarrow> f cn)"

fun relay_step :: "relay_env \<Rightarrow> relay_config \<Rightarrow> relay_state \<Rightarrow> relay_op \<Rightarrow> relay_event \<times> relay_state" where
  "relay_step env config s (RlSetEnabled b) = (EvNothing, set_node_enabled s b)"
| "relay_step env config s (RlOpen p t now) = relay_open_stream env config s p t now"
| "relay_step env config s (RlRead c frame) = on_connection s c (\<lambda>cn. relay_read s c cn frame)"
| "relay_step env config s (RlSend c) = on_connection s c (relay_send s c)"
| "relay_step env config s (RlWrite c) = on_connection s c (relay_write s c)"
| "relay_step env config s (RlEnd c) = on_connection s c (relay_end s c)"

subsection \<open>The invariant\<close>

text \<open>
  \<^verbatim>\<open>fetch_add\<close> wraps after \<open>2 ^ 64\<close> connections; the machine below stops before that, so that
  connection numbers are not used again.
\<close>

definition relay_step_bounded ::
    "relay_env \<Rightarrow> relay_config \<Rightarrow> relay_state \<Rightarrow> relay_op \<Rightarrow> relay_event \<times> relay_state" where
  "relay_step_bounded env config s x =
    (if rl_next_connection_id s = - 1 then (EvNothing, s) else relay_step env config s x)"

definition cn_place :: "relay_connection \<Rightarrow> u128 \<times> transport_path \<times> session_role" where
  "cn_place cn = (cn_session_id cn, cn_transport cn, cn_role cn)"

definition relay_ok :: "relay_state \<Rightarrow> bool" where
  "relay_ok s \<longleftrightarrow>
    (\<forall>i t r c. peer_at (rl_sessions s) i t r = Some c \<longleftrightarrow>
       (\<exists>cn. rl_connections s c = Some cn \<and> cn_place cn = (i, t, r)))
    \<and> (\<forall>c cn. rl_connections s c = Some cn \<longrightarrow>
         c < rl_next_connection_id s \<and> length (cn_queue cn) \<le> FRAME_QUEUE_CAPACITY)
    \<and> (\<forall>c cn d frame. rl_connections s c = Some cn \<longrightarrow> cn_pending cn = Some (d, frame) \<longrightarrow>
         d < rl_next_connection_id s
         \<and> (\<forall>peer. rl_connections s d = Some peer \<longrightarrow>
              cn_place peer = (cn_session_id cn, cn_transport cn, opposite_role (cn_role cn))))"

lemma relay_okD:
  assumes "relay_ok s"
  shows "peer_at (rl_sessions s) i t r = Some c \<longleftrightarrow> (\<exists>cn. rl_connections s c = Some cn \<and> cn_place cn = (i, t, r))"
    and "rl_connections s c = Some cn \<Longrightarrow> c < rl_next_connection_id s"
    and "rl_connections s c = Some cn \<Longrightarrow> length (cn_queue cn) \<le> FRAME_QUEUE_CAPACITY"
    and "rl_connections s c = Some cn \<Longrightarrow> cn_pending cn = Some (d, frame) \<Longrightarrow> d < rl_next_connection_id s"
    and "rl_connections s c = Some cn \<Longrightarrow> cn_pending cn = Some (d, frame) \<Longrightarrow> rl_connections s d = Some peer \<Longrightarrow>
      cn_place peer = (cn_session_id cn, cn_transport cn, opposite_role (cn_role cn))"
  using assms unfolding relay_ok_def by blast+

lemma relay_okI:
  assumes "\<And>i t r c. peer_at (rl_sessions s) i t r = Some c \<Longrightarrow> \<exists>cn. rl_connections s c = Some cn \<and> cn_place cn = (i, t, r)"
    and "\<And>c cn. rl_connections s c = Some cn \<Longrightarrow>
      peer_at (rl_sessions s) (cn_session_id cn) (cn_transport cn) (cn_role cn) = Some c"
    and "\<And>c cn. rl_connections s c = Some cn \<Longrightarrow> c < rl_next_connection_id s"
    and "\<And>c cn. rl_connections s c = Some cn \<Longrightarrow> length (cn_queue cn) \<le> FRAME_QUEUE_CAPACITY"
    and "\<And>c cn d frame. rl_connections s c = Some cn \<Longrightarrow> cn_pending cn = Some (d, frame) \<Longrightarrow> d < rl_next_connection_id s"
    and "\<And>c cn d frame peer. rl_connections s c = Some cn \<Longrightarrow> cn_pending cn = Some (d, frame) \<Longrightarrow>
      rl_connections s d = Some peer \<Longrightarrow>
      cn_place peer = (cn_session_id cn, cn_transport cn, opposite_role (cn_role cn))"
  shows "relay_ok s"
proof -
  have "peer_at (rl_sessions s) i t r = Some c \<longleftrightarrow> (\<exists>cn. rl_connections s c = Some cn \<and> cn_place cn = (i, t, r))" for i t r c
    using assms(1) [of i t r c] assms(2) [of c] by (auto simp: cn_place_def)
  with assms(3-6) show ?thesis unfolding relay_ok_def by blast
qed

lemma relay_ok_own:
  "relay_ok s \<Longrightarrow> rl_connections s c = Some cn \<Longrightarrow>
    peer_at (rl_sessions s) (cn_session_id cn) (cn_transport cn) (cn_role cn) = Some c"
  using relay_okD(1) by (auto simp: cn_place_def)

text \<open>Changing queues and pending frames of connections keeps the table right.\<close>

definition same_places :: "(u64 \<Rightarrow> relay_connection option) \<Rightarrow> (u64 \<Rightarrow> relay_connection option) \<Rightarrow> bool" where
  "same_places f g \<longleftrightarrow> (\<forall>c. map_option cn_place (f c) = map_option cn_place (g c))"

lemma relay_ok_update:
  assumes ok: "relay_ok s" and same: "same_places (rl_connections s) g"
    and queues: "\<And>c cn. g c = Some cn \<Longrightarrow> length (cn_queue cn) \<le> FRAME_QUEUE_CAPACITY"
    and pending: "\<And>c cn d frame. g c = Some cn \<Longrightarrow> cn_pending cn = Some (d, frame) \<Longrightarrow>
      (\<exists>cn'. rl_connections s c = Some cn' \<and> cn_pending cn' = Some (d, frame))
      \<or> peer_at (rl_sessions s) (cn_session_id cn) (cn_transport cn) (opposite_role (cn_role cn)) = Some d"
  shows "relay_ok (s\<lparr>rl_connections := g\<rparr>)"
proof -
  have place: "(\<exists>cn. g c = Some cn \<and> cn_place cn = z) \<longleftrightarrow> (\<exists>cn. rl_connections s c = Some cn \<and> cn_place cn = z)" for c z
    using same [unfolded same_places_def, rule_format, of c] by (cases "g c"; cases "rl_connections s c") auto
  have pend: "d < rl_next_connection_id s \<and> (\<forall>peer. g d = Some peer \<longrightarrow>
      cn_place peer = (cn_session_id cn, cn_transport cn, opposite_role (cn_role cn)))"
    if c: "g c = Some cn" "cn_pending cn = Some (d, frame)" for c cn d frame
  proof -
    obtain cn0 where cn0: "rl_connections s c = Some cn0" "cn_place cn0 = cn_place cn"
      using place [of c "cn_place cn"] c(1) by blast
    from pending [OF c] show ?thesis
    proof
      assume "\<exists>cn'. rl_connections s c = Some cn' \<and> cn_pending cn' = Some (d, frame)"
      then have p: "cn_pending cn0 = Some (d, frame)" using cn0(1) by simp
      have "cn_place peer = (cn_session_id cn, cn_transport cn, opposite_role (cn_role cn))" if gd: "g d = Some peer" for peer
      proof -
        obtain peer0 where "rl_connections s d = Some peer0" "cn_place peer0 = cn_place peer"
          using place [of d "cn_place peer"] gd by blast
        then show ?thesis using relay_okD(5) [OF ok cn0(1) p, of peer0] cn0(2) by (simp add: cn_place_def)
      qed
      then show ?thesis using relay_okD(4) [OF ok cn0(1) p] by blast
    next
      assume p: "peer_at (rl_sessions s) (cn_session_id cn) (cn_transport cn) (opposite_role (cn_role cn)) = Some d"
      then obtain cd where cd: "rl_connections s d = Some cd"
          "cn_place cd = (cn_session_id cn, cn_transport cn, opposite_role (cn_role cn))"
        using relay_okD(1) [OF ok] by blast
      then have "cn_place peer = cn_place cd" if "g d = Some peer" for peer
        using place [of d "cn_place peer"] that by simp
      then show ?thesis using relay_okD(2) [OF ok cd(1)] cd(2) by simp
    qed
  qed
  have bound: "c < rl_next_connection_id s" if "g c = Some cn" for c cn
    using place [of c "cn_place cn"] that relay_okD(2) [OF ok] by blast
  have own: "peer_at (rl_sessions s) (cn_session_id cn) (cn_transport cn) (cn_role cn) = Some c"
    if gc: "g c = Some cn" for c cn
  proof -
    obtain cn0 where "rl_connections s c = Some cn0" "cn_place cn0 = cn_place cn"
      using place [of c "cn_place cn"] gc by blast
    then show ?thesis using relay_ok_own [OF ok, of c cn0] by (simp add: cn_place_def)
  qed
  have table: "\<exists>cn. g c = Some cn \<and> cn_place cn = (i, t, r)" if "peer_at (rl_sessions s) i t r = Some c" for i t r c
    using place [of c "(i, t, r)"] that relay_okD(1) [OF ok] by blast
  show ?thesis
  proof (rule relay_okI, goal_cases)
    case (1 i t r c)
    then show ?case using table by simp
  next
    case (2 c cn)
    then show ?case using own by simp
  next
    case (3 c cn)
    then show ?case using bound by simp
  next
    case (4 c cn)
    then show ?case using queues by simp
  next
    case (5 c cn d frame)
    then show ?case using pend [of c cn d frame] by simp
  next
    case (6 c cn d frame peer)
    then show ?case using pend [of c cn d frame] by simp
  qed
qed

lemma relay_end_ok:
  assumes ok: "relay_ok s" and c: "rl_connections s c = Some cn"
  shows "relay_ok (snd (relay_end s c cn))"
proof -
  let ?s = "snd (relay_end s c cn)"
  have conn: "rl_connections ?s x = Some y \<longleftrightarrow> x \<noteq> c \<and> rl_connections s x = Some y" for x y
    by (simp add: relay_end_def)
  have table: "peer_at (rl_sessions ?s) i t r =
      (if (i, t, r) = cn_place cn then None else peer_at (rl_sessions s) i t r)" for i t r
    using relay_ok_own [OF ok c] by (auto simp: relay_end_def peer_at_remove cn_place_def)
  have id: "rl_next_connection_id ?s = rl_next_connection_id s" by (simp add: relay_end_def)
  show ?thesis
  proof (rule relay_okI)
    fix i t r x
    assume "peer_at (rl_sessions ?s) i t r = Some x"
    then have "(i, t, r) \<noteq> cn_place cn" "peer_at (rl_sessions s) i t r = Some x"
      by (simp_all add: table split: if_splits)
    then show "\<exists>cn. rl_connections ?s x = Some cn \<and> cn_place cn = (i, t, r)"
      using relay_okD(1) [OF ok, of i t r x] c by (auto simp: conn)
  next
    fix x y
    assume "rl_connections ?s x = Some y"
    then have "x \<noteq> c" "rl_connections s x = Some y" by (simp_all add: conn)
    moreover from this have "cn_place y \<noteq> cn_place cn"
      using relay_ok_own [OF ok, of x y] relay_ok_own [OF ok c] by (auto simp: cn_place_def)
    ultimately show "peer_at (rl_sessions ?s) (cn_session_id y) (cn_transport y) (cn_role y) = Some x"
      using relay_ok_own [OF ok, of x y] by (simp add: table cn_place_def)
  qed (use relay_okD(2-5) [OF ok] in \<open>auto simp: conn id\<close>)
qed

lemma relay_ok_cong:
  assumes ok: "relay_ok s" and "rl_connections s' = rl_connections s" "rl_next_connection_id s \<le> rl_next_connection_id s'"
    and "\<And>i t r. peer_at (rl_sessions s') i t r = peer_at (rl_sessions s) i t r"
  shows "relay_ok s'"
proof -
  note D = relay_okD [OF ok] and le = less_le_trans [OF _ assms(3)]
  show ?thesis
  proof (rule relay_okI, unfold assms(2,4), goal_cases)
    case (3 c cn)
    then show ?case using D(2) le by blast
  next
    case (5 c cn d frame)
    then show ?case using D(4) le by blast
  qed (use D(1,3,5) relay_ok_own [OF ok] in blast)+
qed

lemma less_next:
  assumes "(n :: 'a::len word) \<noteq> - 1"
  shows "n < n + 1"
proof -
  have "unat n + 1 \<noteq> 2 ^ LENGTH('a)"
  proof
    assume "unat n + 1 = 2 ^ LENGTH('a)"
    then have "(of_nat (unat n + 1) :: 'a word) = of_nat (2 ^ LENGTH('a))" by (rule arg_cong)
    then have "n + 1 = 0" by (simp add: add.commute)
    with assms show False by (simp add: eq_neg_iff_add_eq_0)
  qed
  then have "unat n + 1 < 2 ^ LENGTH('a)" using unat_bound [of n] by linarith
  then show ?thesis by (simp add: word_less_nat_alt unat_word_ariths)
qed

lemma relay_open_cases:
  obtains (refused) e where "open_checked env config (rl_node_enabled s) p t now = Inl e \<or>
      open_checked env config (rl_node_enabled s) p t now = Inr ()"
      "relay_open_stream env config s p t now =
        (EvRefused e, s\<lparr>rl_replays := snd (authenticate_open env config (rl_node_enabled s) (rl_replays s) p t now)\<rparr>)"
  | (busy) "relay_open_stream env config s p t now =
        (EvAlreadyConnected, s\<lparr>rl_replays := snd (authenticate_open env config (rl_node_enabled s) (rl_replays s) p t now),
           rl_next_connection_id := rl_next_connection_id s + 1,
           rl_sessions := snd (peers_register (rl_sessions s) (ro_session_id p) (ro_transport p) (ro_role p) (rl_next_connection_id s))\<rparr>)"
      "peer_at (rl_sessions s) (ro_session_id p) (ro_transport p) (ro_role p) \<noteq> None"
  | (opened) "open_checked env config (rl_node_enabled s) p t now = Inr ()"
      "peer_at (rl_sessions s) (ro_session_id p) (ro_transport p) (ro_role p) = None"
      "relay_open_stream env config s p t now =
        (EvOpened (rl_next_connection_id s), s\<lparr>rl_replays := snd (authenticate_open env config (rl_node_enabled s) (rl_replays s) p t now),
           rl_next_connection_id := rl_next_connection_id s + 1,
           rl_sessions := snd (peers_register (rl_sessions s) (ro_session_id p) (ro_transport p) (ro_role p) (rl_next_connection_id s)),
           rl_connections := (rl_connections s)(rl_next_connection_id s \<mapsto>
                        \<lparr>cn_session_id = ro_session_id p, cn_transport = ro_transport p, cn_role = ro_role p,
                         cn_queue = [], cn_pending = None\<rparr>)\<rparr>)"
proof -
  let ?a = "authenticate_open env config (rl_node_enabled s) (rl_replays s) p t now"
  let ?r = "peers_register (rl_sessions s) (ro_session_id p) (ro_transport p) (ro_role p) (rl_next_connection_id s)"
  show thesis
  proof (cases "fst ?a")
    case (Inl e)
    have "open_checked env config (rl_node_enabled s) p t now = Inl e \<or>
      open_checked env config (rl_node_enabled s) p t now = Inr ()"
      using Inl by (auto simp: authenticate_open_def split: sum.splits)
    then show thesis
      using Inl by (intro refused [of e]) (simp_all add: relay_open_stream_def Let_def case_prod_beta)
  next
    case (Inr d)
    then have checked: "open_checked env config (rl_node_enabled s) p t now = Inr ()"
      by (simp add: authenticate_open_ok)
    show thesis
    proof (cases "peer_at (rl_sessions s) (ro_session_id p) (ro_transport p) (ro_role p) = None")
      case True
      then have "fst ?r = Inr ()" by (simp add: peer_at_register)
      then show thesis
        using Inr True checked by (intro opened) (simp_all add: relay_open_stream_def Let_def case_prod_beta)
    next
      case False
      then have "fst ?r \<noteq> Inr ()" by (simp add: peer_at_register)
      then obtain m where "fst ?r = Inl m" by (cases "fst ?r") auto
      then show thesis
        using Inr False by (intro busy) (simp_all add: relay_open_stream_def Let_def case_prod_beta)
    qed
  qed
qed

lemma relay_open_ok:
  assumes ok: "relay_ok s" and bound: "rl_next_connection_id s \<noteq> - 1"
  shows "relay_ok (snd (relay_open_stream env config s p t now))"
proof (cases rule: relay_open_cases [of env config s p t now])
  case (refused e)
  then show ?thesis by (intro relay_ok_cong [OF ok]) simp_all
next
  case busy
  then show ?thesis
    using less_imp_le [OF less_next [OF bound]] by (intro relay_ok_cong [OF ok]) (simp_all add: peer_at_register)
next
  case opened
  let ?n = "rl_next_connection_id s" and ?place = "(ro_session_id p, ro_transport p, ro_role p)"
  let ?s = "snd (relay_open_stream env config s p t now)"
  let ?new = "\<lparr>cn_session_id = ro_session_id p, cn_transport = ro_transport p, cn_role = ro_role p,
      cn_queue = [], cn_pending = None\<rparr>"
  have n: "?n < ?n + 1" by (rule less_next [OF bound])
  have conn: "rl_connections ?s x = (if x = ?n then Some ?new else rl_connections s x)" for x
    by (simp add: opened(3))
  have id: "rl_next_connection_id ?s = ?n + 1" by (simp add: opened(3))
  have table: "peer_at (rl_sessions ?s) i t r = (if (i, t, r) = ?place then Some ?n else peer_at (rl_sessions s) i t r)" for i t r
    using opened(2) by (auto simp: opened(3) peer_at_register)
  have old: "c \<noteq> ?n \<and> c < ?n + 1 \<and> cn_place cn \<noteq> ?place" if "rl_connections s c = Some cn" for c cn
    using relay_okD(2) [OF ok that] relay_ok_own [OF ok that] n opened(2)
    by (auto simp: cn_place_def intro: order.strict_trans)
  show ?thesis
  proof (rule relay_okI)
    fix i t r x
    assume "peer_at (rl_sessions ?s) i t r = Some x"
    then show "\<exists>cn. rl_connections ?s x = Some cn \<and> cn_place cn = (i, t, r)"
      using relay_okD(1) [OF ok, of i t r x] old [of x]
      by (cases "(i, t, r) = ?place") (auto simp: table conn cn_place_def)
  next
    fix x y
    assume "rl_connections ?s x = Some y"
    then show "peer_at (rl_sessions ?s) (cn_session_id y) (cn_transport y) (cn_role y) = Some x"
      using relay_ok_own [OF ok, of x y] old [of x y]
      by (cases "x = ?n") (auto simp: table conn cn_place_def)
  next
    fix c cn d frame
    assume "rl_connections ?s c = Some cn" "cn_pending cn = Some (d, frame)"
    then have c: "rl_connections s c = Some cn" "cn_pending cn = Some (d, frame)"
      by (auto simp: conn split: if_splits)
    then show "d < rl_next_connection_id ?s"
      using relay_okD(4) [OF ok c] n by (simp add: id)
    fix peer
    assume "rl_connections ?s d = Some peer"
    then show "cn_place peer = (cn_session_id cn, cn_transport cn, opposite_role (cn_role cn))"
      using relay_okD(4,5) [OF ok c] by (simp add: conn split: if_splits)
  next
    fix c cn
    assume "rl_connections ?s c = Some cn"
    then show "c < rl_next_connection_id ?s" "length (cn_queue cn) \<le> FRAME_QUEUE_CAPACITY"
      using relay_okD(3) [OF ok, of c cn] old [of c cn] n by (auto simp: id conn split: if_splits)
  qed
qed

lemma relay_step_ok:
  assumes ok: "relay_ok s"
  shows "relay_ok (snd (relay_step_bounded env config s x))"
proof (cases "rl_next_connection_id s = - 1")
  case False
  show ?thesis
  proof (cases x)
    case (RlSetEnabled b)
    then show ?thesis
      using ok False by (simp add: relay_step_bounded_def set_node_enabled_def relay_ok_def)
  next
    case (RlOpen p t now)
    then show ?thesis using relay_open_ok [OF ok False] False by (simp add: relay_step_bounded_def)
  next
    case (RlRead c frame)
    show ?thesis
    proof (cases "rl_connections s c")
      case (Some cn)
      have "relay_ok (s\<lparr>rl_connections := (rl_connections s)(c \<mapsto> cn\<lparr>cn_pending := Some (d, frame)\<rparr>)\<rparr>)"
        if "peer_at (rl_sessions s) (cn_session_id cn) (cn_transport cn) (opposite_role (cn_role cn)) = Some d" for d
        using relay_okD(3) [OF ok] Some that
        by (intro relay_ok_update [OF ok]) (auto simp: same_places_def cn_place_def split: if_splits)
      then show ?thesis
        using RlRead Some False ok relay_end_ok [OF ok Some]
        by (auto simp: relay_step_bounded_def on_connection_def relay_read_def forward_lookup_ok split: sum.split)
    qed (use RlRead False ok in \<open>simp add: relay_step_bounded_def on_connection_def\<close>)
  next
    case (RlSend c)
    show ?thesis
    proof (cases "rl_connections s c")
      case (Some cn)
      have "relay_ok (s\<lparr>rl_connections := (rl_connections s)(d \<mapsto> peer\<lparr>cn_queue := cn_queue peer @ [frame]\<rparr>,
          c \<mapsto> cn\<lparr>cn_pending := None\<rparr>)\<rparr>)"
        if d: "rl_connections s d = Some peer" "\<not> FRAME_QUEUE_CAPACITY \<le> length (cn_queue peer)" for d peer frame
        using relay_okD(3) [OF ok] Some d
        by (intro relay_ok_update [OF ok]) (auto simp: same_places_def cn_place_def split: if_splits)
      then show ?thesis
        using RlSend Some False ok relay_end_ok [OF ok Some]
        by (auto simp: relay_step_bounded_def on_connection_def relay_send_def split: option.split)
    qed (use RlSend False ok in \<open>simp add: relay_step_bounded_def on_connection_def\<close>)
  next
    case (RlWrite c)
    show ?thesis
    proof (cases "rl_connections s c")
      case (Some cn)
      have "relay_ok (s\<lparr>rl_connections := (rl_connections s)(c \<mapsto> cn\<lparr>cn_queue := rest\<rparr>)\<rparr>)"
        if "cn_queue cn = frame # rest" for frame rest
        using relay_okD(3) [OF ok] relay_okD(3) [OF ok Some] Some that
        by (intro relay_ok_update [OF ok]) (auto simp: same_places_def cn_place_def split: if_splits)
      then show ?thesis
        using RlWrite Some False ok
        by (auto simp: relay_step_bounded_def on_connection_def relay_write_def split: list.split)
    qed (use RlWrite False ok in \<open>simp add: relay_step_bounded_def on_connection_def\<close>)
  next
    case (RlEnd c)
    then show ?thesis
      using False ok relay_end_ok [OF ok]
      by (cases "rl_connections s c") (simp_all add: relay_step_bounded_def on_connection_def)
  qed
qed (use ok in \<open>simp add: relay_step_bounded_def\<close>)

interpretation relay_machine: guarded_machine "relay_step_bounded env config" relay_ok for env config
  by unfold_locales (rule relay_step_ok)

lemma relay_init_ok: "relay_ok relay_init"
  by (simp add: relay_ok_def relay_init_def peer_at_def)

subsection \<open>Frames stay in order and unaltered\<close>

definition queue_of :: "u64 \<Rightarrow> relay_state \<Rightarrow> bytes list" where
  "queue_of d s = (case rl_connections s d of None \<Rightarrow> [] | Some cn \<Rightarrow> cn_queue cn)"

definition pending_of :: "u64 \<Rightarrow> relay_state \<Rightarrow> bytes list" where
  "pending_of c s =
    (case rl_connections s c of
       None \<Rightarrow> []
     | Some cn \<Rightarrow> (case cn_pending cn of None \<Rightarrow> [] | Some (_, frame) \<Rightarrow> [frame]))"

text \<open>What an event adds to the frames sent to, written on, read from and sent by a connection.\<close>

fun sent_to :: "u64 \<Rightarrow> relay_op \<Rightarrow> relay_event \<Rightarrow> bytes list" where
  "sent_to d x (EvSent c e frame) = (if e = d then [frame] else [])"
| "sent_to d x _ = []"

fun leaves_queue :: "u64 \<Rightarrow> relay_op \<Rightarrow> relay_event \<Rightarrow> bytes list" where
  "leaves_queue d x (EvWrote c frame) = (if c = d then [frame] else [])"
| "leaves_queue d x (EvEnded c queue pending) = (if c = d then queue else [])"
| "leaves_queue d x _ = []"

fun read_from :: "u64 \<Rightarrow> relay_op \<Rightarrow> relay_event \<Rightarrow> bytes list" where
  "read_from c x (EvRead e frame) = (if e = c then [frame] else [])"
| "read_from c x _ = []"

fun leaves_pending :: "u64 \<Rightarrow> relay_op \<Rightarrow> relay_event \<Rightarrow> bytes list" where
  "leaves_pending c x (EvSent e d frame) = (if e = c then [frame] else [])"
| "leaves_pending c x (EvEnded e queue pending) = (if e = c then pending else [])"
| "leaves_pending c x _ = []"

lemma opposite_place: "opposite_role r \<noteq> r"
  by (cases r) simp_all

lemma pending_other:
  assumes "relay_ok s" "rl_connections s c = Some cn" "cn_pending cn = Some (c, frame)"
  shows False
  using relay_okD(5) [OF assms assms(2)] opposite_place [of "cn_role cn"] by (simp add: cn_place_def)

lemma end_queues:
  assumes "rl_connections s c = Some cn"
  shows "queue_of d s = leaves_queue d x (fst (relay_end s c cn)) @ queue_of d (snd (relay_end s c cn))"
    "sent_to d x (fst (relay_end s c cn)) = []" "read_from d x (fst (relay_end s c cn)) = []"
    "pending_of d s = leaves_pending d x (fst (relay_end s c cn)) @ pending_of d (snd (relay_end s c cn))"
  using assms by (auto simp: relay_end_def queue_of_def pending_of_def split: option.split)

lemma open_queues:
  assumes "relay_ok s" "rl_next_connection_id s \<noteq> - 1"
  shows "queue_of d (snd (relay_open_stream env config s p t now)) = queue_of d s"
    "pending_of d (snd (relay_open_stream env config s p t now)) = pending_of d s"
    "sent_to d x (fst (relay_open_stream env config s p t now)) = []"
    "leaves_queue d x (fst (relay_open_stream env config s p t now)) = []"
    "read_from d x (fst (relay_open_stream env config s p t now)) = []"
    "leaves_pending d x (fst (relay_open_stream env config s p t now)) = []"
proof -
  have "rl_connections s (rl_next_connection_id s) = None"
    using relay_okD(2) [OF assms(1), of "rl_next_connection_id s"]
    by (cases "rl_connections s (rl_next_connection_id s)") auto
  then have "queue_of d (snd (relay_open_stream env config s p t now)) = queue_of d s
    \<and> pending_of d (snd (relay_open_stream env config s p t now)) = pending_of d s
    \<and> sent_to d x (fst (relay_open_stream env config s p t now)) = []
    \<and> leaves_queue d x (fst (relay_open_stream env config s p t now)) = []
    \<and> read_from d x (fst (relay_open_stream env config s p t now)) = []
    \<and> leaves_pending d x (fst (relay_open_stream env config s p t now)) = []"
    by (cases rule: relay_open_cases [of env config s p t now]) (auto simp: queue_of_def pending_of_def)
  then show "queue_of d (snd (relay_open_stream env config s p t now)) = queue_of d s"
    "pending_of d (snd (relay_open_stream env config s p t now)) = pending_of d s"
    "sent_to d x (fst (relay_open_stream env config s p t now)) = []"
    "leaves_queue d x (fst (relay_open_stream env config s p t now)) = []"
    "read_from d x (fst (relay_open_stream env config s p t now)) = []"
    "leaves_pending d x (fst (relay_open_stream env config s p t now)) = []" by blast+
qed

lemma send_queues:
  assumes ok: "relay_ok s" and c: "rl_connections s c = Some cn"
  shows "queue_of d s @ sent_to d x (fst (relay_send s c cn)) =
      leaves_queue d x (fst (relay_send s c cn)) @ queue_of d (snd (relay_send s c cn))"
    "pending_of d s @ read_from d x (fst (relay_send s c cn)) =
      leaves_pending d x (fst (relay_send s c cn)) @ pending_of d (snd (relay_send s c cn))"
proof -
  show "queue_of d s @ sent_to d x (fst (relay_send s c cn)) =
      leaves_queue d x (fst (relay_send s c cn)) @ queue_of d (snd (relay_send s c cn))"
  proof (cases "cn_pending cn")
    case (Some q)
    obtain e frame where q: "q = (e, frame)" by fastforce
    then have "e \<noteq> c" using pending_other [OF ok c] Some by auto
    then show ?thesis
      using Some q c end_queues(1,2) [OF c, of d x]
      by (cases "rl_connections s e") (auto simp: relay_send_def queue_of_def)
  qed (simp add: relay_send_def)
  show "pending_of d s @ read_from d x (fst (relay_send s c cn)) =
      leaves_pending d x (fst (relay_send s c cn)) @ pending_of d (snd (relay_send s c cn))"
  proof (cases "cn_pending cn")
    case (Some q)
    obtain e frame where q: "q = (e, frame)" by fastforce
    then have "e \<noteq> c" using pending_other [OF ok c] Some by auto
    then show ?thesis
      using Some q c end_queues(3,4) [OF c, of d x]
      by (cases "rl_connections s e") (auto simp: relay_send_def pending_of_def)
  qed (simp add: relay_send_def)
qed

lemma read_queues:
  assumes c: "rl_connections s c = Some cn"
  shows "queue_of d s @ sent_to d x (fst (relay_read s c cn frame)) =
      leaves_queue d x (fst (relay_read s c cn frame)) @ queue_of d (snd (relay_read s c cn frame))"
    "pending_of d s @ read_from d x (fst (relay_read s c cn frame)) =
      leaves_pending d x (fst (relay_read s c cn frame)) @ pending_of d (snd (relay_read s c cn frame))"
proof -
  show "queue_of d s @ sent_to d x (fst (relay_read s c cn frame)) =
      leaves_queue d x (fst (relay_read s c cn frame)) @ queue_of d (snd (relay_read s c cn frame))"
    using c end_queues(1,2) [OF c, of d x] by (auto simp: relay_read_def queue_of_def split: sum.split)
  show "pending_of d s @ read_from d x (fst (relay_read s c cn frame)) =
      leaves_pending d x (fst (relay_read s c cn frame)) @ pending_of d (snd (relay_read s c cn frame))"
    using c end_queues(3,4) [OF c, of d x]
    by (cases "cn_pending cn") (auto simp: relay_read_def pending_of_def split: sum.split)
qed

lemma relay_step_queue:
  assumes ok: "relay_ok s"
  shows "queue_of d s @ sent_to d x (fst (relay_step_bounded env config s x)) =
    leaves_queue d x (fst (relay_step_bounded env config s x)) @ queue_of d (snd (relay_step_bounded env config s x))"
proof (cases "rl_next_connection_id s = - 1")
  case False
  show ?thesis
  proof (cases x)
    case (RlOpen p t now)
    then show ?thesis using open_queues [OF ok False] False by (simp add: relay_step_bounded_def)
  next
    case (RlRead c frame)
    then show ?thesis
      using False read_queues(1) [of s c]
      by (cases "rl_connections s c") (simp_all add: relay_step_bounded_def on_connection_def)
  next
    case (RlSend c)
    then show ?thesis
      using False send_queues(1) [OF ok, of c]
      by (cases "rl_connections s c") (simp_all add: relay_step_bounded_def on_connection_def)
  next
    case (RlWrite c)
    then show ?thesis
      using False
      by (cases "rl_connections s c")
        (auto simp: relay_step_bounded_def on_connection_def relay_write_def queue_of_def split: list.split)
  next
    case (RlEnd c)
    then show ?thesis
      using False end_queues [of s c]
      by (cases "rl_connections s c") (auto simp: relay_step_bounded_def on_connection_def)
  qed (simp add: relay_step_bounded_def set_node_enabled_def queue_of_def)
qed (simp add: relay_step_bounded_def)

lemma relay_step_pending:
  assumes ok: "relay_ok s"
  shows "pending_of d s @ read_from d x (fst (relay_step_bounded env config s x)) =
    leaves_pending d x (fst (relay_step_bounded env config s x)) @ pending_of d (snd (relay_step_bounded env config s x))"
proof (cases "rl_next_connection_id s = - 1")
  case False
  show ?thesis
  proof (cases x)
    case (RlOpen p t now)
    then show ?thesis using open_queues [OF ok False] False by (simp add: relay_step_bounded_def)
  next
    case (RlRead c frame)
    then show ?thesis
      using False read_queues(2) [of s c]
      by (cases "rl_connections s c") (simp_all add: relay_step_bounded_def on_connection_def)
  next
    case (RlSend c)
    then show ?thesis
      using False send_queues(2) [OF ok, of c]
      by (cases "rl_connections s c") (simp_all add: relay_step_bounded_def on_connection_def)
  next
    case (RlWrite c)
    then show ?thesis
      using False
      by (cases "rl_connections s c")
        (auto simp: relay_step_bounded_def on_connection_def relay_write_def pending_of_def split: list.split)
  next
    case (RlEnd c)
    then show ?thesis
      using False end_queues [of s c]
      by (cases "rl_connections s c") (auto simp: relay_step_bounded_def on_connection_def)
  qed (simp add: relay_step_bounded_def set_node_enabled_def pending_of_def)
qed (simp add: relay_step_bounded_def)

interpretation relay_queue: fifo_machine "relay_step_bounded env config" relay_ok
  "queue_of d" "sent_to d" "leaves_queue d" for env config d
  by unfold_locales (rule relay_step_queue)

interpretation relay_reads: fifo_machine "relay_step_bounded env config" relay_ok
  "pending_of c" "read_from c" "leaves_pending c" for env config c
  by unfold_locales (rule relay_step_pending)

subsection \<open>Sessions are isolated\<close>

text \<open>The trace shows that a connection was opened for this place by an open that passed every check.\<close>

definition admitted ::
    "relay_env \<Rightarrow> relay_config \<Rightarrow> (relay_op \<times> relay_event) list \<Rightarrow> u64 \<Rightarrow> u128 \<Rightarrow> transport_path \<Rightarrow> session_role \<Rightarrow> bool" where
  "admitted env config trace c i t r \<longleftrightarrow>
    (\<exists>p now. (RlOpen p t now, EvOpened c) \<in> set trace \<and> open_checked env config True p t now = Inr ()
      \<and> ro_session_id p = i \<and> ro_transport p = t \<and> ro_role p = r)"

lemma admitted_mono: "set xs \<subseteq> set ys \<Longrightarrow> admitted env config xs c i t r \<Longrightarrow> admitted env config ys c i t r"
  unfolding admitted_def by blast

lemma end_connections: "rl_connections (snd (relay_end s c cn)) = (rl_connections s)(c := None)"
  by (simp add: relay_end_def)

text \<open>A step keeps the place of a connection, or opens it.\<close>

lemma step_place:
  assumes "rl_connections (snd (relay_step_bounded env config s x)) c = Some cn"
  shows "(\<exists>cn0. rl_connections s c = Some cn0 \<and> cn_place cn0 = cn_place cn)
    \<or> (\<exists>p t now. x = RlOpen p t now \<and> fst (relay_step_bounded env config s x) = EvOpened c
        \<and> open_checked env config (rl_node_enabled s) p t now = Inr ()
        \<and> cn_place cn = (ro_session_id p, ro_transport p, ro_role p))"
proof (cases "rl_next_connection_id s = - 1")
  case False
  show ?thesis
  proof (cases x)
    case (RlOpen p t now)
    show ?thesis
      using assms RlOpen False
      by (cases rule: relay_open_cases [of env config s p t now])
        (auto simp: relay_step_bounded_def cn_place_def split: if_splits)
  next
    case (RlRead e frame)
    then show ?thesis
      using assms False
      by (auto simp: relay_step_bounded_def on_connection_def relay_read_def end_connections cn_place_def
          split: option.splits sum.splits if_splits)
  next
    case (RlSend e)
    then show ?thesis
      using assms False
      by (auto simp: relay_step_bounded_def on_connection_def relay_send_def end_connections cn_place_def
          split: option.splits if_splits prod.splits)
  next
    case (RlWrite e)
    then show ?thesis
      using assms False
      by (auto simp: relay_step_bounded_def on_connection_def relay_write_def cn_place_def
          split: option.splits list.splits if_splits)
  next
    case (RlEnd e)
    then show ?thesis
      using assms False
      by (auto simp: relay_step_bounded_def on_connection_def end_connections split: option.splits if_splits)
  qed (use assms False in \<open>auto simp: relay_step_bounded_def set_node_enabled_def\<close>)
qed (use assms in \<open>auto simp: relay_step_bounded_def\<close>)

lemma run_admitted:
  "rl_connections (snd (run_ops (relay_step_bounded env config) relay_init xs)) c = Some cn \<Longrightarrow>
    admitted env config (fst (run_ops (relay_step_bounded env config) relay_init xs)) c
      (cn_session_id cn) (cn_transport cn) (cn_role cn)"
proof (induction xs arbitrary: cn rule: rev_induct)
  case Nil
  then show ?case by (simp add: relay_init_def)
next
  case (snoc x xs)
  let ?s = "snd (run_ops (relay_step_bounded env config) relay_init xs)"
  have "rl_connections (snd (relay_step_bounded env config ?s x)) c = Some cn"
    using snoc.prems by (simp add: run_snoc)
  from step_place [OF this] show ?case
  proof
    assume "\<exists>cn0. rl_connections ?s c = Some cn0 \<and> cn_place cn0 = cn_place cn"
    then show ?thesis
      using snoc.IH by (auto simp: run_snoc cn_place_def intro: admitted_mono [rotated])
  next
    assume "\<exists>p t now. x = RlOpen p t now \<and> fst (relay_step_bounded env config ?s x) = EvOpened c
        \<and> open_checked env config (rl_node_enabled ?s) p t now = Inr ()
        \<and> cn_place cn = (ro_session_id p, ro_transport p, ro_role p)"
    then obtain p t now where o: "x = RlOpen p t now" "fst (relay_step_bounded env config ?s x) = EvOpened c"
      "open_checked env config (rl_node_enabled ?s) p t now = Inr ()"
      "cn_place cn = (ro_session_id p, ro_transport p, ro_role p)" by blast
    then have "rl_node_enabled ?s" "ro_transport p = t" using open_checked_facts(1,3) by blast+
    with o show ?thesis unfolding admitted_def run_snoc by (auto simp: cn_place_def)
  qed
qed

lemma sent_between_peers:
  assumes ok: "relay_ok s" and sent: "fst (relay_step_bounded env config s x) = EvSent c d frame"
  shows "\<exists>cn peer. rl_connections s c = Some cn \<and> rl_connections s d = Some peer
    \<and> cn_place peer = (cn_session_id cn, cn_transport cn, opposite_role (cn_role cn))"
proof -
  have bound: "rl_next_connection_id s \<noteq> - 1" using sent by (auto simp: relay_step_bounded_def split: if_splits)
  have "\<exists>cn. x = RlSend c \<and> rl_connections s c = Some cn \<and> cn_pending cn = Some (d, frame) \<and> rl_connections s d \<noteq> None"
  proof (cases x)
    case (RlOpen p t now)
    then show ?thesis
      using sent bound open_queues(6) [OF ok bound, of c x env config p t now] by (simp add: relay_step_bounded_def)
  qed (use sent bound in \<open>auto simp: relay_step_bounded_def on_connection_def relay_read_def relay_send_def
        relay_write_def relay_end_def split: option.splits sum.splits list.splits if_splits\<close>)
  then show ?thesis using relay_okD(5) [OF ok] by blast
qed

lemma sent_admitted:
  assumes "(x, EvSent c d frame) \<in> set (fst (run_ops (relay_step_bounded env config) relay_init xs))"
  shows "\<exists>i t r. admitted env config (fst (run_ops (relay_step_bounded env config) relay_init xs)) c i t r
    \<and> admitted env config (fst (run_ops (relay_step_bounded env config) relay_init xs)) d i t (opposite_role r)"
proof -
  let ?step = "relay_step_bounded env config"
  obtain n where n: "fst (?step (snd (run_ops ?step relay_init (take n xs))) x) = EvSent c d frame"
    using run_ops_member [OF assms] by metis
  let ?s = "snd (run_ops ?step relay_init (take n xs))"
  have "relay_ok ?s" by (rule relay_machine.run_inv [OF relay_init_ok])
  from sent_between_peers [OF this n] obtain cn peer where
    p: "rl_connections ?s c = Some cn" "rl_connections ?s d = Some peer"
      "cn_place peer = (cn_session_id cn, cn_transport cn, opposite_role (cn_role cn))" by blast
  have "set (fst (run_ops ?step relay_init (take n xs))) \<subseteq> set (fst (run_ops ?step relay_init xs))"
    by (simp add: run_ops_take_prefix set_take_subset)
  note whole = admitted_mono [OF this]
  show ?thesis
    using whole [OF run_admitted [OF p(1)]] whole [OF run_admitted [OF p(2)]] p(3)
    by (intro exI [of _ "cn_session_id cn"] exI [of _ "cn_transport cn"] exI [of _ "cn_role cn"])
      (simp add: cn_place_def)
qed

text \<open>A run of fewer than \<open>2 ^ 64 - 1\<close> operations never reaches the last number.\<close>

lemma step_next:
  "rl_next_connection_id (snd (relay_step env config s x)) \<in> {rl_next_connection_id s, rl_next_connection_id s + 1}"
proof (cases x)
  case (RlOpen p t now)
  show ?thesis
    unfolding RlOpen relay_step.simps by (cases rule: relay_open_cases [of env config s p t now]) simp_all
qed (auto simp: set_node_enabled_def on_connection_def relay_read_def relay_send_def relay_write_def relay_end_def
      split: option.split sum.split list.split)

lemma bounded_run:
  "unat (rl_next_connection_id s) + length xs < 2 ^ 64 \<Longrightarrow>
    run_ops (relay_step_bounded env config) s xs = run_ops (relay_step env config) s xs"
proof (induction xs arbitrary: s)
  case (Cons x xs)
  let ?n = "rl_next_connection_id s"
  have n: "?n \<noteq> - 1"
  proof
    assume "?n = - 1"
    then show False using Cons.prems by (simp add: unsigned_minus_1_eq_mask mask_eq_exp_minus_1)
  qed
  have "unat (?n + 1) \<le> unat ?n + 1" by (simp add: unat_word_ariths)
  then have "unat (rl_next_connection_id (snd (relay_step env config s x))) + length xs < 2 ^ 64"
    using step_next [of env config s x] Cons.prems by auto
  from Cons.IH [OF this] n show ?case by (simp add: run_ops_Cons_simp relay_step_bounded_def del: run_ops.simps(2))
qed simp

end
