(* ===== verification/Rc_SignalAuth.thy ===== *)
theory Rc_SignalAuth
  imports Rc_Expiry Rc_Observe Rc_Transfer Rc_Target
begin

section \<open>The signal server: authentication of a device\<close>

text \<open>
  \<^verbatim>\<open>services/signal-server/src/security.rs\<close>, the device directory and the hello exchange of
  \<^verbatim>\<open>services/signal-server/src/lib.rs\<close>, and its client side, the state machine of
  \<^verbatim>\<open>apps/desktop/src/signal.rs\<close>. Base64, JSON and HTTP are third-party and stand in the record
  \<open>signal_env\<close>; \<open>'j\<close> is the type of JSON values. Random values are arguments. The messages
  between the sides are records: their JSON text is not modelled.
\<close>

definition SUPPORTED_PROTOCOL_VERSIONS :: "u16 list" where
  "SUPPORTED_PROTOCOL_VERSIONS = [PROTOCOL_VERSION]"

definition HELLO_WINDOW_MILLIS :: u64 where
  "HELLO_WINDOW_MILLIS = 30000"

definition HELLO_TTL_MILLIS :: u64 where
  "HELLO_TTL_MILLIS = 30000"

definition MAX_MEMORY_REPLAY_ENTRIES :: nat where
  "MAX_MEMORY_REPLAY_ENTRIES = 10000"

record protocol_negotiation =
  pn_client_versions :: "u16 list"
  pn_client_min_version :: u16
  pn_selected_version :: u16
  pn_versions_hash :: bytes

record access_claims =
  ac_account_id :: string
  ac_account_session_id :: string
  ac_issued_at_epoch_millis :: u64
  ac_expires_at_epoch_millis :: u64
  ac_mfa_verified :: bool
  ac_token_type :: string

datatype security_error =
    SeInvalidToken
  | SeExpiredToken
  | SeInvalidProtocolHeader
  | SeUnsupportedVersion
  | SeInvalidEncoding
  | SeInvalidHash
  | SeInvalidSignature
  | SeTimestampOutsideWindow

record device_auth_request =
  dq_access_token :: string
  dq_account_id :: string
  dq_device_id :: string
  dq_public_key_id :: string
  dq_public_key_version :: u32

record device_auth_response =
  dr_authorized :: bool
  dr_account_id :: string
  dr_device_id :: string
  dr_public_key :: string
  dr_public_key_id :: string
  dr_public_key_version :: u32
  dr_access_token_expires_at_epoch_millis :: u64

record 'j signal_env =
  sv_primitives :: primitives
  \<comment> \<open>\<^verbatim>\<open>URL_SAFE_NO_PAD\<close>\<close>
  sv_base64 :: "string \<Rightarrow> bytes option"
  sv_base64_encode :: "bytes \<Rightarrow> string"
  sv_claims_json :: "bytes \<Rightarrow> access_claims option"
  \<comment> \<open>\<^verbatim>\<open>canonical_json_bytes\<close>, over the crate \<^verbatim>\<open>serde_json_canonicalizer\<close>\<close>
  sv_canonical_json :: "'j \<Rightarrow> bytes option"
  \<comment> \<open>the POST to the API service: none when it is unreachable, else status and parsed body\<close>
  sv_device_post :: "device_auth_request \<Rightarrow> (u16 \<times> device_auth_response option) option"

subsection \<open>Access tokens and service tokens\<close>

definition verify_access_token ::
    "'j signal_env \<Rightarrow> string \<Rightarrow> bytes \<Rightarrow> u64 \<Rightarrow> security_error + access_claims" where
  "verify_access_token env token secret now =
    and_then (ok_or SeInvalidToken (split_once (CHR ''.'') token)) (\<lambda>(payload, encoded_signature).
    and_then (ok_or SeInvalidToken (sv_base64 env encoded_signature)) (\<lambda>signature.
    and_then (ok_or SeInvalidToken (pr_hmac (sv_primitives env) secret (str_bytes payload))) (\<lambda>mac.
    if mac \<noteq> signature then Inl SeInvalidToken
    else
      and_then (ok_or SeInvalidToken (sv_base64 env payload)) (\<lambda>claims_bytes.
      and_then (ok_or SeInvalidToken (sv_claims_json env claims_bytes)) (\<lambda>claims.
      if ac_token_type claims \<noteq> ''access'' \<or> ac_account_id claims = [] then Inl SeInvalidToken
      else if ac_expires_at_epoch_millis claims \<le> now then Inl SeExpiredToken
      else Inr claims)))))"

definition COMPARISON_KEY :: bytes where
  "COMPARISON_KEY = str_bytes ''rctl-service-token-comparison-v1''"

definition service_token_matches :: "primitives \<Rightarrow> string \<Rightarrow> string \<Rightarrow> bool" where
  "service_token_matches pr provided expected =
    (case pr_hmac pr COMPARISON_KEY (str_bytes expected) of
       None \<Rightarrow> False
     | Some expected_tag \<Rightarrow>
         (case pr_hmac pr COMPARISON_KEY (str_bytes provided) of
            None \<Rightarrow> False
          | Some provided_tag \<Rightarrow> provided_tag = expected_tag))"

subsection \<open>Protocol versions\<close>

text \<open>\<^verbatim>\<open>str::parse\<close> for an unsigned type: an optional plus sign, then decimal digits.\<close>

definition unsigned_digits :: "string \<Rightarrow> string" where
  "unsigned_digits s = (case s of c # d # r \<Rightarrow> if c = CHR ''+'' then d # r else s | _ \<Rightarrow> s)"

definition parse_unsigned :: "nat \<Rightarrow> string \<Rightarrow> nat option" where
  "parse_unsigned limit s =
    (let ds = map (to_digit 10) (unsigned_digits s) in
     if ds = [] \<or> None \<in> set ds then None
     else let n = digits_value 10 (map the ds) in if n \<le> limit then Some n else None)"

definition parse_u16 :: "string \<Rightarrow> u16 option" where
  "parse_u16 s = map_option of_nat (parse_unsigned 65535 s)"

text \<open>
  \<^verbatim>\<open>value.trim() != value\<close>: a header value holds only visible ASCII, blanks and tabs.
\<close>

definition header_untrimmed :: "string \<Rightarrow> bool" where
  "header_untrimmed v \<longleftrightarrow> v \<noteq> [] \<and> (byte (hd v) \<in> {9, 32} \<or> byte (last v) \<in> {9, 32})"

definition header_version :: "string \<Rightarrow> security_error + u16" where
  "header_version v =
    (if v = [] \<or> header_untrimmed v then Inl SeInvalidProtocolHeader
     else ok_or SeInvalidProtocolHeader (parse_u16 v))"

definition protocol_versions_bytes :: "u16 list \<Rightarrow> u16 \<Rightarrow> canonical_error + bytes" where
  "protocol_versions_bytes versions minimum =
    map_ok finish (and_then (writer_new ''rctl-protocol-versions-v1'') (try_chain
      [push_field ''client_supported_protocol_versions'' (concat (map to_be_bytes versions)),
       push_u16 ''client_min_protocol_version'' minimum]))"

definition protocol_versions_hash :: "primitives \<Rightarrow> u16 list \<Rightarrow> u16 \<Rightarrow> security_error + bytes" where
  "protocol_versions_hash pr versions minimum =
    map_err (\<lambda>_. SeInvalidHash) (map_ok (pr_sha256 pr) (protocol_versions_bytes versions minimum))"

text \<open>\<^verbatim>\<open>sort_unstable\<close> and \<^verbatim>\<open>dedup\<close>; the search is on the sorted list.\<close>

definition parse_protocol_headers ::
    "primitives \<Rightarrow> string option \<Rightarrow> string option \<Rightarrow> security_error + protocol_negotiation" where
  "parse_protocol_headers pr versions minimum =
    and_then (ok_or SeInvalidProtocolHeader versions) (\<lambda>versions.
    and_then (ok_or SeInvalidProtocolHeader minimum) (\<lambda>minimum.
    and_then (ok_or SeInvalidProtocolHeader (parse_u16 minimum)) (\<lambda>client_min_version.
    and_then (collect_results (map header_version (split_on (CHR '','') versions))) (\<lambda>parsed.
    let client_versions = remdups_adj (sort parsed) in
    if client_versions = [] \<or> length client_versions > 16 \<or> client_min_version \<notin> set client_versions
    then Inl SeInvalidProtocolHeader
    else
      and_then (case filter (\<lambda>v. client_min_version \<le> v \<and> v \<in> set client_versions) SUPPORTED_PROTOCOL_VERSIONS of
          [] \<Rightarrow> Inl SeUnsupportedVersion
        | v # vs \<Rightarrow> Inr (fold max vs v)) (\<lambda>selected_version.
      and_then (protocol_versions_hash pr client_versions client_min_version) (\<lambda>versions_hash.
      Inr \<lparr>pn_client_versions = client_versions, pn_client_min_version = client_min_version,
           pn_selected_version = selected_version, pn_versions_hash = versions_hash\<rparr>))))))"

subsection \<open>Hashes and signatures of the hello exchange\<close>

definition client_capabilities_bytes :: "bytes \<Rightarrow> canonical_error + bytes" where
  "client_capabilities_bytes capabilities =
    map_ok finish (and_then (writer_new ''rctl-client-capabilities-v1'') (try_chain
      [push_field ''client_capabilities'' capabilities]))"

definition client_capabilities_hash :: "'j signal_env \<Rightarrow> 'j \<Rightarrow> security_error + bytes" where
  "client_capabilities_hash env capabilities =
    and_then (ok_or SeInvalidHash (sv_canonical_json env capabilities)) (\<lambda>capabilities.
    map_err (\<lambda>_. SeInvalidHash) (map_ok (pr_sha256 (sv_primitives env)) (client_capabilities_bytes capabilities)))"

definition hello_signature_bytes ::
    "bytes \<Rightarrow> bytes \<Rightarrow> string \<Rightarrow> string \<Rightarrow> u16 \<Rightarrow> u64 \<Rightarrow> bytes \<Rightarrow> bytes \<Rightarrow> canonical_error + bytes" where
  "hello_signature_bytes server_nonce client_nonce account_id device_id version timestamp versions_hash
      capabilities_hash =
    map_ok finish (and_then (writer_new ''rctl-ws-hello-v1'') (try_chain
      [push_field ''server_nonce'' server_nonce,
       push_field ''client_nonce'' client_nonce,
       push_str ''account_id'' account_id,
       push_str ''device_id'' device_id,
       push_u16 ''protocol_version'' version,
       push_u64 ''timestamp'' timestamp,
       push_field ''client_supported_protocol_versions_hash'' versions_hash,
       push_field ''client_capabilities_hash'' capabilities_hash]))"

definition sv_decode_array :: "'j signal_env \<Rightarrow> nat \<Rightarrow> string \<Rightarrow> security_error + bytes" where
  "sv_decode_array env n v =
    (case sv_base64 env v of
       None \<Rightarrow> Inl SeInvalidEncoding
     | Some bs \<Rightarrow> if length bs = n then Inr bs else Inl SeInvalidEncoding)"

definition verify_hello_signature ::
    "'j signal_env \<Rightarrow> bytes \<Rightarrow> bytes \<Rightarrow> string \<Rightarrow> security_error + unit" where
  "verify_hello_signature env public_key canonical_input encoded_signature =
    and_then (sv_decode_array env 64 encoded_signature) (\<lambda>signature.
    case pr_verify (sv_primitives env) public_key (pr_sha256 (sv_primitives env) canonical_input) signature of
      None \<Rightarrow> Inl SeInvalidSignature
    | Some valid \<Rightarrow> if valid then Inr () else Inl SeInvalidSignature)"

definition ensure_timestamp_in_window :: "u64 \<Rightarrow> u64 \<Rightarrow> security_error + unit" where
  "ensure_timestamp_in_window timestamp now =
    (if abs_diff timestamp now > HELLO_WINDOW_MILLIS then Inl SeTimestampOutsideWindow else Inr ())"

definition encode_hex :: "bytes \<Rightarrow> string" where
  "encode_hex v = concat (map show_hex_byte v)"

text \<open>Digits and lower case letters only.\<close>

definition decode_hex_nibble :: "char \<Rightarrow> nat option" where
  "decode_hex_nibble c =
    (if 48 \<le> byte c \<and> byte c \<le> 57 then Some (byte c - 48)
     else if 97 \<le> byte c \<and> byte c \<le> 102 then Some (byte c - 97 + 10)
     else None)"

fun decode_hex_pairs :: "string \<Rightarrow> bytes option" where
  "decode_hex_pairs (a # b # s) =
    (case (decode_hex_nibble a, decode_hex_nibble b, decode_hex_pairs s) of
       (Some h, Some l, Some bs) \<Rightarrow> Some (of_nat (16 * h + l) # bs)
     | _ \<Rightarrow> None)"
| "decode_hex_pairs _ = Some []"

definition decode_hex_array :: "nat \<Rightarrow> string \<Rightarrow> security_error + bytes" where
  "decode_hex_array n v =
    (if length v \<noteq> n * 2 then Inl SeInvalidEncoding else ok_or SeInvalidEncoding (decode_hex_pairs v))"

subsection \<open>Trusted devices\<close>

record trusted_device =
  td_account_id :: string
  td_device_id :: string
  td_public_key_id :: string
  td_public_key_version :: u32
  td_public_key :: bytes
  td_public_key_revoked :: bool

type_synonym device_directory = "string \<times> string \<rightharpoonup> trusted_device"

text \<open>A duplicate replaces the entry before the error is returned.\<close>

definition directory_insert ::
    "device_directory \<Rightarrow> trusted_device \<Rightarrow> (string + unit) \<times> device_directory" where
  "directory_insert ds d =
    (if td_account_id d = [] \<or> td_device_id d = [] \<or> td_public_key_id d = [] \<or> td_public_key_version d = 0
     then (Inl ''trusted device identity is incomplete'', ds)
     else
       let key = (td_account_id d, td_device_id d) in
       (if ds key \<noteq> None then Inl ''duplicate trusted device'' else Inr (), ds(key \<mapsto> d)))"

definition trusted_device_from_response ::
    "'j signal_env \<Rightarrow> device_auth_request \<Rightarrow> device_auth_response \<Rightarrow> u64 \<Rightarrow> string + trusted_device" where
  "trusted_device_from_response env request response now =
    (if \<not> dr_authorized response
        \<or> dr_account_id response \<noteq> dq_account_id request
        \<or> dr_device_id response \<noteq> dq_device_id request
        \<or> dr_public_key_id response \<noteq> dq_public_key_id request
        \<or> dr_public_key_version response \<noteq> dq_public_key_version request
        \<or> dr_access_token_expires_at_epoch_millis response \<le> now
     then Inl ''device authorization binding mismatch''
     else
       and_then (map_err (\<lambda>_. ''invalid device public key from authorization service'')
         (sv_decode_array env 32 (dr_public_key response))) (\<lambda>public_key.
       Inr \<lparr>td_account_id = dr_account_id response,
            td_device_id = dr_device_id response,
            td_public_key_id = dr_public_key_id response,
            td_public_key_version = dr_public_key_version response,
            td_public_key = public_key,
            td_public_key_revoked = False\<rparr>))"

datatype device_authenticator = DaApi | DaMemory device_directory

definition api_device_authorize ::
    "'j signal_env \<Rightarrow> device_auth_request \<Rightarrow> u64 \<Rightarrow> string + trusted_device" where
  "api_device_authorize env request now =
    (case sv_device_post env request of
       None \<Rightarrow> Inl ''device authorization service unavailable''
     | Some (status, body) \<Rightarrow>
         if \<not> (200 \<le> status \<and> status < 300) then Inl ''device authorization rejected''
         else
           and_then (ok_or ''invalid device authorization response'' body) (\<lambda>response.
           trusted_device_from_response env request response now))"

fun device_authorize ::
    "'j signal_env \<Rightarrow> device_authenticator \<Rightarrow> device_auth_request \<Rightarrow> u64 \<Rightarrow> string + trusted_device" where
  "device_authorize env DaApi request now = api_device_authorize env request now"
| "device_authorize env (DaMemory directory) request now =
    (case directory (dq_account_id request, dq_device_id request) of
       None \<Rightarrow> Inl ''device identity was not authorized''
     | Some d \<Rightarrow>
         if td_public_key_id d = dq_public_key_id request
            \<and> td_public_key_version d = dq_public_key_version request \<and> \<not> td_public_key_revoked d
         then Inr d else Inl ''device identity was not authorized'')"

subsection \<open>The hello exchange, server side\<close>

type_synonym header_map = "string \<rightharpoonup> string"

datatype http_error = HttpError (he_status: u16) (he_code: string)

definition bearer :: "header_map \<Rightarrow> string option" where
  "bearer headers =
    (case headers ''authorization'' of
       None \<Rightarrow> None
     | Some v \<Rightarrow>
         (case strip_prefix ''Bearer '' v of
            None \<Rightarrow> None
          | Some t \<Rightarrow> if t = [] then None else Some t))"

definition validate_upgrade ::
    "'j signal_env \<Rightarrow> bytes \<Rightarrow> header_map \<Rightarrow> u64
      \<Rightarrow> http_error + access_claims \<times> string \<times> protocol_negotiation" where
  "validate_upgrade env token_secret headers now =
    and_then (ok_or (HttpError 401 ''unauthorized'') (bearer headers)) (\<lambda>token.
    and_then (map_err (\<lambda>_. HttpError 401 ''unauthorized'') (verify_access_token env token token_secret now)) (\<lambda>claims.
    and_then (map_err (\<lambda>e. if e = SeUnsupportedVersion then HttpError 426 ''unsupported_version''
          else HttpError 400 ''invalid_protocol_version_header'')
        (parse_protocol_headers (sv_primitives env) (headers ''x-rctl-protocol-versions'')
          (headers ''x-rctl-min-protocol-version''))) (\<lambda>negotiation.
    Inr (claims, token, negotiation))))"

record hello_challenge =
  hc_account_id :: string
  hc_protocol_version :: u16
  hc_server_nonce :: string
  hc_expires_at_epoch_millis :: u64
  hc_server_supported_protocol_versions :: "u16 list"

record 'j hello_response =
  hr_account_id :: string
  hr_device_id :: string
  hr_client_nonce :: string
  hr_timestamp :: u64
  hr_client_supported_protocol_versions :: "u16 list"
  hr_client_min_protocol_version :: u16
  hr_public_key_id :: string
  hr_public_key_version :: u32
  hr_client_supported_protocol_versions_hash :: string
  hr_client_capabilities :: 'j
  hr_client_capabilities_hash :: string
  hr_device_signature :: string

record hello_ok =
  ho_account_id :: string
  ho_device_id :: string
  ho_protocol_version :: u16
  ho_connection_id :: string
  ho_client_supported_protocol_versions_hash :: string
  ho_client_capabilities_hash :: string
  ho_server_supported_protocol_versions :: "u16 list"
  ho_server_time_epoch_millis :: u64

record authenticated_hello =
  ah_device :: trusted_device
  ah_capabilities_hash :: bytes
  ah_connection_id :: string

text \<open>The first message of \<^verbatim>\<open>handle_socket\<close>.\<close>

definition server_challenge ::
    "'j signal_env \<Rightarrow> access_claims \<Rightarrow> protocol_negotiation \<Rightarrow> bytes \<Rightarrow> u64 \<Rightarrow> hello_challenge" where
  "server_challenge env claims negotiation server_nonce now =
    \<lparr>hc_account_id = ac_account_id claims,
     hc_protocol_version = pn_selected_version negotiation,
     hc_server_nonce = sv_base64_encode env server_nonce,
     hc_expires_at_epoch_millis = saturating_add now HELLO_TTL_MILLIS,
     hc_server_supported_protocol_versions = SUPPORTED_PROTOCOL_VERSIONS\<rparr>"

type_synonym hello_replays = "(string \<times> string \<times> bytes, u64) fmap"

definition record_nonce_once ::
    "hello_replays \<Rightarrow> string \<Rightarrow> string \<Rightarrow> bytes \<Rightarrow> u64 \<Rightarrow> u64 \<Rightarrow> (string + unit) \<times> hello_replays" where
  "record_nonce_once replays account_id device_id client_nonce expires now =
    apfst (\<lambda>r. case r of
        Recorded \<Rightarrow> Inr ()
      | Duplicate \<Rightarrow> Inl ''hello nonce replay detected''
      | Full \<Rightarrow> Inl ''hello replay cache is full'')
      (record_once MAX_MEMORY_REPLAY_ENTRIES replays (account_id, device_id, client_nonce) expires now)"

definition hello_auth_request :: "string \<Rightarrow> access_claims \<Rightarrow> 'j hello_response \<Rightarrow> device_auth_request" where
  "hello_auth_request access_token claims response =
    \<lparr>dq_access_token = access_token,
     dq_account_id = ac_account_id claims,
     dq_device_id = hr_device_id response,
     dq_public_key_id = hr_public_key_id response,
     dq_public_key_version = hr_public_key_version response\<rparr>"

text \<open>\<^verbatim>\<open>authenticate_hello\<close> up to the replay cache: the device, the hash and the nonce.\<close>

definition hello_checked ::
    "'j signal_env \<Rightarrow> device_authenticator \<Rightarrow> access_claims \<Rightarrow> string \<Rightarrow> protocol_negotiation \<Rightarrow> bytes
      \<Rightarrow> u64 \<Rightarrow> 'j hello_response \<Rightarrow> u64 \<Rightarrow> string + trusted_device \<times> bytes \<times> bytes" where
  "hello_checked env authenticator claims access_token negotiation server_nonce challenge_expires_at response now =
    (if now \<ge> challenge_expires_at then Inl ''hello challenge expired''
     else if hr_account_id response \<noteq> ac_account_id claims then Inl ''account_id does not match access token''
     else if hr_client_supported_protocol_versions response \<noteq> pn_client_versions negotiation
        \<or> hr_client_min_protocol_version response \<noteq> pn_client_min_version negotiation
     then Inl ''protocol negotiation does not match upgrade headers''
     else
       and_then (map_err (\<lambda>_. ''invalid protocol versions hash'')
         (decode_hex_array 32 (hr_client_supported_protocol_versions_hash response))) (\<lambda>submitted_versions_hash.
       if submitted_versions_hash \<noteq> pn_versions_hash negotiation then Inl ''protocol versions hash mismatch''
       else
         and_then (map_err (\<lambda>_. ''invalid capabilities'')
           (client_capabilities_hash env (hr_client_capabilities response))) (\<lambda>capabilities_hash.
         and_then (map_err (\<lambda>_. ''invalid capabilities hash'')
           (decode_hex_array 32 (hr_client_capabilities_hash response))) (\<lambda>submitted_capabilities_hash.
         if submitted_capabilities_hash \<noteq> capabilities_hash then Inl ''client capabilities hash mismatch''
         else
           and_then (map_err (\<lambda>_. ''hello timestamp outside allowed window'')
             (ensure_timestamp_in_window (hr_timestamp response) now)) (\<lambda>_.
           and_then (map_err (\<lambda>_. ''invalid client nonce'')
             (sv_decode_array env 32 (hr_client_nonce response))) (\<lambda>client_nonce.
           and_then (map_err (\<lambda>_. ''device authorization rejected'')
             (device_authorize env authenticator (hello_auth_request access_token claims response) now)) (\<lambda>device.
           if td_public_key_revoked device \<or> td_public_key_version device = 0 then Inl ''device key is revoked''
           else
             and_then (map_err (\<lambda>_. ''cannot build hello signature input'')
               (hello_signature_bytes server_nonce client_nonce (hr_account_id response) (hr_device_id response)
                 (pn_selected_version negotiation) (hr_timestamp response) (pn_versions_hash negotiation)
                 capabilities_hash)) (\<lambda>canonical.
             and_then (map_err (\<lambda>_. ''invalid device signature'')
               (verify_hello_signature env (td_public_key device) canonical (hr_device_signature response))) (\<lambda>_.
             Inr (device, capabilities_hash, client_nonce))))))))))"

definition authenticate_hello ::
    "'j signal_env \<Rightarrow> device_authenticator \<Rightarrow> hello_replays \<Rightarrow> access_claims \<Rightarrow> string \<Rightarrow> protocol_negotiation
      \<Rightarrow> bytes \<Rightarrow> u64 \<Rightarrow> 'j hello_response \<Rightarrow> u64 \<Rightarrow> bytes \<Rightarrow> (string + authenticated_hello) \<times> hello_replays" where
  "authenticate_hello env authenticator replays claims access_token negotiation server_nonce challenge_expires_at
      response now connection_random =
    (case hello_checked env authenticator claims access_token negotiation server_nonce challenge_expires_at
        response now of
       Inl e \<Rightarrow> (Inl e, replays)
     | Inr (device, capabilities_hash, client_nonce) \<Rightarrow>
         apfst (map_ok (\<lambda>_. \<lparr>ah_device = device, ah_capabilities_hash = capabilities_hash,
             ah_connection_id = sv_base64_encode env connection_random\<rparr>))
           (record_nonce_once replays (ac_account_id claims) (hr_device_id response) client_nonce
             challenge_expires_at now))"

definition server_hello_ok ::
    "access_claims \<Rightarrow> protocol_negotiation \<Rightarrow> authenticated_hello \<Rightarrow> u64 \<Rightarrow> hello_ok" where
  "server_hello_ok claims negotiation authenticated now =
    \<lparr>ho_account_id = ac_account_id claims,
     ho_device_id = td_device_id (ah_device authenticated),
     ho_protocol_version = pn_selected_version negotiation,
     ho_connection_id = ah_connection_id authenticated,
     ho_client_supported_protocol_versions_hash = encode_hex (pn_versions_hash negotiation),
     ho_client_capabilities_hash = encode_hex (ah_capabilities_hash authenticated),
     ho_server_supported_protocol_versions = SUPPORTED_PROTOCOL_VERSIONS,
     ho_server_time_epoch_millis = now\<rparr>"

end
