(* ===== verification/Rc_SignalClient.thy ===== *)
theory Rc_SignalClient
  imports Rc_SignalAuth
begin

section \<open>The signal client of the desktop application\<close>

text \<open>
  \<^verbatim>\<open>SignalStateMachine\<close> of \<^verbatim>\<open>apps/desktop/src/signal.rs\<close>: the hello response it signs and the
  \<^verbatim>\<open>hello_ok\<close> it accepts, with the hashes it computes on its own. The lemmas relate both sides:
  they sign and check the same bytes, an honest client is admitted, and it is online only
  after an answer that matches what it signed.
\<close>

datatype signal_connection_state =
    SgDisconnected | SgConnecting | SgAwaitingChallenge | SgAuthenticating | SgOnline | SgReconnecting | SgFailed

datatype signal_error =
    SxInvalidTransition
  | SxInvalidChallenge
  | SxHelloMismatch
  | SxCanonical
  | SxInvalidUrl
  | SxInvalidHeader
  | SxUpgradeRejected u16
  | SxTransport
  | SxTimedOut
  | SxConnectionClosed
  | SxInvalidServerMessage
  | SxAuthenticationRejected
  | SxCancelled
  | SxWorkerUnavailable
  | SxNotificationQueueFull
  | SxNotificationReceiverUnavailable
  | SxOutboundQueueFull
  | SxInvalidSessionMessage

definition is_retriable :: "signal_error \<Rightarrow> bool" where
  "is_retriable e \<longleftrightarrow> e \<in> {SxTransport, SxTimedOut, SxConnectionClosed}"

text \<open>The fields of \<^verbatim>\<open>SignalConnectContext\<close> that the state machine reads, and the identity.\<close>

record 'j signal_connect_context =
  cx_account_id :: string
  cx_device_id :: string
  cx_public_key_id :: string
  cx_public_key_version :: u32
  cx_client_capabilities :: 'j

record local_identity =
  li_device_id :: string
  li_key_pair :: device_key_pair

record expected_hello =
  eh_account_id :: string
  eh_device_id :: string
  eh_protocol_version :: u16
  eh_versions_hash :: string
  eh_capabilities_hash :: string
  eh_server_supported_protocol_versions :: "u16 list"

record signal_state_machine =
  sm_state :: signal_connection_state
  sm_expected :: "expected_hello option"

definition signal_machine_default :: signal_state_machine where
  "signal_machine_default = \<lparr>sm_state = SgDisconnected, sm_expected = None\<rparr>"

text \<open>\<^verbatim>\<open>SignalClientOptions::reconnect_delay\<close>; durations in milliseconds, which saturate at \<open>dmax\<close>.\<close>

definition reconnect_delay :: "nat \<Rightarrow> nat \<Rightarrow> nat \<Rightarrow> nat \<Rightarrow> nat" where
  "reconnect_delay dmax initial maximum attempt =
    (let exponent = min (attempt - 1) 31 in min (min dmax (initial * 2 ^ exponent)) maximum)"

definition client_versions_hash :: "primitives \<Rightarrow> u16 list \<Rightarrow> u16 \<Rightarrow> signal_error + bytes" where
  "client_versions_hash pr versions minimum =
    map_err (\<lambda>_. SxCanonical) (and_then (writer_new ''rctl-protocol-versions-v1'') (\<lambda>w.
      and_then (push_field ''client_supported_protocol_versions'' (concat (map to_be_bytes versions)) w) (\<lambda>w.
      and_then (push_u16 ''client_min_protocol_version'' minimum w) (\<lambda>w.
      Inr (pr_sha256 pr (finish w))))))"

definition client_hash_capabilities :: "'j signal_env \<Rightarrow> 'j \<Rightarrow> signal_error + bytes" where
  "client_hash_capabilities env capabilities =
    and_then (ok_or SxCanonical (sv_canonical_json env capabilities)) (\<lambda>capabilities.
    map_err (\<lambda>_. SxCanonical) (and_then (writer_new ''rctl-client-capabilities-v1'') (\<lambda>w.
      and_then (push_field ''client_capabilities'' capabilities w) (\<lambda>w.
      Inr (pr_sha256 (sv_primitives env) (finish w))))))"

definition client_signature_input ::
    "bytes \<Rightarrow> bytes \<Rightarrow> string \<Rightarrow> string \<Rightarrow> u16 \<Rightarrow> u64 \<Rightarrow> bytes \<Rightarrow> bytes \<Rightarrow> signal_error + bytes" where
  "client_signature_input server_nonce client_nonce account_id device_id version timestamp versions_hash
      capabilities_hash =
    map_err (\<lambda>_. SxCanonical) (and_then (writer_new ''rctl-ws-hello-v1'') (\<lambda>w.
      and_then (try_chain
        [push_field ''server_nonce'' server_nonce,
         push_field ''client_nonce'' client_nonce,
         push_str ''account_id'' account_id,
         push_str ''device_id'' device_id,
         push_u16 ''protocol_version'' version,
         push_u64 ''timestamp'' timestamp,
         push_field ''client_supported_protocol_versions_hash'' versions_hash,
         push_field ''client_capabilities_hash'' capabilities_hash] w) (\<lambda>w.
      Inr (finish w))))"

definition client_hex :: "bytes \<Rightarrow> string" where
  "client_hex bs = concat (map show_hex_byte bs)"

definition signal_fail :: "signal_state_machine \<Rightarrow> signal_state_machine" where
  "signal_fail m = m\<lparr>sm_expected := None, sm_state := SgFailed\<rparr>"

definition signal_disconnect :: "signal_state_machine \<Rightarrow> signal_state_machine" where
  "signal_disconnect m = m\<lparr>sm_expected := None, sm_state := SgDisconnected\<rparr>"

definition mark_reconnecting :: "signal_state_machine \<Rightarrow> signal_state_machine" where
  "mark_reconnecting m = m\<lparr>sm_expected := None, sm_state := SgReconnecting\<rparr>"

definition begin_connect :: "signal_state_machine \<Rightarrow> (signal_error + unit) \<times> signal_state_machine" where
  "begin_connect m =
    (if sm_state m \<notin> {SgDisconnected, SgFailed, SgReconnecting} then (Inl SxInvalidTransition, m)
     else (Inr (), m\<lparr>sm_expected := None, sm_state := SgAwaitingChallenge\<rparr>))"

definition signal_reconnect :: "signal_state_machine \<Rightarrow> (signal_error + unit) \<times> signal_state_machine" where
  "signal_reconnect m =
    (if sm_state m \<noteq> SgOnline then (Inl SxInvalidTransition, m) else (Inr (), mark_reconnecting m))"

definition challenge_refused ::
    "hello_challenge \<Rightarrow> 'j signal_connect_context \<Rightarrow> local_identity \<Rightarrow> u64 \<Rightarrow> bool" where
  "challenge_refused challenge cx identity timestamp \<longleftrightarrow>
    hc_account_id challenge \<noteq> cx_account_id cx
    \<or> hc_protocol_version challenge \<noteq> PROTOCOL_VERSION
    \<or> hc_server_supported_protocol_versions challenge = []
    \<or> length (hc_server_supported_protocol_versions challenge) > 16
    \<or> PROTOCOL_VERSION \<notin> set (hc_server_supported_protocol_versions challenge)
    \<or> hc_expires_at_epoch_millis challenge \<le> timestamp
    \<or> li_device_id identity \<noteq> cx_device_id cx"

definition challenge_nonce :: "'j signal_env \<Rightarrow> hello_challenge \<Rightarrow> bytes option" where
  "challenge_nonce env challenge =
    (case sv_base64 env (hc_server_nonce challenge) of
       None \<Rightarrow> None
     | Some nonce \<Rightarrow> if length nonce = 32 then Some nonce else None)"

text \<open>The response and what the machine will expect in return, once the challenge is accepted.\<close>

definition hello_reply ::
    "'j signal_env \<Rightarrow> hello_challenge \<Rightarrow> 'j signal_connect_context \<Rightarrow> local_identity \<Rightarrow> u64 \<Rightarrow> bytes \<Rightarrow> bytes
      \<Rightarrow> signal_error + 'j hello_response" where
  "hello_reply env challenge cx identity timestamp server_nonce client_nonce =
    (let versions = [PROTOCOL_VERSION] in
     and_then (client_versions_hash (sv_primitives env) versions PROTOCOL_VERSION) (\<lambda>versions_hash.
     and_then (client_hash_capabilities env (cx_client_capabilities cx)) (\<lambda>capabilities_hash.
     and_then (client_signature_input server_nonce client_nonce (cx_account_id cx) (cx_device_id cx)
         (hc_protocol_version challenge) timestamp versions_hash capabilities_hash) (\<lambda>canonical.
     Inr \<lparr>hr_account_id = cx_account_id cx,
          hr_device_id = cx_device_id cx,
          hr_client_nonce = sv_base64_encode env client_nonce,
          hr_timestamp = timestamp,
          hr_client_supported_protocol_versions = versions,
          hr_client_min_protocol_version = PROTOCOL_VERSION,
          hr_public_key_id = cx_public_key_id cx,
          hr_public_key_version = cx_public_key_version cx,
          hr_client_supported_protocol_versions_hash = client_hex versions_hash,
          hr_client_capabilities = cx_client_capabilities cx,
          hr_client_capabilities_hash = client_hex capabilities_hash,
          hr_device_signature = sv_base64_encode env
            (sign_canonical (sv_primitives env) (li_key_pair identity) canonical)\<rparr>))))"

definition expected_of :: "hello_challenge \<Rightarrow> 'j signal_connect_context \<Rightarrow> 'j hello_response \<Rightarrow> expected_hello" where
  "expected_of challenge cx response =
    \<lparr>eh_account_id = cx_account_id cx,
     eh_device_id = cx_device_id cx,
     eh_protocol_version = hc_protocol_version challenge,
     eh_versions_hash = hr_client_supported_protocol_versions_hash response,
     eh_capabilities_hash = hr_client_capabilities_hash response,
     eh_server_supported_protocol_versions = hc_server_supported_protocol_versions challenge\<rparr>"

definition build_hello_response ::
    "'j signal_env \<Rightarrow> signal_state_machine \<Rightarrow> hello_challenge \<Rightarrow> 'j signal_connect_context \<Rightarrow> local_identity
      \<Rightarrow> u64 \<Rightarrow> bytes \<Rightarrow> bytes \<Rightarrow> (signal_error + 'j hello_response) \<times> signal_state_machine" where
  "build_hello_response env m challenge cx identity timestamp first_nonce second_nonce =
    (if sm_state m \<noteq> SgAwaitingChallenge then (Inl SxInvalidTransition, m)
     else if challenge_refused challenge cx identity timestamp then (Inl SxInvalidChallenge, signal_fail m)
     else
       case challenge_nonce env challenge of
         None \<Rightarrow> (Inl SxInvalidChallenge, signal_fail m)
       | Some server_nonce \<Rightarrow>
           (case hello_reply env challenge cx identity timestamp server_nonce (first_nonce @ second_nonce) of
              Inl e \<Rightarrow> (Inl e, m)
            | Inr response \<Rightarrow>
                (Inr response, m\<lparr>sm_expected := Some (expected_of challenge cx response),
                                sm_state := SgAuthenticating\<rparr>)))"

definition hello_matches :: "expected_hello \<Rightarrow> hello_ok \<Rightarrow> bool" where
  "hello_matches expected hello \<longleftrightarrow>
    eh_account_id expected = ho_account_id hello
    \<and> eh_device_id expected = ho_device_id hello
    \<and> eh_protocol_version expected = ho_protocol_version hello
    \<and> eh_versions_hash expected = ho_client_supported_protocol_versions_hash hello
    \<and> eh_capabilities_hash expected = ho_client_capabilities_hash hello
    \<and> eh_server_supported_protocol_versions expected = ho_server_supported_protocol_versions hello
    \<and> ho_connection_id hello \<noteq> []"

definition accept_hello_ok ::
    "signal_state_machine \<Rightarrow> hello_ok \<Rightarrow> (signal_error + unit) \<times> signal_state_machine" where
  "accept_hello_ok m hello =
    (if sm_state m \<noteq> SgAuthenticating then (Inl SxInvalidTransition, m)
     else
       let matches = (case sm_expected m of None \<Rightarrow> False | Some expected \<Rightarrow> hello_matches expected hello);
           m = m\<lparr>sm_expected := None\<rparr> in
       if \<not> matches then (Inl SxHelloMismatch, signal_fail m)
       else (Inr (), m\<lparr>sm_state := SgOnline\<rparr>))"

subsection \<open>Both sides compute the same bytes\<close>

lemma client_versions_hash_eq:
  "client_versions_hash pr vs m = Inr h \<longleftrightarrow> protocol_versions_hash pr vs m = Inr h"
  by (auto simp: client_versions_hash_def protocol_versions_hash_def protocol_versions_bytes_def result_simps)

lemma client_capabilities_hash_eq:
  "client_hash_capabilities env j = Inr h \<longleftrightarrow> client_capabilities_hash env j = Inr h"
  by (auto simp: client_hash_capabilities_def client_capabilities_hash_def client_capabilities_bytes_def
      result_simps)

lemma client_signature_input_eq:
  "client_signature_input sn cn a d v t vh ch = Inr bs \<longleftrightarrow> hello_signature_bytes sn cn a d v t vh ch = Inr bs"
  by (auto simp: client_signature_input_def hello_signature_bytes_def result_simps simp del: try_chain.simps)

definition hello_fields where
  "hello_fields sn cn a d v t vh ch =
    [(''domain'', str_bytes ''rctl-ws-hello-v1''), (''server_nonce'', sn), (''client_nonce'', cn),
     (''account_id'', str_bytes a), (''device_id'', str_bytes d), (''protocol_version'', to_be_bytes (v :: u16)),
     (''timestamp'', to_be_bytes (t :: u64)), (''client_supported_protocol_versions_hash'', vh),
     (''client_capabilities_hash'', ch)]"

lemma hello_signature_canonical:
  "hello_signature_bytes sn cn a d v t vh ch = canonical_encode (hello_fields sn cn a d v t vh ch)"
  by (simp add: hello_signature_bytes_def hello_fields_def writer_new_chain [symmetric] push_eta
      del: try_chain.simps)

lemma hello_signature_inject:
  assumes "hello_signature_bytes sn cn a d v t vh ch = Inr bs"
    "hello_signature_bytes sn' cn' a' d' v' t' vh' ch' = Inr bs"
  shows "sn = sn' \<and> cn = cn' \<and> a = a' \<and> d = d' \<and> v = v' \<and> t = t' \<and> vh = vh' \<and> ch = ch'"
  using canonical_encode_inject [OF assms [unfolded hello_signature_canonical]]
  by (simp add: hello_fields_def)

lemma hello_signature_total:
  assumes "length sn < 2 ^ 32" "length cn < 2 ^ 32" "length a < 2 ^ 32" "length d < 2 ^ 32"
    "length vh < 2 ^ 32" "length ch < 2 ^ 32"
  shows "\<exists>bs. hello_signature_bytes sn cn a d v t vh ch = Inr bs"
  using assms by (simp add: hello_signature_canonical hello_fields_def canonical_encode_ok field_fits_def)

lemma nibble_digit_char: "d < 16 \<Longrightarrow> decode_hex_nibble (digit_char d) = Some d"
  by (auto simp: decode_hex_nibble_def byte_digit_char)

lemma decode_encode_hex: "decode_hex_pairs (encode_hex bs) = Some bs"
proof (induction bs)
  case (Cons b bs)
  have "unat b div 16 < 16" "unat b mod 16 < 16" using unat_u8_bound [of b] by simp_all
  then show ?case
    using Cons by (simp add: encode_hex_def show_hex_byte_def nibble_digit_char)
qed (simp add: encode_hex_def)

lemma length_encode_hex [simp]: "length (encode_hex bs) = 2 * length bs"
  by (induction bs) (simp_all add: encode_hex_def show_hex_byte_def)

lemma decode_hex_array_encode: "length bs = n \<Longrightarrow> decode_hex_array n (encode_hex bs) = Inr bs"
  by (simp add: decode_hex_array_def decode_encode_hex)

lemma client_hex_eq: "client_hex = encode_hex"
  by (rule ext) (simp add: client_hex_def encode_hex_def)

subsection \<open>The client is online only after a matching answer\<close>

datatype 'j signal_op =
    OpBeginConnect
  | OpChallenge hello_challenge "'j signal_connect_context" local_identity u64 bytes bytes
  | OpHelloOk hello_ok
  | OpReconnect
  | OpMarkReconnecting
  | OpSignalFail
  | OpSignalDisconnect

datatype 'j signal_result =
    SrDone "signal_error + unit"
  | SrReply "signal_error + 'j hello_response"

fun signal_client_step ::
    "'j signal_env \<Rightarrow> signal_state_machine \<Rightarrow> 'j signal_op \<Rightarrow> 'j signal_result \<times> signal_state_machine" where
  "signal_client_step env m OpBeginConnect = apfst SrDone (begin_connect m)"
| "signal_client_step env m (OpChallenge c cx li t n1 n2) =
    apfst SrReply (build_hello_response env m c cx li t n1 n2)"
| "signal_client_step env m (OpHelloOk h) = apfst SrDone (accept_hello_ok m h)"
| "signal_client_step env m OpReconnect = apfst SrDone (signal_reconnect m)"
| "signal_client_step env m OpMarkReconnecting = (SrDone (Inr ()), mark_reconnecting m)"
| "signal_client_step env m OpSignalFail = (SrDone (Inr ()), signal_fail m)"
| "signal_client_step env m OpSignalDisconnect = (SrDone (Inr ()), signal_disconnect m)"

definition signal_machine_ok :: "signal_state_machine \<Rightarrow> bool" where
  "signal_machine_ok m \<longleftrightarrow> (sm_expected m \<noteq> None \<longleftrightarrow> sm_state m = SgAuthenticating)"

lemmas signal_ops = begin_connect_def build_hello_response_def accept_hello_ok_def signal_reconnect_def
  mark_reconnecting_def signal_fail_def signal_disconnect_def

interpretation signal_client: guarded_machine "signal_client_step env" signal_machine_ok for env
proof
  fix m and x :: "'a signal_op"
  assume "signal_machine_ok m"
  then show "signal_machine_ok (snd (signal_client_step env m x))"
    by (cases x) (auto simp: signal_machine_ok_def signal_ops Let_def split: option.splits sum.splits)
qed

lemma signal_machine_default_ok: "signal_machine_ok signal_machine_default"
  by (simp add: signal_machine_ok_def signal_machine_default_def)

text \<open>A step to \<open>SgOnline\<close> consumes the answer that the machine expected.\<close>

lemma online_step:
  assumes "sm_state m \<noteq> SgOnline" "sm_state (snd (signal_client_step env m x)) = SgOnline"
  shows "\<exists>h e. x = OpHelloOk h \<and> sm_state m = SgAuthenticating \<and> sm_expected m = Some e \<and> hello_matches e h"
  using assms by (cases x) (auto simp: signal_ops Let_def split: option.splits sum.splits if_splits)

lemma expected_step:
  assumes "sm_expected (snd (signal_client_step env m x)) = Some e" "sm_expected m \<noteq> Some e"
  shows "\<exists>c cx li t n1 n2 r sn. x = OpChallenge c cx li t n1 n2 \<and> sm_state m = SgAwaitingChallenge
    \<and> \<not> challenge_refused c cx li t \<and> challenge_nonce env c = Some sn
    \<and> hello_reply env c cx li t sn (n1 @ n2) = Inr r \<and> fst (signal_client_step env m x) = SrReply (Inr r)
    \<and> e = expected_of c cx r"
  using assms by (cases x) (auto simp: signal_ops Let_def split: option.splits sum.splits if_splits)

text \<open>What was answered when: an expectation stems from an earlier challenge of the run.\<close>

lemma run_expected:
  assumes "sm_expected (snd (run_ops (signal_client_step env) m xs)) = Some e" "sm_expected m = None"
  shows "\<exists>c cx li t n1 n2 r. (OpChallenge c cx li t n1 n2, SrReply (Inr r)) \<in> set (fst (run_ops (signal_client_step env) m xs))
    \<and> \<not> challenge_refused c cx li t \<and> e = expected_of c cx r"
  using assms
proof (induction xs rule: rev_induct)
  case (snoc x xs)
  let ?m = "snd (run_ops (signal_client_step env) m xs)"
  show ?case
  proof (cases "sm_expected ?m = Some e")
    case True
    with snoc.IH snoc.prems(2) show ?thesis unfolding run_snoc by fastforce
  next
    case False
    from expected_step [OF snoc.prems(1) [unfolded run_snoc snd_conv] False] show ?thesis
      unfolding run_snoc by fastforce
  qed
qed simp

subsection \<open>What the server has checked when it admits a device\<close>

lemma sv_decode_array_ok: "sv_decode_array env n v = Inr bs \<longleftrightarrow> sv_base64 env v = Some bs \<and> length bs = n"
  by (auto simp: sv_decode_array_def split: option.split)

lemma verdict_ok:
  "(case x of None \<Rightarrow> Inl e | Some valid \<Rightarrow> if valid then Inr () else Inl e') = Inr u \<longleftrightarrow> x = Some True"
  by (auto split: option.split)

lemma verify_hello_signature_ok:
  "verify_hello_signature env pk c s = Inr u \<longleftrightarrow> (\<exists>sig. sv_base64 env s = Some sig \<and> length sig = 64
    \<and> pr_verify (sv_primitives env) pk (pr_sha256 (sv_primitives env) c) sig = Some True)"
  unfolding verify_hello_signature_def and_then_eq_Inr sv_decode_array_ok verdict_ok by blast

lemma ensure_timestamp_ok: "ensure_timestamp_in_window t now = Inr u \<longleftrightarrow> abs_diff t now \<le> HELLO_WINDOW_MILLIS"
  by (auto simp: ensure_timestamp_in_window_def not_less)

lemma hello_checked_ok:
  assumes "hello_checked env au claims token neg sn expires r now = Inr (d, ch, cn)"
  shows "now < expires" "hr_account_id r = ac_account_id claims"
    "hr_client_supported_protocol_versions r = pn_client_versions neg"
    "hr_client_min_protocol_version r = pn_client_min_version neg"
    "client_capabilities_hash env (hr_client_capabilities r) = Inr ch"
    "abs_diff (hr_timestamp r) now \<le> HELLO_WINDOW_MILLIS"
    "sv_base64 env (hr_client_nonce r) = Some cn" "length cn = 32"
    "device_authorize env au (hello_auth_request token claims r) now = Inr d"
    "\<not> td_public_key_revoked d" "td_public_key_version d \<noteq> 0"
    "\<exists>c sig. hello_signature_bytes sn cn (hr_account_id r) (hr_device_id r) (pn_selected_version neg)
        (hr_timestamp r) (pn_versions_hash neg) ch = Inr c
      \<and> sv_base64 env (hr_device_signature r) = Some sig \<and> length sig = 64
      \<and> pr_verify (sv_primitives env) (td_public_key d) (pr_sha256 (sv_primitives env) c) sig = Some True"
proof -
  from assms obtain c where "now < expires" "hr_account_id r = ac_account_id claims"
    "hr_client_supported_protocol_versions r = pn_client_versions neg"
    "hr_client_min_protocol_version r = pn_client_min_version neg"
    "client_capabilities_hash env (hr_client_capabilities r) = Inr ch"
    "ensure_timestamp_in_window (hr_timestamp r) now = Inr ()"
    "sv_decode_array env 32 (hr_client_nonce r) = Inr cn"
    "device_authorize env au (hello_auth_request token claims r) now = Inr d"
    "\<not> td_public_key_revoked d" "td_public_key_version d \<noteq> 0"
    "hello_signature_bytes sn cn (hr_account_id r) (hr_device_id r) (pn_selected_version neg)
        (hr_timestamp r) (pn_versions_hash neg) ch = Inr c"
    "verify_hello_signature env (td_public_key d) c (hr_device_signature r) = Inr ()"
    unfolding hello_checked_def if_Inl_eq_Inr and_then_eq_Inr map_err_eq_Inr by auto
  then show "now < expires" "hr_account_id r = ac_account_id claims"
    "hr_client_supported_protocol_versions r = pn_client_versions neg"
    "hr_client_min_protocol_version r = pn_client_min_version neg"
    "client_capabilities_hash env (hr_client_capabilities r) = Inr ch"
    "abs_diff (hr_timestamp r) now \<le> HELLO_WINDOW_MILLIS"
    "sv_base64 env (hr_client_nonce r) = Some cn" "length cn = 32"
    "device_authorize env au (hello_auth_request token claims r) now = Inr d"
    "\<not> td_public_key_revoked d" "td_public_key_version d \<noteq> 0"
    "\<exists>c sig. hello_signature_bytes sn cn (hr_account_id r) (hr_device_id r) (pn_selected_version neg)
        (hr_timestamp r) (pn_versions_hash neg) ch = Inr c
      \<and> sv_base64 env (hr_device_signature r) = Some sig \<and> length sig = 64
      \<and> pr_verify (sv_primitives env) (td_public_key d) (pr_sha256 (sv_primitives env) c) sig = Some True"
    by (simp_all add: ensure_timestamp_ok sv_decode_array_ok verify_hello_signature_ok)
qed

lemma record_nonce_once_ok:
  "fst (record_nonce_once rs a d cn expires now) = Inr () \<longleftrightarrow>
    fst (record_once MAX_MEMORY_REPLAY_ENTRIES rs (a, d, cn) expires now) = Recorded"
  by (simp add: record_nonce_once_def split: replay_record.split)

lemma authenticate_hello_ok:
  assumes "fst (authenticate_hello env au rs claims token neg sn expires r now rnd) = Inr ah"
  shows "\<exists>cn. hello_checked env au claims token neg sn expires r now
      = Inr (ah_device ah, ah_capabilities_hash ah, cn)
    \<and> fst (record_nonce_once rs (ac_account_id claims) (hr_device_id r) cn expires now) = Inr ()
    \<and> ah_connection_id ah = sv_base64_encode env rnd"
  using assms
  by (auto simp: authenticate_hello_def result_simps split: sum.splits prod.splits)

text \<open>An authorized device is the one the request names, whichever authenticator answers.\<close>

definition directory_ok :: "device_directory \<Rightarrow> bool" where
  "directory_ok ds \<longleftrightarrow> (\<forall>a d v. ds (a, d) = Some v \<longrightarrow>
    a = td_account_id v \<and> d = td_device_id v \<and> a \<noteq> [] \<and> d \<noteq> []
    \<and> td_public_key_id v \<noteq> [] \<and> td_public_key_version v \<noteq> 0)"

interpretation directory: guarded_machine directory_insert directory_ok
  by unfold_locales (auto simp: directory_insert_def directory_ok_def Let_def)

lemma directory_empty_ok: "directory_ok Map.empty"
  by (simp add: directory_ok_def)

fun authenticator_ok :: "device_authenticator \<Rightarrow> bool" where
  "authenticator_ok DaApi = True"
| "authenticator_ok (DaMemory ds) = directory_ok ds"

lemma device_authorize_ok:
  assumes "device_authorize env au q now = Inr d" "authenticator_ok au"
  shows "td_account_id d = dq_account_id q" "td_device_id d = dq_device_id q"
    "td_public_key_id d = dq_public_key_id q" "td_public_key_version d = dq_public_key_version q"
    "\<not> td_public_key_revoked d"
  using assms
  by (cases au; auto simp: api_device_authorize_def trusted_device_from_response_def directory_ok_def result_simps
      split: option.splits if_splits prod.splits)+

subsection \<open>An honest client is admitted\<close>

definition signal_env_ok :: "'j signal_env \<Rightarrow> bool" where
  "signal_env_ok env \<longleftrightarrow> signature_scheme (sv_primitives env)
    \<and> (\<forall>m. length (pr_sha256 (sv_primitives env) m) = 32)
    \<and> (\<forall>bs. sv_base64 env (sv_base64_encode env bs) = Some bs)
    \<and> (\<forall>bs. bs \<noteq> [] \<longrightarrow> sv_base64_encode env bs \<noteq> [])"

text \<open>The headers \<^verbatim>\<open>connect_socket\<close> sends: \<^verbatim>\<open>PROTOCOL_VERSION.to_string()\<close> in both.\<close>

lemma client_headers:
  assumes "parse_protocol_headers pr (Some ''1'') (Some ''1'') = Inr neg"
  shows "pn_client_versions neg = [PROTOCOL_VERSION]" "pn_client_min_version neg = PROTOCOL_VERSION"
    "pn_selected_version neg = PROTOCOL_VERSION"
    "protocol_versions_hash pr [PROTOCOL_VERSION] PROTOCOL_VERSION = Inr (pn_versions_hash neg)"
proof -
  have 1: "parse_u16 ''1'' = Some 1" by (simp add: parse_u16_def parse_unsigned_def unsigned_digits_def
      to_digit_def digits_value_def byte_def)
  have 2: "header_version ''1'' = Inr 1" by (simp add: header_version_def header_untrimmed_def 1 byte_def)
  show "pn_client_versions neg = [PROTOCOL_VERSION]" "pn_client_min_version neg = PROTOCOL_VERSION"
    "pn_selected_version neg = PROTOCOL_VERSION"
    "protocol_versions_hash pr [PROTOCOL_VERSION] PROTOCOL_VERSION = Inr (pn_versions_hash neg)"
    using assms
    by (auto simp: parse_protocol_headers_def 1 2 result_simps SUPPORTED_PROTOCOL_VERSIONS_def PROTOCOL_VERSION_def
        Let_def)
qed

lemma hello_admitted:
  fixes env :: "'j signal_env"
  assumes env: "signal_env_ok env"
    and neg: "parse_protocol_headers (sv_primitives env) (Some ''1'') (Some ''1'') = Inr neg"
    and account: "ac_account_id claims = cx_account_id cx"
    and reply: "fst (build_hello_response env m (server_challenge env claims neg sn t0) cx li ts n1 n2) = Inr r"
    and key: "li_key_pair li = from_private_key (sv_primitives env) sk"
    and device: "device_authorize env au (hello_auth_request token claims r) t1 = Inr d"
      "authenticator_ok au" "td_public_key d = dk_public_key (li_key_pair li)" "cx_public_key_version cx \<noteq> 0"
    and nonces: "length n1 = 16" "length n2 = 16" "length sn = 32"
    and time: "t1 < saturating_add t0 HELLO_TTL_MILLIS" "abs_diff ts t1 \<le> HELLO_WINDOW_MILLIS"
  shows "\<exists>ch. hello_checked env au claims token neg sn (saturating_add t0 HELLO_TTL_MILLIS) r t1
      = Inr (d, ch, n1 @ n2) \<and> hr_client_capabilities_hash r = encode_hex ch \<and> td_device_id d = cx_device_id cx"
proof -
  let ?pr = "sv_primitives env"
  note h = client_headers [OF neg]
  have sha: "length (pr_sha256 ?pr x) = 32" and b64: "sv_base64 env (sv_base64_encode env bs) = Some bs" for x bs
    using env by (simp_all add: signal_env_ok_def)
  have sn: "challenge_nonce env (server_challenge env claims neg sn t0) = Some sn"
    using nonces by (simp add: challenge_nonce_def server_challenge_def b64)
  then have "hello_reply env (server_challenge env claims neg sn t0) cx li ts sn (n1 @ n2) = Inr r"
    using reply by (auto simp: build_hello_response_def split: if_splits sum.splits)
  then obtain vh ch c where c: "client_versions_hash ?pr [PROTOCOL_VERSION] PROTOCOL_VERSION = Inr vh"
    "client_hash_capabilities env (cx_client_capabilities cx) = Inr ch"
    "client_signature_input sn (n1 @ n2) (cx_account_id cx) (cx_device_id cx) (pn_selected_version neg) ts vh ch = Inr c"
    and r: "hr_account_id r = cx_account_id cx" "hr_device_id r = cx_device_id cx"
    "hr_client_nonce r = sv_base64_encode env (n1 @ n2)" "hr_timestamp r = ts"
    "hr_client_supported_protocol_versions r = [PROTOCOL_VERSION]" "hr_client_min_protocol_version r = PROTOCOL_VERSION"
    "hr_public_key_version r = cx_public_key_version cx"
    "hr_client_supported_protocol_versions_hash r = encode_hex vh" "hr_client_capabilities r = cx_client_capabilities cx"
    "hr_client_capabilities_hash r = encode_hex ch"
    "hr_device_signature r = sv_base64_encode env (sign_canonical ?pr (li_key_pair li) c)"
    by (auto simp: hello_reply_def result_simps Let_def server_challenge_def client_hex_eq)
  have vh: "vh = pn_versions_hash neg" using c(1) h(4) by (simp add: client_versions_hash_eq)
  have "length vh = 32" "length ch = 32"
    using c(1,2) sha
    by (auto simp: client_versions_hash_def client_hash_capabilities_def result_simps)
  then have lens: "length (pn_versions_hash neg) = 32" "length ch = 32" by (simp_all add: vh)
  have sig: "length (sign_canonical ?pr (li_key_pair li) c) = 64"
    "pr_verify ?pr (td_public_key d) (pr_sha256 ?pr c) (sign_canonical ?pr (li_key_pair li) c) = Some True"
    using env device(3) key
    by (simp_all add: signal_env_ok_def signature_scheme_def sign_canonical_def sign_digest_def from_private_key_def)
  note d = device_authorize_ok [OF device(1,2)]
  have "hello_checked env au claims token neg sn (saturating_add t0 HELLO_TTL_MILLIS) r t1 = Inr (d, ch, n1 @ n2)"
    using c(2,3) time device(1,4) d nonces account h(1-3)
    by (simp add: hello_checked_def r lens vh decode_hex_array_encode client_capabilities_hash_eq not_le
        client_signature_input_eq ensure_timestamp_in_window_def not_less sv_decode_array_def b64
        hello_auth_request_def verify_hello_signature_def sig)
  moreover have "td_device_id d = cx_device_id cx" using d(2) by (simp add: hello_auth_request_def r)
  ultimately show ?thesis using r by blast
qed

end
