(* ===== verification/Rc_SignalMessages.thy ===== *)
theory Rc_SignalMessages
  imports Rc_SignalClient Rc_Candidates Rc_Core
begin

section \<open>Signalling messages: what the server lets through and what the client takes\<close>

text \<open>
  The checks on session messages and on persisted notifications, on the server
  (\<^verbatim>\<open>services/signal-server/src/lib.rs\<close>) and in the desktop client
  (\<^verbatim>\<open>apps/desktop/src/signal.rs\<close>). \<open>'j\<close> is the type of JSON values; decoding a value to a typed
  message is serde's work and stands in the record \<open>message_env\<close>, as does UUID parsing.
\<close>

record candidate_payload =
  cp_candidate :: connection_candidate_dto
  cp_authorization :: candidate_authorization
  cp_transport_certificate_der :: "string option"
  cp_server_name :: "string option"

record 'j message_env =
  me_base64 :: "string \<Rightarrow> bytes option"
  \<comment> \<open>\<^verbatim>\<open>Uuid::parse_str\<close>\<close>
  me_uuid :: "string \<Rightarrow> u128 option"
  \<comment> \<open>\<^verbatim>\<open>as_object\<close>, then \<^verbatim>\<open>get(field)\<close> and \<^verbatim>\<open>as_str\<close>; the first says whether it is an object\<close>
  me_is_object :: "'j \<Rightarrow> bool"
  me_str :: "'j \<Rightarrow> string \<Rightarrow> string option"
  \<comment> \<open>\<^verbatim>\<open>serde_json::from_value\<close> at the three payload types\<close>
  me_candidate_payload :: "'j \<Rightarrow> candidate_payload option"
  me_key_exchange :: "'j \<Rightarrow> signed_key_exchange option"
  me_key_confirm :: "'j \<Rightarrow> key_confirm option"

definition MAX_SESSION_CERTIFICATE_DER_BYTES :: nat where
  "MAX_SESSION_CERTIFICATE_DER_BYTES = 16 * 1024"

subsection \<open>Session messages on the server\<close>

fun str_prefix :: "string \<Rightarrow> string \<Rightarrow> bool" where
  "str_prefix p s \<longleftrightarrow> take (length p) s = p"

fun str_suffix :: "string \<Rightarrow> string \<Rightarrow> bool" where
  "str_suffix p s \<longleftrightarrow> length p \<le> length s \<and> drop (length s - length p) s = p"

definition server_name_char :: "char \<Rightarrow> bool" where
  "server_name_char c \<longleftrightarrow>
    (97 \<le> byte c \<and> byte c \<le> 122) \<or> (48 \<le> byte c \<and> byte c \<le> 57) \<or> c = CHR ''-'' \<or> c = CHR ''.''"

definition valid_session_server_name :: "string \<Rightarrow> bool" where
  "valid_session_server_name v \<longleftrightarrow>
    length v \<le> 253 \<and> str_prefix ''rctl-'' v \<and> str_suffix ''.invalid'' v \<and> list_all server_name_char v"

definition certificate_ok :: "'j message_env \<Rightarrow> string option \<Rightarrow> bool" where
  "certificate_ok me der \<longleftrightarrow>
    (case der of
       None \<Rightarrow> False
     | Some encoded \<Rightarrow>
         (case me_base64 me encoded of
            None \<Rightarrow> False
          | Some certificate \<Rightarrow>
              certificate \<noteq> [] \<and> length certificate \<le> MAX_SESSION_CERTIFICATE_DER_BYTES))"

definition transport_identity_valid :: "'j message_env \<Rightarrow> session_role \<Rightarrow> candidate_payload \<Rightarrow> bool" where
  "transport_identity_valid me role v \<longleftrightarrow>
    (case role of
       Controller \<Rightarrow> cp_transport_certificate_der v = None \<and> cp_server_name v = None
     | Controlled \<Rightarrow>
         certificate_ok me (cp_transport_certificate_der v)
         \<and> (case cp_server_name v of None \<Rightarrow> False | Some n \<Rightarrow> valid_session_server_name n))"

definition forward_candidate_ok ::
    "'j message_env \<Rightarrow> candidate_payload \<Rightarrow> u128 \<Rightarrow> string \<Rightarrow> session_role \<Rightarrow> u64 \<Rightarrow> bool" where
  "forward_candidate_ok me v session_id device_id role now \<longleftrightarrow>
    transport_identity_valid me role v
    \<and> cd_session_id (cp_candidate v) = session_id
    \<and> cd_device_id (cp_candidate v) = device_id
    \<and> cd_role (cp_candidate v) = role
    \<and> ca_candidate_token (cp_authorization v) \<noteq> []
    \<and> ca_expires_at_epoch_millis (cp_authorization v) > now"

definition validate_forward_payload ::
    "'j message_env \<Rightarrow> string \<Rightarrow> 'j \<Rightarrow> u128 \<Rightarrow> string \<Rightarrow> session_role \<Rightarrow> u64 \<Rightarrow> bool" where
  "validate_forward_payload me message_type payload session_id device_id role now \<longleftrightarrow>
    (if message_type = ''connection_candidate'' then
       (case me_candidate_payload me payload of
          None \<Rightarrow> False
        | Some v \<Rightarrow> forward_candidate_ok me v session_id device_id role now)
     else if message_type = ''key_exchange_message'' then
       (case me_key_exchange me payload of
          None \<Rightarrow> False
        | Some v \<Rightarrow>
            ke_session_id (ske_payload v) = session_id
            \<and> ke_device_id (ske_payload v) = device_id
            \<and> ke_role (ske_payload v) = role
            \<and> validate_path_binding (ske_payload v)
            \<and> length (ske_signature v) = 64)
     else if message_type = ''key_confirm'' then
       (case me_key_confirm me payload of
          None \<Rightarrow> False
        | Some v \<Rightarrow> kc_session_id v = session_id \<and> kc_device_id v = device_id \<and> kc_role v = role)
     else False)"

definition is_forbidden_ws_write :: "string \<Rightarrow> bool" where
  "is_forbidden_ws_write message_type \<longleftrightarrow>
    message_type \<in> {''register_device'', ''invite_session'', ''create_session'', ''accept_session'',
      ''reject_session'', ''cancel_session'', ''close_session'', ''connection_state''}"

subsection \<open>Persisted notifications on the server\<close>

datatype persisted_notification_type =
    PnSessionInvite | PnSessionInviteQueued | PnSessionAcceptAck | PnSessionRejectAck | PnSessionCancelAck
  | PnSessionCloseAck | PnConnectionState

record 'j persisted_notification =
  pk_kind :: persisted_notification_type
  pk_session :: 'j
  pk_session_id :: "string option"
  pk_status :: "string option"
  pk_actor_type :: "string option"
  pk_actor_device_id :: "string option"
  pk_actor_role :: "string option"
  pk_actor_service :: "string option"
  pk_reason :: "string option"
  pk_event_id :: "string option"

definition nonempty_opt :: "string option \<Rightarrow> bool" where
  "nonempty_opt v \<longleftrightarrow> v \<noteq> None \<and> v \<noteq> Some []"

definition valid_actor :: "'j persisted_notification \<Rightarrow> bool" where
  "valid_actor n \<longleftrightarrow>
    (if pk_actor_type n = Some ''device'' then
       nonempty_opt (pk_actor_device_id n)
       \<and> (pk_actor_role n = Some ''controller'' \<or> pk_actor_role n = Some ''controlled'')
       \<and> pk_actor_service n = None
     else if pk_actor_type n = Some ''service'' then
       pk_actor_device_id n = None \<and> pk_actor_role n = None \<and> nonempty_opt (pk_actor_service n)
     else if pk_actor_type n = Some ''system'' then
       pk_actor_device_id n = None \<and> pk_actor_role n = None \<and> pk_actor_service n = None
     else False)"

definition is_valid_for_device :: "'j message_env \<Rightarrow> 'j persisted_notification \<Rightarrow> string \<Rightarrow> bool" where
  "is_valid_for_device me n device_id \<longleftrightarrow>
    (if \<not> me_is_object me (pk_session n) then False
     else
       case (me_str me (pk_session n) ''session_id'', me_str me (pk_session n) ''status'') of
         (Some snapshot_session_id, Some snapshot_status) \<Rightarrow>
           if snapshot_session_id = [] \<or> snapshot_status = []
              \<or> (Some device_id \<noteq> me_str me (pk_session n) ''controller_device_id''
                  \<and> Some device_id \<noteq> me_str me (pk_session n) ''controlled_device_id'')
           then False
           else if pk_kind n = PnSessionInvite \<or> pk_kind n = PnSessionInviteQueued then True
           else if pk_session_id n \<noteq> Some snapshot_session_id
              \<or> pk_status n \<noteq> Some snapshot_status
              \<or> \<not> nonempty_opt (pk_event_id n)
              \<or> \<not> valid_actor n
           then False
           else if pk_kind n \<in> {PnSessionRejectAck, PnSessionCancelAck, PnSessionCloseAck}
              \<and> \<not> nonempty_opt (pk_reason n)
           then False
           else True
       | _ \<Rightarrow> False)"

text \<open>
  A device id: not empty, at most 128 bytes, no blank at either end, no control character. The
  blanks of Unicode are the strings below; UTF-8 makes a byte prefix a character prefix.
\<close>

definition unicode_blanks :: "string list" where
  "unicode_blanks = map (map char_of)
    ([[9], [10], [11], [12], [13], [32], [0xC2, 0x85], [0xC2, 0xA0], [0xE1, 0x9A, 0x80],
      [0xE2, 0x80, 0xA8], [0xE2, 0x80, 0xA9], [0xE2, 0x80, 0xAF], [0xE2, 0x81, 0x9F], [0xE3, 0x80, 0x80 :: nat]]
     @ map (\<lambda>b. [0xE2, 0x80, b]) [0x80 ..< 0x8B])"

definition is_trimmed :: "string \<Rightarrow> bool" where
  "is_trimmed s \<longleftrightarrow> list_all (\<lambda>b. \<not> str_prefix b s \<and> \<not> str_suffix b s) unicode_blanks"

definition valid_device_id :: "string \<Rightarrow> bool" where
  "valid_device_id d \<longleftrightarrow> d \<noteq> [] \<and> length d \<le> 128 \<and> is_trimmed d \<and> \<not> has_control d"

subsection \<open>The client side\<close>

datatype session_signal_message_kind = SkConnectionCandidate | SkKeyExchangeMessage | SkKeyConfirm

fun message_kind_as_str :: "session_signal_message_kind \<Rightarrow> string" where
  "message_kind_as_str SkConnectionCandidate = ''connection_candidate''"
| "message_kind_as_str SkKeyExchangeMessage = ''key_exchange_message''"
| "message_kind_as_str SkKeyConfirm = ''key_confirm''"

definition message_kind_parse :: "string \<Rightarrow> session_signal_message_kind option" where
  "message_kind_parse v =
    (if v = ''connection_candidate'' then Some SkConnectionCandidate
     else if v = ''key_exchange_message'' then Some SkKeyExchangeMessage
     else if v = ''key_confirm'' then Some SkKeyConfirm
     else None)"

definition client_server_name_ok :: "string \<Rightarrow> bool" where
  "client_server_name_ok v \<longleftrightarrow>
    length v \<le> 253 \<and> str_prefix ''rctl-'' v \<and> str_suffix ''.invalid'' v \<and> list_all server_name_char v"

definition validate_session_message_payload ::
    "'j message_env \<Rightarrow> session_signal_message_kind \<Rightarrow> string \<Rightarrow> string \<Rightarrow> session_role \<Rightarrow> 'j \<Rightarrow> u64 \<Rightarrow> bool" where
  "validate_session_message_payload me kind session_id device_id role payload now \<longleftrightarrow>
    (case me_uuid me session_id of
       None \<Rightarrow> False
     | Some session_id \<Rightarrow>
         (case kind of
            SkConnectionCandidate \<Rightarrow>
              (case me_candidate_payload me payload of
                 None \<Rightarrow> False
               | Some v \<Rightarrow>
                   (case role of
                      Controller \<Rightarrow> cp_transport_certificate_der v = None \<and> cp_server_name v = None
                    | Controlled \<Rightarrow>
                        certificate_ok me (cp_transport_certificate_der v)
                        \<and> (case cp_server_name v of None \<Rightarrow> False | Some n \<Rightarrow> client_server_name_ok n))
                   \<and> cd_session_id (cp_candidate v) = session_id
                   \<and> cd_device_id (cp_candidate v) = device_id
                   \<and> cd_role (cp_candidate v) = role
                   \<and> ca_candidate_token (cp_authorization v) \<noteq> []
                   \<and> ca_expires_at_epoch_millis (cp_authorization v) > now)
          | SkKeyExchangeMessage \<Rightarrow>
              (case me_key_exchange me payload of
                 None \<Rightarrow> False
               | Some v \<Rightarrow>
                   ke_session_id (ske_payload v) = session_id
                   \<and> ke_device_id (ske_payload v) = device_id
                   \<and> ke_role (ske_payload v) = role
                   \<and> validate_path_binding (ske_payload v)
                   \<and> signature_bytes v \<noteq> None)
          | SkKeyConfirm \<Rightarrow>
              (case me_key_confirm me payload of
                 None \<Rightarrow> False
               | Some v \<Rightarrow> kc_session_id v = session_id \<and> kc_device_id v = device_id \<and> kc_role v = role)))"

text \<open>The wire records after JSON decoding.\<close>

record 'j session_message_wire =
  mw_kind :: string
  mw_session_id :: string
  mw_role :: session_role
  mw_from_device_id :: string
  mw_payload :: 'j

record 'j session_peer_message =
  pm_kind :: session_signal_message_kind
  pm_session_id :: string
  pm_role :: session_role
  pm_from_device_id :: string
  pm_payload :: 'j

definition decode_session_message ::
    "'j message_env \<Rightarrow> 'j session_message_wire option \<Rightarrow> string \<Rightarrow> u64 \<Rightarrow> signal_error + 'j session_peer_message" where
  "decode_session_message me wire expected_type now =
    and_then (ok_or SxInvalidServerMessage wire) (\<lambda>wire.
    and_then (ok_or SxInvalidServerMessage (message_kind_parse expected_type)) (\<lambda>kind.
    if mw_kind wire \<noteq> expected_type \<or> mw_session_id wire = [] \<or> mw_from_device_id wire = []
       \<or> \<not> validate_session_message_payload me kind (mw_session_id wire) (mw_from_device_id wire) (mw_role wire)
             (mw_payload wire) now
    then Inl SxInvalidServerMessage
    else Inr \<lparr>pm_kind = kind, pm_session_id = mw_session_id wire, pm_role = mw_role wire,
              pm_from_device_id = mw_from_device_id wire, pm_payload = mw_payload wire\<rparr>))"

record 'j session_snapshot =
  sn_session_id :: string
  sn_status :: string
  sn_controller_device_id :: string
  sn_controlled_device_id :: string
  sn_payload :: 'j

definition snapshot_field :: "'j message_env \<Rightarrow> 'j \<Rightarrow> string \<Rightarrow> signal_error + string" where
  "snapshot_field me payload field =
    (case me_str me payload field of
       None \<Rightarrow> Inl SxInvalidServerMessage
     | Some v \<Rightarrow> if v = [] then Inl SxInvalidServerMessage else Inr v)"

definition decode_session_snapshot ::
    "'j message_env \<Rightarrow> 'j \<Rightarrow> string \<Rightarrow> signal_error + 'j session_snapshot" where
  "decode_session_snapshot me payload current_device_id =
    (if \<not> me_is_object me payload then Inl SxInvalidServerMessage
     else
       and_then (snapshot_field me payload ''session_id'') (\<lambda>session_id.
       and_then (snapshot_field me payload ''status'') (\<lambda>status.
       and_then (snapshot_field me payload ''controller_device_id'') (\<lambda>controller_device_id.
       and_then (snapshot_field me payload ''controlled_device_id'') (\<lambda>controlled_device_id.
       if current_device_id \<noteq> controller_device_id \<and> current_device_id \<noteq> controlled_device_id
       then Inl SxInvalidServerMessage
       else Inr \<lparr>sn_session_id = session_id, sn_status = status, sn_controller_device_id = controller_device_id,
                 sn_controlled_device_id = controlled_device_id, sn_payload = payload\<rparr>)))))"

datatype session_actor = SaDevice string session_role | SaService string | SaSystem

definition decode_session_actor ::
    "string \<Rightarrow> string option \<Rightarrow> string option \<Rightarrow> string option \<Rightarrow> signal_error + session_actor" where
  "decode_session_actor actor_type actor_device_id actor_role actor_service =
    (if actor_type = ''device'' then
       (case actor_device_id of
          None \<Rightarrow> Inl SxInvalidServerMessage
        | Some device_id \<Rightarrow>
            if device_id = [] then Inl SxInvalidServerMessage
            else
              and_then (if actor_role = Some ''controller'' then Inr Controller
                else if actor_role = Some ''controlled'' then Inr Controlled
                else Inl SxInvalidServerMessage) (\<lambda>role.
              if actor_service \<noteq> None then Inl SxInvalidServerMessage else Inr (SaDevice device_id role)))
     else if actor_type = ''service'' then
       (if actor_device_id \<noteq> None \<or> actor_role \<noteq> None then Inl SxInvalidServerMessage
        else
          case actor_service of
            None \<Rightarrow> Inl SxInvalidServerMessage
          | Some service \<Rightarrow> if service = [] then Inl SxInvalidServerMessage else Inr (SaService service))
     else if actor_type = ''system'' then
       (if actor_device_id \<noteq> None \<or> actor_role \<noteq> None \<or> actor_service \<noteq> None then Inl SxInvalidServerMessage
        else Inr SaSystem)
     else Inl SxInvalidServerMessage)"

record 'j session_state_wire =
  wx_kind :: string
  wx_session_id :: string
  wx_status :: string
  wx_actor_type :: string
  wx_actor_device_id :: "string option"
  wx_actor_role :: "string option"
  wx_actor_service :: "string option"
  wx_reason :: "string option"
  wx_event_id :: string
  wx_session :: 'j

record 'j session_state_notification =
  no_session_id :: string
  no_status :: string
  no_actor :: session_actor
  no_reason :: "string option"
  no_event_id :: string
  no_session :: "'j session_snapshot"

definition decode_session_state ::
    "'j message_env \<Rightarrow> 'j session_state_wire option \<Rightarrow> string \<Rightarrow> string \<Rightarrow> bool
      \<Rightarrow> signal_error + 'j session_state_notification" where
  "decode_session_state me wire message_type device_id reason_required =
    and_then (ok_or SxInvalidServerMessage wire) (\<lambda>wire.
    if wx_kind wire \<noteq> message_type then Inl SxInvalidServerMessage
    else
      and_then (decode_session_snapshot me (wx_session wire) device_id) (\<lambda>session.
      if wx_session_id wire = [] \<or> wx_status wire = [] \<or> wx_event_id wire = []
         \<or> wx_session_id wire \<noteq> sn_session_id session
         \<or> wx_status wire \<noteq> sn_status session
         \<or> (reason_required \<and> \<not> nonempty_opt (wx_reason wire))
      then Inl SxInvalidServerMessage
      else
        and_then (decode_session_actor (wx_actor_type wire) (wx_actor_device_id wire) (wx_actor_role wire)
            (wx_actor_service wire)) (\<lambda>actor.
        Inr \<lparr>no_session_id = wx_session_id wire, no_status = wx_status wire, no_actor = actor,
             no_reason = wx_reason wire, no_event_id = wx_event_id wire, no_session = session\<rparr>)))"

definition outbound_session_message_ok ::
    "'j message_env \<Rightarrow> session_signal_message_kind \<Rightarrow> string \<Rightarrow> session_role \<Rightarrow> string \<Rightarrow> 'j \<Rightarrow> u64
      \<Rightarrow> signal_error + (string \<times> string \<times> session_role \<times> 'j)" where
  "outbound_session_message_ok me kind session_id role local_device_id payload now =
    (if \<not> validate_session_message_payload me kind session_id local_device_id role payload now
     then Inl SxInvalidSessionMessage
     else Inr (message_kind_as_str kind, session_id, role, payload))"

definition candidate_token_request_ok :: "string \<Rightarrow> candidate_token_request \<Rightarrow> signal_error + candidate_token_request" where
  "candidate_token_request_ok local_device_id request =
    (if local_device_id = [] \<or> cr_device_id request \<noteq> local_device_id \<or> cr_requested_ttl_millis request = 0
     then Inl SxInvalidSessionMessage else Inr request)"

record online_device =
  od_account_id :: string
  od_device_id :: string
  od_public_key_id :: string
  od_public_key_version :: u32
  od_public_key :: string
  od_client_capabilities_hash :: string
  od_status :: device_status
  od_last_seen_epoch_millis :: u64
  od_connection_id :: string

datatype 'j signal_notification =
    SnOnlineDevices "online_device list"
  | SnSessionInvite "'j session_snapshot"
  | SnSessionAcceptAck "'j session_state_notification"
  | SnSessionRejectAck "'j session_state_notification"
  | SnSessionCancelAck "'j session_state_notification"
  | SnSessionCloseAck "'j session_state_notification"
  | SnConnectionState "'j session_state_notification"
  | SnCandidateTokenIssued candidate_token_issued
  | SnSessionMessage "'j session_peer_message"

text \<open>\<^verbatim>\<open>serde_json::from_str\<close> at the wire types.\<close>

record 'j wire_json =
  wj_online_devices :: "string \<Rightarrow> (string \<times> online_device list) option"
  wj_session_invite :: "string \<Rightarrow> (string \<times> 'j) option"
  wj_session_state :: "string \<Rightarrow> 'j session_state_wire option"
  wj_candidate_token :: "string \<Rightarrow> candidate_token_issued option"
  wj_session_message :: "string \<Rightarrow> 'j session_message_wire option"

definition online_device_refused :: "'j message_env \<Rightarrow> online_device \<Rightarrow> bool" where
  "online_device_refused me d \<longleftrightarrow>
    od_device_id d = [] \<or> od_public_key_id d = [] \<or> od_public_key_version d = 0
    \<or> (case me_base64 me (od_public_key d) of None \<Rightarrow> True | Some k \<Rightarrow> length k \<noteq> 32)"

definition decode_online_devices ::
    "'j message_env \<Rightarrow> (string \<times> online_device list) option \<Rightarrow> string \<Rightarrow> signal_error + online_device list" where
  "decode_online_devices me wire message_type =
    and_then (ok_or SxInvalidServerMessage wire) (\<lambda>(kind, devices).
    if kind \<noteq> message_type \<or> list_ex (online_device_refused me) devices then Inl SxInvalidServerMessage
    else Inr devices)"

definition decode_server_notification ::
    "'j message_env \<Rightarrow> 'j wire_json \<Rightarrow> string \<Rightarrow> string \<Rightarrow> string \<Rightarrow> u64
      \<Rightarrow> signal_error + 'j signal_notification option" where
  "decode_server_notification me wj json message_type device_id now =
    (if message_type = ''online_devices'' then
       map_ok (Some \<circ> SnOnlineDevices) (decode_online_devices me (wj_online_devices wj json) message_type)
     else if message_type = ''session_invite'' then
       map_ok (Some \<circ> SnSessionInvite) (and_then (ok_or SxInvalidServerMessage (wj_session_invite wj json)) (\<lambda>(kind, session).
         if kind \<noteq> message_type then Inl SxInvalidServerMessage else decode_session_snapshot me session device_id))
     else if message_type = ''session_accept_ack'' then
       map_ok (Some \<circ> SnSessionAcceptAck) (decode_session_state me (wj_session_state wj json) message_type device_id False)
     else if message_type = ''session_reject_ack'' then
       map_ok (Some \<circ> SnSessionRejectAck) (decode_session_state me (wj_session_state wj json) message_type device_id True)
     else if message_type = ''session_cancel_ack'' then
       map_ok (Some \<circ> SnSessionCancelAck) (decode_session_state me (wj_session_state wj json) message_type device_id True)
     else if message_type = ''session_close_ack'' then
       map_ok (Some \<circ> SnSessionCloseAck) (decode_session_state me (wj_session_state wj json) message_type device_id True)
     else if message_type = ''connection_state'' then
       map_ok (Some \<circ> SnConnectionState) (decode_session_state me (wj_session_state wj json) message_type device_id False)
     else if message_type = ''candidate_token_issued'' then
       and_then (ok_or SxInvalidServerMessage (wj_candidate_token wj json)) (\<lambda>issued.
         if ci_device_id issued \<noteq> device_id \<or> ci_candidate_token issued = []
            \<or> ci_expires_at_epoch_millis issued \<le> now
         then Inl SxInvalidServerMessage else Inr (Some (SnCandidateTokenIssued issued)))
     else if message_type = ''connection_candidate'' \<or> message_type = ''key_exchange_message''
        \<or> message_type = ''key_confirm'' then
       map_ok (Some \<circ> SnSessionMessage) (decode_session_message me (wj_session_message wj json) message_type now)
     else Inr None)"

text \<open>A decoded notification concerns the device it was decoded for.\<close>

definition notification_concerns :: "string \<Rightarrow> 'j signal_notification \<Rightarrow> bool" where
  "notification_concerns d n \<longleftrightarrow>
    (case n of
       SnSessionInvite s \<Rightarrow> d = sn_controller_device_id s \<or> d = sn_controlled_device_id s
     | SnSessionAcceptAck s \<Rightarrow> d = sn_controller_device_id (no_session s) \<or> d = sn_controlled_device_id (no_session s)
     | SnSessionRejectAck s \<Rightarrow> d = sn_controller_device_id (no_session s) \<or> d = sn_controlled_device_id (no_session s)
     | SnSessionCancelAck s \<Rightarrow> d = sn_controller_device_id (no_session s) \<or> d = sn_controlled_device_id (no_session s)
     | SnSessionCloseAck s \<Rightarrow> d = sn_controller_device_id (no_session s) \<or> d = sn_controlled_device_id (no_session s)
     | SnConnectionState s \<Rightarrow> d = sn_controller_device_id (no_session s) \<or> d = sn_controlled_device_id (no_session s)
     | SnCandidateTokenIssued t \<Rightarrow> d = ci_device_id t
     | _ \<Rightarrow> True)"

lemma decode_session_snapshot_ends:
  "decode_session_snapshot me p d = Inr s \<Longrightarrow> d = sn_controller_device_id s \<or> d = sn_controlled_device_id s"
  by (auto simp: decode_session_snapshot_def result_simps)

lemma decode_session_state_ends:
  "decode_session_state me w t d b = Inr s \<Longrightarrow>
    d = sn_controller_device_id (no_session s) \<or> d = sn_controlled_device_id (no_session s)"
  by (auto simp: decode_session_state_def result_simps dest: decode_session_snapshot_ends)

lemma if_branchE: "(if c then a else b) = r \<Longrightarrow> (a = r \<Longrightarrow> P) \<Longrightarrow> (b = r \<Longrightarrow> P) \<Longrightarrow> P"
  by (cases c) simp_all

lemma decode_server_notification_concerns:
  "decode_server_notification me wj json t d now = Inr (Some n) \<Longrightarrow> notification_concerns d n"
  unfolding decode_server_notification_def
  by (elim if_branchE)
    (auto simp: result_simps notification_concerns_def dest: decode_session_state_ends decode_session_snapshot_ends)

subsection \<open>The two sides agree\<close>

lemma message_kind_parse_as_str: "message_kind_parse (message_kind_as_str k) = Some k"
  by (cases k) (simp_all add: message_kind_parse_def)

text \<open>The server and the client accept the same payloads.\<close>

lemma payload_checks_agree:
  assumes "me_uuid me sid = Some u"
  shows "validate_session_message_payload me k sid d role p now \<longleftrightarrow>
    validate_forward_payload me (message_kind_as_str k) p u d role now"
  using assms
  by (cases k; cases role)
    (auto simp: validate_session_message_payload_def validate_forward_payload_def forward_candidate_ok_def
      transport_identity_valid_def client_server_name_ok_def valid_session_server_name_def signature_bytes_def
      split: option.splits if_splits)

text \<open>The message as the server forwards it: the sender field is the authenticated device.\<close>

definition forwarded_wire ::
    "string \<Rightarrow> string \<Rightarrow> session_role \<Rightarrow> string \<Rightarrow> 'j \<Rightarrow> 'j session_message_wire" where
  "forwarded_wire message_type session_id role from_device_id payload =
    \<lparr>mw_kind = message_type, mw_session_id = session_id, mw_role = role,
     mw_from_device_id = from_device_id, mw_payload = payload\<rparr>"

lemma forwarded_decodes:
  assumes "me_uuid me sid = Some u" "validate_forward_payload me (message_kind_as_str k) p u d role now"
    "sid \<noteq> []" "d \<noteq> []"
  shows "decode_session_message me (Some (forwarded_wire (message_kind_as_str k) sid role d p))
      (message_kind_as_str k) now
    = Inr \<lparr>pm_kind = k, pm_session_id = sid, pm_role = role, pm_from_device_id = d, pm_payload = p\<rparr>"
  using assms payload_checks_agree [OF assms(1)]
  by (simp add: decode_session_message_def forwarded_wire_def message_kind_parse_as_str)

text \<open>The wire form of a state notification, and when the client takes what the server queued.\<close>

fun notification_type_str :: "persisted_notification_type \<Rightarrow> string" where
  "notification_type_str PnSessionInvite = ''session_invite''"
| "notification_type_str PnSessionInviteQueued = ''session_invite_queued''"
| "notification_type_str PnSessionAcceptAck = ''session_accept_ack''"
| "notification_type_str PnSessionRejectAck = ''session_reject_ack''"
| "notification_type_str PnSessionCancelAck = ''session_cancel_ack''"
| "notification_type_str PnSessionCloseAck = ''session_close_ack''"
| "notification_type_str PnConnectionState = ''connection_state''"

definition reason_required_for :: "persisted_notification_type \<Rightarrow> bool" where
  "reason_required_for k \<longleftrightarrow> k \<in> {PnSessionRejectAck, PnSessionCancelAck, PnSessionCloseAck}"

definition state_wire :: "'j persisted_notification \<Rightarrow> 'j session_state_wire option" where
  "state_wire n =
    (case (pk_session_id n, pk_status n, pk_actor_type n, pk_event_id n) of
       (Some sid, Some st, Some at, Some ev) \<Rightarrow>
         Some \<lparr>wx_kind = notification_type_str (pk_kind n), wx_session_id = sid, wx_status = st, wx_actor_type = at,
           wx_actor_device_id = pk_actor_device_id n, wx_actor_role = pk_actor_role n,
           wx_actor_service = pk_actor_service n, wx_reason = pk_reason n, wx_event_id = ev,
           wx_session = pk_session n\<rparr>
     | _ \<Rightarrow> None)"

lemma actor_decodes:
  assumes "valid_actor n" "pk_actor_type n = Some at"
  shows "\<exists>a. decode_session_actor at (pk_actor_device_id n) (pk_actor_role n) (pk_actor_service n) = Inr a"
  using assms
  by (auto simp: valid_actor_def decode_session_actor_def nonempty_opt_def split: if_splits)

lemma snapshot_decodes:
  assumes "is_valid_for_device me n d"
    and ends: "nonempty_opt (me_str me (pk_session n) ''controller_device_id'')"
      "nonempty_opt (me_str me (pk_session n) ''controlled_device_id'')"
  obtains s where "decode_session_snapshot me (pk_session n) d = Inr s"
    "me_str me (pk_session n) ''session_id'' = Some (sn_session_id s)"
    "me_str me (pk_session n) ''status'' = Some (sn_status s)" "sn_session_id s \<noteq> []" "sn_status s \<noteq> []"
proof -
  from assms(1) obtain sid st where s: "me_is_object me (pk_session n)" "me_str me (pk_session n) ''session_id'' = Some sid"
    "me_str me (pk_session n) ''status'' = Some st" "sid \<noteq> []" "st \<noteq> []"
    and d: "Some d = me_str me (pk_session n) ''controller_device_id'' \<or> Some d = me_str me (pk_session n) ''controlled_device_id''"
    by (auto simp: is_valid_for_device_def split: if_splits option.splits)
  from ends obtain a b where ab: "me_str me (pk_session n) ''controller_device_id'' = Some a" "a \<noteq> []"
    "me_str me (pk_session n) ''controlled_device_id'' = Some b" "b \<noteq> []"
    by (auto simp: nonempty_opt_def)
  have "decode_session_snapshot me (pk_session n) d = Inr \<lparr>sn_session_id = sid, sn_status = st,
      sn_controller_device_id = a, sn_controlled_device_id = b, sn_payload = pk_session n\<rparr>"
    using s d ab by (auto simp: decode_session_snapshot_def snapshot_field_def)
  then show thesis using that s by fastforce
qed

lemma state_notification_decodes:
  assumes valid: "is_valid_for_device me n d" and kind: "pk_kind n \<notin> {PnSessionInvite, PnSessionInviteQueued}"
    and ends: "nonempty_opt (me_str me (pk_session n) ''controller_device_id'')"
      "nonempty_opt (me_str me (pk_session n) ''controlled_device_id'')"
  shows "\<exists>s. decode_session_state me (state_wire n) (notification_type_str (pk_kind n)) d (reason_required_for (pk_kind n))
      = Inr s \<and> Some (no_session_id s) = pk_session_id n \<and> Some (no_event_id s) = pk_event_id n"
proof -
  obtain s where s: "decode_session_snapshot me (pk_session n) d = Inr s"
    "me_str me (pk_session n) ''session_id'' = Some (sn_session_id s)"
    "me_str me (pk_session n) ''status'' = Some (sn_status s)" "sn_session_id s \<noteq> []" "sn_status s \<noteq> []"
    using snapshot_decodes [OF valid ends] by metis
  have v: "pk_session_id n = Some (sn_session_id s)" "pk_status n = Some (sn_status s)"
    "nonempty_opt (pk_event_id n)" "valid_actor n" "reason_required_for (pk_kind n) \<Longrightarrow> nonempty_opt (pk_reason n)"
    using valid kind s by (auto simp: is_valid_for_device_def reason_required_for_def split: if_splits)
  then obtain at ev where at: "pk_actor_type n = Some at" and ev: "pk_event_id n = Some ev" "ev \<noteq> []"
    by (auto simp: valid_actor_def nonempty_opt_def split: if_splits)
  from actor_decodes [OF v(4) at] obtain a
    where a: "decode_session_actor at (pk_actor_device_id n) (pk_actor_role n) (pk_actor_service n) = Inr a" ..
  show ?thesis
    using s v(1,2,5) at ev a by (auto simp: decode_session_state_def state_wire_def)
qed

end
