(* ===== verification/Rc_SignalHub.thy ===== *)
theory Rc_SignalHub
  imports Rc_SignalMessages
begin

section \<open>The signal server: presence, connections and forwarding\<close>

text \<open>
  The shared state of \<^verbatim>\<open>services/signal-server/src\<close>: the in-memory backend (\<^verbatim>\<open>backend.rs\<close>), the
  connection registry (\<^verbatim>\<open>notify.rs\<close>) and the handlers of \<^verbatim>\<open>lib.rs\<close> on it. One task runs per
  socket (\<^verbatim>\<open>handle_socket\<close>); between two accesses to the shared state other tasks may run, so
  each access is a step of its own, and a run interleaves the steps of all tasks in any order.
  The Redis backend, timers and the JSON text of messages are not modelled; texts of error
  messages are left out. The identifier of task \<open>n\<close> is drawn from \<open>rnd n\<close>.
\<close>

definition NOTIFICATION_QUEUE_CAPACITY :: nat where
  "NOTIFICATION_QUEUE_CAPACITY = 64"

definition MAX_INTERNAL_PUSH_BODY_BYTES :: nat where
  "MAX_INTERNAL_PUSH_BODY_BYTES = 64 * 1024"

datatype error_code =
    EcUnauthorized | EcDeviceOffline | EcPermissionDenied | EcSessionExpired | EcUnsupportedVersion
  | EcInvalidPayload | EcUnsupportedMessageKind | EcInvalidChannel | EcReplayDetected | EcAuthenticationFailed
  | EcInternal

subsection \<open>Presence\<close>

type_synonym presence_map = "(string \<times> string, online_device) fmap"

datatype presence_mutation = PmUpdated | PmMissing | PmSuperseded

definition presence_put :: "presence_map \<Rightarrow> online_device \<Rightarrow> presence_map" where
  "presence_put online d = fmupd (od_account_id d, od_device_id d) d online"

text \<open>\<^verbatim>\<open>sort_by\<close> on device identifiers, which are distinct within an account.\<close>

definition presence_list :: "presence_map \<Rightarrow> string \<Rightarrow> online_device list" where
  "presence_list online account_id =
    map (\<lambda>k. the (fmlookup online k))
      (filter (\<lambda>k. od_account_id (the (fmlookup online k)) = account_id) (sorted_list_of_fset (fmdom online)))"

definition presence_update ::
    "presence_map \<Rightarrow> string \<Rightarrow> string \<Rightarrow> string \<Rightarrow> device_status \<Rightarrow> u64 \<Rightarrow> presence_mutation \<times> presence_map" where
  "presence_update online account_id device_id connection_id status last_seen =
    (case fmlookup online (account_id, device_id) of
       None \<Rightarrow> (PmMissing, online)
     | Some d \<Rightarrow>
         if od_connection_id d \<noteq> connection_id then (PmSuperseded, online)
         else (PmUpdated, fmupd (account_id, device_id)
           (d\<lparr>od_status := status, od_last_seen_epoch_millis := last_seen\<rparr>) online))"

definition presence_refresh :: "presence_map \<Rightarrow> string \<Rightarrow> string \<Rightarrow> string \<Rightarrow> presence_mutation" where
  "presence_refresh online account_id device_id connection_id =
    (case fmlookup online (account_id, device_id) of
       None \<Rightarrow> PmMissing
     | Some d \<Rightarrow> if od_connection_id d = connection_id then PmUpdated else PmSuperseded)"

definition presence_remove :: "presence_map \<Rightarrow> string \<Rightarrow> string \<Rightarrow> string \<Rightarrow> bool \<times> presence_map" where
  "presence_remove online account_id device_id connection_id =
    (case fmlookup online (account_id, device_id) of
       Some d \<Rightarrow>
         if od_connection_id d = connection_id then (True, fmdrop (account_id, device_id) online) else (False, online)
     | None \<Rightarrow> (False, online))"

definition online_device_of ::
    "'j signal_env \<Rightarrow> trusted_device \<Rightarrow> string \<Rightarrow> bytes \<Rightarrow> device_status \<Rightarrow> u64 \<Rightarrow> online_device" where
  "online_device_of env d connection_id capabilities_hash status now =
    \<lparr>od_account_id = td_account_id d,
     od_device_id = td_device_id d,
     od_public_key_id = td_public_key_id d,
     od_public_key_version = td_public_key_version d,
     od_public_key = sv_base64_encode env (td_public_key d),
     od_client_capabilities_hash = encode_hex capabilities_hash,
     od_status = status,
     od_last_seen_epoch_millis = now,
     od_connection_id = connection_id\<rparr>"

subsection \<open>Session authorization\<close>

record session_authorization =
  sz_session_id :: string
  sz_controller_device_id :: string
  sz_controlled_device_id :: string
  sz_permissions_digest :: string
  sz_relay_token_epoch :: u64

fun peer_for :: "session_authorization \<Rightarrow> string \<Rightarrow> session_role \<Rightarrow> string option" where
  "peer_for z device_id Controller =
    (if sz_controller_device_id z = device_id then Some (sz_controlled_device_id z) else None)"
| "peer_for z device_id Controlled =
    (if sz_controlled_device_id z = device_id then Some (sz_controller_device_id z) else None)"

record session_auth_request =
  sq_account_id :: string
  sq_device_id :: string
  sq_session_id :: string
  sq_role :: string

record session_auth_response =
  sy_authorized :: bool
  sy_session_id :: string
  sy_controller_device_id :: string
  sy_controlled_device_id :: string
  sy_permissions_digest :: string
  sy_relay_token_epoch :: u64

definition api_session_authorize ::
    "(session_auth_request \<Rightarrow> (u16 \<times> session_auth_response option) option) \<Rightarrow> string \<Rightarrow> string \<Rightarrow> string
      \<Rightarrow> session_role \<Rightarrow> string + session_authorization" where
  "api_session_authorize post account_id device_id session_id role =
    (case post \<lparr>sq_account_id = account_id, sq_device_id = device_id, sq_session_id = session_id,
         sq_role = role_as_str role\<rparr> of
       None \<Rightarrow> Inl ''session authorization service unavailable''
     | Some (status, body) \<Rightarrow>
         if \<not> (200 \<le> status \<and> status < 300) then Inl ''session authorization rejected''
         else
           and_then (ok_or ''invalid session authorization response'' body) (\<lambda>y.
           if \<not> sy_authorized y \<or> sy_session_id y \<noteq> session_id
           then Inl ''session authorization binding mismatch''
           else
             let z = \<lparr>sz_session_id = sy_session_id y,
                      sz_controller_device_id = sy_controller_device_id y,
                      sz_controlled_device_id = sy_controlled_device_id y,
                      sz_permissions_digest = sy_permissions_digest y,
                      sz_relay_token_epoch = sy_relay_token_epoch y\<rparr> in
             if peer_for z device_id role = None then Inl ''session authorization role mismatch'' else Inr z))"

datatype session_authorizer =
    SzApi "session_auth_request \<Rightarrow> (u16 \<times> session_auth_response option) option"
  | SzMemory "string \<rightharpoonup> session_authorization"

fun session_authorize ::
    "session_authorizer \<Rightarrow> string \<Rightarrow> string \<Rightarrow> string \<Rightarrow> session_role \<Rightarrow> string + session_authorization" where
  "session_authorize (SzApi post) account_id device_id session_id role =
    api_session_authorize post account_id device_id session_id role"
| "session_authorize (SzMemory sessions) account_id device_id session_id role =
    and_then (ok_or ''session was not authorized'' (sessions session_id)) (\<lambda>z.
    if peer_for z device_id role = None then Inl ''session role binding mismatch'' else Inr z)"

subsection \<open>Tasks and the connection registry\<close>

datatype 'j hub_notification =
    NtForward string string session_role string 'j
  | NtPush "'j persisted_notification"

text \<open>Where a task stands in \<^verbatim>\<open>handle_socket\<close> after the hello was authenticated.\<close>

datatype 'j task_phase =
    TpAuthenticated          \<comment> \<open>before \<^verbatim>\<open>put_presence\<close>\<close>
  | TpPresent                \<comment> \<open>before \<^verbatim>\<open>register\<close>\<close>
  | TpRegistered             \<comment> \<open>before \<^verbatim>\<open>hello_ok\<close> is sent\<close>
  | TpLive                   \<comment> \<open>in the loop\<close>
  | TpHolding "'j hub_notification"  \<comment> \<open>received, before \<^verbatim>\<open>acquire_ownership\<close>\<close>
  | TpLeaving                \<comment> \<open>before \<^verbatim>\<open>unregister\<close>\<close>
  | TpUnregistered           \<comment> \<open>before \<^verbatim>\<open>remove_presence\<close>\<close>

record 'j signal_task =
  tk_account_id :: string
  tk_device :: trusted_device
  tk_capabilities_hash :: bytes
  tk_connection_id :: string
  tk_phase :: "'j task_phase"
  tk_queue :: "'j hub_notification list"
  tk_superseded :: bool

text \<open>A registry entry; the queue and the one-shot channel live in the task \<open>ce_task\<close>.\<close>

record connection_entry =
  ce_connection_id :: string
  ce_task :: nat

record 'j hub =
  hb_tasks :: "nat \<rightharpoonup> 'j signal_task"
  hb_next :: nat
  hb_connections :: "string \<rightharpoonup> connection_entry"
  hb_online :: presence_map
  hb_replays :: hello_replays
  hb_lan_guard :: lan_candidate_guard

definition hub_init :: "'j hub" where
  "hub_init = \<lparr>hb_tasks = Map.empty, hb_next = 0, hb_connections = Map.empty, hb_online = fmempty,
    hb_replays = fmempty, hb_lan_guard = lan_candidate_guard_default\<rparr>"

definition update_task :: "nat \<Rightarrow> ('j signal_task \<Rightarrow> 'j signal_task) \<Rightarrow> 'j hub \<Rightarrow> 'j hub" where
  "update_task n f h = h\<lparr>hb_tasks := (hb_tasks h)(n := map_option f (hb_tasks h n))\<rparr>"

definition set_phase :: "nat \<Rightarrow> 'j task_phase \<Rightarrow> 'j hub \<Rightarrow> 'j hub" where
  "set_phase n p = update_task n (\<lambda>t. t\<lparr>tk_phase := p\<rparr>)"

text \<open>\<^verbatim>\<open>superseded.send(())\<close>, to the task of an entry that leaves the registry.\<close>

definition supersede :: "connection_entry option \<Rightarrow> 'j hub \<Rightarrow> 'j hub" where
  "supersede previous h =
    (case previous of None \<Rightarrow> h | Some e \<Rightarrow> update_task (ce_task e) (\<lambda>t. t\<lparr>tk_superseded := True\<rparr>) h)"

definition registry_register_conn :: "'j hub \<Rightarrow> string \<Rightarrow> string \<Rightarrow> nat \<Rightarrow> 'j hub" where
  "registry_register_conn h device_id connection_id n =
    supersede (hb_connections h device_id)
      (h\<lparr>hb_connections := (hb_connections h)(device_id \<mapsto> \<lparr>ce_connection_id = connection_id, ce_task = n\<rparr>)\<rparr>)"

datatype enqueue_error = EnOffline | EnOverloaded

text \<open>\<^verbatim>\<open>try_send\<close>: the queue is bounded; a receiver that is gone counts as offline.\<close>

definition registry_enqueue ::
    "'j hub \<Rightarrow> string \<Rightarrow> 'j hub_notification \<Rightarrow> (enqueue_error + unit) \<times> 'j hub" where
  "registry_enqueue h device_id nt =
    (case hb_connections h device_id of
       None \<Rightarrow> (Inl EnOffline, h)
     | Some e \<Rightarrow>
         (case hb_tasks h (ce_task e) of
            None \<Rightarrow> (Inl EnOffline, h)
          | Some t \<Rightarrow>
              if length (tk_queue t) \<ge> NOTIFICATION_QUEUE_CAPACITY then (Inl EnOverloaded, h)
              else (Inr (), update_task (ce_task e) (\<lambda>t. t\<lparr>tk_queue := tk_queue t @ [nt]\<rparr>) h)))"

definition registry_is_owner :: "'j hub \<Rightarrow> string \<Rightarrow> string \<Rightarrow> bool" where
  "registry_is_owner h device_id connection_id \<longleftrightarrow>
    (case hb_connections h device_id of None \<Rightarrow> False | Some e \<Rightarrow> ce_connection_id e = connection_id)"

definition registry_unregister :: "'j hub \<Rightarrow> string \<Rightarrow> string \<Rightarrow> bool \<times> 'j hub" where
  "registry_unregister h device_id connection_id =
    (if \<not> registry_is_owner h device_id connection_id then (False, h)
     else (True, supersede (hb_connections h device_id)
       (h\<lparr>hb_connections := (hb_connections h)(device_id := None)\<rparr>)))"

subsection \<open>Handlers\<close>

datatype 'j client_message =
    CmPing
  | CmListOnlineDevices
  | CmSetDeviceStatus string device_status u64
  | CmConnectionCandidate string session_role 'j
  | CmRequestCandidateToken candidate_token_request
  | CmKeyExchangeMessage string session_role 'j
  | CmKeyConfirm string session_role 'j

datatype server_message =
    SmPong
  | SmDeviceStatusUpdated string device_status
  | SmOnlineDevices "online_device list"
  | SmCandidateTokenIssued candidate_token_issued
  | SmSessionMessageForwarded string string string
  | SmError error_code

text \<open>
  The parameters of the server: environment, secrets, authorizers, JSON. \<open>hc_hyphenated\<close> prints
  a UUID, \<open>hc_value\<close> and \<open>hc_message\<close> parse a text frame, \<open>hc_serializes\<close> says that a
  notification can be written as JSON, \<open>hc_push\<close> parses the body of a push.
\<close>

record 'j hub_config =
  hc_env :: "'j signal_env"
  hc_messages :: "'j message_env"
  hc_device_authenticator :: device_authenticator
  hc_session_authorizer :: session_authorizer
  hc_service_token :: string
  hc_hyphenated :: "u128 \<Rightarrow> string"
  hc_value :: "string \<Rightarrow> 'j option"
  hc_message :: "string \<Rightarrow> 'j client_message option"
  hc_serializes :: "'j hub_notification \<Rightarrow> bool"
  hc_push :: "bytes \<Rightarrow> (string \<times> 'j persisted_notification) option"

definition forward_session_message ::
    "'j hub_config \<Rightarrow> 'j hub \<Rightarrow> string \<Rightarrow> string \<Rightarrow> string \<Rightarrow> string \<Rightarrow> session_role \<Rightarrow> 'j \<Rightarrow> u64
      \<Rightarrow> server_message \<times> 'j hub" where
  "forward_session_message hc h account_id device_id message_type session_id role payload now =
    (case me_uuid (hc_messages hc) session_id of
       None \<Rightarrow> (SmError EcInvalidPayload, h)
     | Some binary_session_id \<Rightarrow>
         if \<not> validate_forward_payload (hc_messages hc) message_type payload binary_session_id device_id role now
         then (SmError EcInvalidPayload, h)
         else
           case session_authorize (hc_session_authorizer hc) account_id device_id session_id role of
             Inl _ \<Rightarrow> (SmError EcPermissionDenied, h)
           | Inr z \<Rightarrow>
               (case peer_for z device_id role of
                  None \<Rightarrow> (SmError EcPermissionDenied, h)
                | Some peer_device_id \<Rightarrow>
                    let nt = NtForward message_type session_id role device_id payload in
                    if \<not> hc_serializes hc nt then (SmError EcInvalidPayload, h)
                    else
                      case registry_enqueue h peer_device_id nt of
                        (Inr _, h) \<Rightarrow> (SmSessionMessageForwarded session_id message_type peer_device_id, h)
                      | (Inl EnOffline, h) \<Rightarrow> (SmError EcDeviceOffline, h)
                      | (Inl EnOverloaded, h) \<Rightarrow> (SmError EcInternal, h)))"

definition issue_lan_candidate_token ::
    "'j hub_config \<Rightarrow> 'j hub \<Rightarrow> string \<Rightarrow> string \<Rightarrow> bytes \<Rightarrow> candidate_token_request \<Rightarrow> u64 \<Rightarrow> bytes
      \<Rightarrow> server_message \<times> 'j hub" where
  "issue_lan_candidate_token hc h account_id device_id public_key request now random_token =
    (case session_authorize (hc_session_authorizer hc) account_id device_id
         (hc_hyphenated hc (cr_session_id request)) (cr_role request) of
       Inl _ \<Rightarrow> (SmError EcPermissionDenied, h)
     | Inr _ \<Rightarrow>
         let pr = sv_primitives (hc_env hc);
             (result, g) = lan_validate_request pr (hb_lan_guard h) request (cr_session_id request) device_id
               (cr_role request) public_key now;
             h = h\<lparr>hb_lan_guard := g\<rparr> in
         case result of
           Inl _ \<Rightarrow> (SmError EcInvalidPayload, h)
         | Inr candidate \<Rightarrow>
             let expires_at = saturating_add now (ucast (cr_requested_ttl_millis request)) in
             (case candidate_token_binding_hash (pr_sha256 pr) candidate expires_at of
                Inl _ \<Rightarrow> (SmError EcInvalidPayload, h)
              | Inr binding \<Rightarrow>
                  (SmCandidateTokenIssued
                    \<lparr>ci_session_id = cr_session_id request, ci_device_id = cr_device_id request,
                     ci_role = cr_role request, ci_candidate_id = cr_candidate_id request,
                     ci_candidate_token = random_token, ci_candidate_token_binding_hash = binding,
                     ci_expires_at_epoch_millis = expires_at\<rparr>, h)))"

definition handle_set_status ::
    "'j hub \<Rightarrow> string \<Rightarrow> string \<Rightarrow> string \<Rightarrow> string \<Rightarrow> device_status \<Rightarrow> u64 \<Rightarrow> server_message \<times> 'j hub" where
  "handle_set_status h account_id device_id connection_id target status now =
    (if target \<noteq> device_id then (SmError EcPermissionDenied, h)
     else
       let (m, online) = presence_update (hb_online h) account_id target connection_id status now;
           h = h\<lparr>hb_online := online\<rparr> in
       (case m of
          PmUpdated \<Rightarrow> SmDeviceStatusUpdated target status
        | PmMissing \<Rightarrow> SmError EcDeviceOffline
        | PmSuperseded \<Rightarrow> SmError EcAuthenticationFailed, h))"

definition handle_authenticated_text ::
    "'j hub_config \<Rightarrow> 'j hub \<Rightarrow> string \<Rightarrow> string \<Rightarrow> bytes \<Rightarrow> string \<Rightarrow> string \<Rightarrow> u64 \<Rightarrow> bytes
      \<Rightarrow> server_message \<times> 'j hub" where
  "handle_authenticated_text hc h account_id device_id public_key connection_id json now random_token =
    (case hc_value hc json of
       None \<Rightarrow> (SmError EcInvalidPayload, h)
     | Some v \<Rightarrow>
         let message_type = (case me_str (hc_messages hc) v ''type'' of None \<Rightarrow> [] | Some t \<Rightarrow> t) in
         if is_forbidden_ws_write message_type then (SmError EcPermissionDenied, h)
         else
           case hc_message hc json of
             None \<Rightarrow> (SmError EcUnsupportedMessageKind, h)
           | Some CmPing \<Rightarrow> (SmPong, h)
           | Some CmListOnlineDevices \<Rightarrow> (SmOnlineDevices (presence_list (hb_online h) account_id), h)
           | Some (CmSetDeviceStatus target status _) \<Rightarrow>
               handle_set_status h account_id device_id connection_id target status now
           | Some (CmConnectionCandidate session_id role payload) \<Rightarrow>
               forward_session_message hc h account_id device_id ''connection_candidate'' session_id role payload now
           | Some (CmRequestCandidateToken request) \<Rightarrow>
               issue_lan_candidate_token hc h account_id device_id public_key request now random_token
           | Some (CmKeyExchangeMessage session_id role payload) \<Rightarrow>
               forward_session_message hc h account_id device_id ''key_exchange_message'' session_id role payload now
           | Some (CmKeyConfirm session_id role payload) \<Rightarrow>
               forward_session_message hc h account_id device_id ''key_confirm'' session_id role payload now)"

text \<open>The HTTP status and code of \<^verbatim>\<open>internal_push\<close>.\<close>

definition internal_push ::
    "'j hub_config \<Rightarrow> 'j hub \<Rightarrow> header_map \<Rightarrow> bytes \<Rightarrow> (u16 \<times> string) \<times> 'j hub" where
  "internal_push hc h headers body =
    (let authorized = (case bearer headers of
         None \<Rightarrow> False
       | Some token \<Rightarrow> service_token_matches (sv_primitives (hc_env hc)) token (hc_service_token hc)) in
     if \<not> authorized then ((401, ''unauthorized''), h)
     else if length body > MAX_INTERNAL_PUSH_BODY_BYTES then ((413, ''payload_too_large''), h)
     else
       case hc_push hc body of
         None \<Rightarrow> ((400, ''invalid_payload''), h)
       | Some (device_id, message) \<Rightarrow>
           if \<not> valid_device_id device_id \<or> \<not> is_valid_for_device (hc_messages hc) message device_id
           then ((400, ''invalid_payload''), h)
           else if \<not> hc_serializes hc (NtPush message) then ((400, ''invalid_payload''), h)
           else
             case registry_enqueue h device_id (NtPush message) of
               (Inr _, h) \<Rightarrow> ((202, ''notification_queued''), h)
             | (Inl EnOffline, h) \<Rightarrow> ((404, ''device_offline''), h)
             | (Inl EnOverloaded, h) \<Rightarrow> ((429, ''notification_queue_full''), h))"

subsection \<open>Steps\<close>

datatype 'j hub_op =
    HoHello access_claims string protocol_negotiation bytes u64 "'j hello_response" u64
  | HoPutPresence nat u64
  | HoRegister nat
  | HoGreet nat bool
  | HoSuperseded nat
  | HoReceive nat
  | HoSend nat bool
  | HoRefresh nat
  | HoText nat string u64 bytes bool
  | HoClose nat
  | HoUnregister nat
  | HoRemovePresence nat
  | HoPush header_map bytes

datatype 'j hub_event =
    EvIgnored
  | EvRejected string
  | EvAdmitted nat
  | EvDone
  | EvDelivered nat "'j hub_notification"
  | EvReply nat server_message
  | EvHttp u16 string

definition hub_hello ::
    "'j hub_config \<Rightarrow> (nat \<Rightarrow> bytes) \<Rightarrow> 'j hub \<Rightarrow> access_claims \<Rightarrow> string \<Rightarrow> protocol_negotiation \<Rightarrow> bytes \<Rightarrow> u64
      \<Rightarrow> 'j hello_response \<Rightarrow> u64 \<Rightarrow> 'j hub_event \<times> 'j hub" where
  "hub_hello hc rnd h claims token negotiation server_nonce expires response now =
    (let (result, replays) = authenticate_hello (hc_env hc) (hc_device_authenticator hc) (hb_replays h) claims token
           negotiation server_nonce expires response now (rnd (hb_next h));
         h = h\<lparr>hb_replays := replays\<rparr> in
     case result of
       Inl e \<Rightarrow> (EvRejected e, h)
     | Inr a \<Rightarrow>
         (EvAdmitted (hb_next h),
          h\<lparr>hb_next := Suc (hb_next h),
            hb_tasks := (hb_tasks h)(hb_next h \<mapsto>
              \<lparr>tk_account_id = ac_account_id claims, tk_device = ah_device a,
               tk_capabilities_hash = ah_capabilities_hash a, tk_connection_id = ah_connection_id a,
               tk_phase = TpAuthenticated, tk_queue = [], tk_superseded = False\<rparr>)\<rparr>))"

text \<open>The step of task \<open>n\<close>, in the phases where the code can take it.\<close>

definition task_step ::
    "'j hub \<Rightarrow> nat \<Rightarrow> ('j signal_task \<Rightarrow> bool) \<Rightarrow> ('j signal_task \<Rightarrow> 'j hub_event \<times> 'j hub) \<Rightarrow> 'j hub_event \<times> 'j hub" where
  "task_step h n enabled f =
    (case hb_tasks h n of None \<Rightarrow> (EvIgnored, h) | Some t \<Rightarrow> if enabled t then f t else (EvIgnored, h))"

definition tk_device_id :: "'j signal_task \<Rightarrow> string" where
  "tk_device_id t = td_device_id (tk_device t)"

fun hub_step ::
    "'j hub_config \<Rightarrow> (nat \<Rightarrow> bytes) \<Rightarrow> 'j hub \<Rightarrow> 'j hub_op \<Rightarrow> 'j hub_event \<times> 'j hub" where
  "hub_step hc rnd h (HoHello claims token negotiation server_nonce expires response now) =
    hub_hello hc rnd h claims token negotiation server_nonce expires response now"
| "hub_step hc rnd h (HoPutPresence n now) =
    task_step h n (\<lambda>t. tk_phase t = TpAuthenticated) (\<lambda>t.
      (EvDone, set_phase n TpPresent
        (h\<lparr>hb_online := presence_put (hb_online h)
            (online_device_of (hc_env hc) (tk_device t) (tk_connection_id t) (tk_capabilities_hash t) Online now)\<rparr>)))"
| "hub_step hc rnd h (HoRegister n) =
    task_step h n (\<lambda>t. tk_phase t = TpPresent) (\<lambda>t.
      (EvDone, set_phase n TpRegistered (registry_register_conn h (tk_device_id t) (tk_connection_id t) n)))"
| "hub_step hc rnd h (HoGreet n sent) =
    task_step h n (\<lambda>t. tk_phase t = TpRegistered) (\<lambda>t.
      (EvDone, set_phase n (if sent then TpLive else TpLeaving) h))"
| "hub_step hc rnd h (HoSuperseded n) =
    task_step h n (\<lambda>t. tk_phase t = TpLive \<and> tk_superseded t) (\<lambda>t. (EvDone, set_phase n TpLeaving h))"
| "hub_step hc rnd h (HoReceive n) =
    task_step h n (\<lambda>t. tk_phase t = TpLive \<and> \<not> tk_superseded t) (\<lambda>t.
      case tk_queue t of
        [] \<Rightarrow> (EvIgnored, h)
      | nt # q \<Rightarrow> (EvDone, update_task n (\<lambda>t. t\<lparr>tk_phase := TpHolding nt, tk_queue := q\<rparr>) h))"
| "hub_step hc rnd h (HoSend n sent) =
    task_step h n (\<lambda>_. True) (\<lambda>t.
      case tk_phase t of
        TpHolding nt \<Rightarrow>
          if \<not> registry_is_owner h (tk_device_id t) (tk_connection_id t) then (EvDone, set_phase n TpLeaving h)
          else if sent then (EvDelivered n nt, set_phase n TpLive h)
          else (EvDone, set_phase n TpLeaving h)
      | _ \<Rightarrow> (EvIgnored, h))"
| "hub_step hc rnd h (HoRefresh n) =
    task_step h n (\<lambda>t. tk_phase t = TpLive \<and> \<not> tk_superseded t) (\<lambda>t.
      (EvDone,
       if presence_refresh (hb_online h) (tk_account_id t) (tk_device_id t) (tk_connection_id t) = PmUpdated then h
       else set_phase n TpLeaving h))"
| "hub_step hc rnd h (HoText n json now random_token sent) =
    task_step h n (\<lambda>t. tk_phase t = TpLive \<and> \<not> tk_superseded t) (\<lambda>t.
      let (response, h) = handle_authenticated_text hc h (tk_account_id t) (tk_device_id t)
            (td_public_key (tk_device t)) (tk_connection_id t) json now random_token in
      (EvReply n response, if sent then h else set_phase n TpLeaving h))"
| "hub_step hc rnd h (HoClose n) =
    task_step h n (\<lambda>t. tk_phase t = TpLive) (\<lambda>t. (EvDone, set_phase n TpLeaving h))"
| "hub_step hc rnd h (HoUnregister n) =
    task_step h n (\<lambda>t. tk_phase t = TpLeaving) (\<lambda>t.
      (EvDone, set_phase n TpUnregistered (snd (registry_unregister h (tk_device_id t) (tk_connection_id t)))))"
| "hub_step hc rnd h (HoRemovePresence n) =
    task_step h n (\<lambda>t. tk_phase t = TpUnregistered) (\<lambda>t.
      (EvDone, h\<lparr>hb_online := snd (presence_remove (hb_online h) (tk_account_id t) (tk_device_id t) (tk_connection_id t)),
                hb_tasks := (hb_tasks h)(n := None)\<rparr>))"
| "hub_step hc rnd h (HoPush headers body) =
    (let ((status, code), h) = internal_push hc h headers body in (EvHttp status code, h))"

subsection \<open>The invariant\<close>

fun registered_phase :: "'j task_phase \<Rightarrow> bool" where
  "registered_phase TpAuthenticated = False"
| "registered_phase TpPresent = False"
| "registered_phase TpUnregistered = False"
| "registered_phase _ = True"

definition connection_id_of :: "'j hub_config \<Rightarrow> (nat \<Rightarrow> bytes) \<Rightarrow> nat \<Rightarrow> string" where
  "connection_id_of hc rnd n = sv_base64_encode (hc_env hc) (rnd n)"

text \<open>
  A task is known by its number and carries its own identifier; the registry entry of a device
  belongs to a registered task of that device, and a registered task that was not superseded
  owns its device's entry; a device listed online has a task that announced it.
\<close>

definition task_ok :: "'j hub_config \<Rightarrow> (nat \<Rightarrow> bytes) \<Rightarrow> nat \<Rightarrow> nat \<Rightarrow> 'j signal_task \<Rightarrow> bool" where
  "task_ok hc rnd next n t \<longleftrightarrow>
    n < next \<and> tk_connection_id t = connection_id_of hc rnd n \<and> td_account_id (tk_device t) = tk_account_id t
    \<and> length (tk_queue t) \<le> NOTIFICATION_QUEUE_CAPACITY"

definition owns :: "'j hub \<Rightarrow> nat \<Rightarrow> 'j signal_task \<Rightarrow> bool" where
  "owns h n t \<longleftrightarrow>
    hb_connections h (tk_device_id t) = Some \<lparr>ce_connection_id = tk_connection_id t, ce_task = n\<rparr>"

definition announced :: "'j hub \<Rightarrow> string \<times> string \<Rightarrow> online_device \<Rightarrow> bool" where
  "announced h k v \<longleftrightarrow> k = (od_account_id v, od_device_id v)
    \<and> (\<exists>n t. hb_tasks h n = Some t \<and> tk_connection_id t = od_connection_id v \<and> tk_account_id t = od_account_id v
         \<and> tk_device_id t = od_device_id v \<and> tk_phase t \<noteq> TpAuthenticated)"

definition hub_ok :: "'j hub_config \<Rightarrow> (nat \<Rightarrow> bytes) \<Rightarrow> 'j hub \<Rightarrow> bool" where
  "hub_ok hc rnd h \<longleftrightarrow>
    inj (connection_id_of hc rnd) \<and> authenticator_ok (hc_device_authenticator hc)
    \<and> (\<forall>n t. hb_tasks h n = Some t \<longrightarrow> task_ok hc rnd (hb_next h) n t)
    \<and> (\<forall>n t. hb_tasks h n = Some t \<longrightarrow> registered_phase (tk_phase t) \<longrightarrow> \<not> tk_superseded t \<longrightarrow> owns h n t)
    \<and> (\<forall>d e. hb_connections h d = Some e \<longrightarrow> (\<exists>t. hb_tasks h (ce_task e) = Some t \<and> tk_device_id t = d
         \<and> owns h (ce_task e) t \<and> registered_phase (tk_phase t) \<and> \<not> tk_superseded t))
    \<and> (\<forall>n t. hb_tasks h n = Some t \<longrightarrow> \<not> registered_phase (tk_phase t) \<longrightarrow> tk_phase t \<noteq> TpUnregistered \<longrightarrow>
         \<not> tk_superseded t)
    \<and> (\<forall>k v. fmlookup (hb_online h) k = Some v \<longrightarrow> announced h k v)"

lemma hub_okD:
  assumes "hub_ok hc rnd h"
  shows "inj (connection_id_of hc rnd)" "authenticator_ok (hc_device_authenticator hc)"
    "\<And>n t. hb_tasks h n = Some t \<Longrightarrow> task_ok hc rnd (hb_next h) n t"
    "\<And>n t. hb_tasks h n = Some t \<Longrightarrow> registered_phase (tk_phase t) \<Longrightarrow> \<not> tk_superseded t \<Longrightarrow> owns h n t"
    "\<And>d e. hb_connections h d = Some e \<Longrightarrow> \<exists>t. hb_tasks h (ce_task e) = Some t \<and> tk_device_id t = d
         \<and> owns h (ce_task e) t \<and> registered_phase (tk_phase t) \<and> \<not> tk_superseded t"
    "\<And>n t. hb_tasks h n = Some t \<Longrightarrow> \<not> registered_phase (tk_phase t) \<Longrightarrow> tk_phase t \<noteq> TpUnregistered \<Longrightarrow>
         \<not> tk_superseded t"
    "\<And>k v. fmlookup (hb_online h) k = Some v \<Longrightarrow> announced h k v"
  using assms unfolding hub_ok_def by blast+

lemma hub_okI:
  assumes "inj (connection_id_of hc rnd)" "authenticator_ok (hc_device_authenticator hc)"
    "\<And>n t. hb_tasks h n = Some t \<Longrightarrow> task_ok hc rnd (hb_next h) n t"
    "\<And>n t. hb_tasks h n = Some t \<Longrightarrow> registered_phase (tk_phase t) \<Longrightarrow> \<not> tk_superseded t \<Longrightarrow> owns h n t"
    "\<And>d e. hb_connections h d = Some e \<Longrightarrow> \<exists>t. hb_tasks h (ce_task e) = Some t \<and> tk_device_id t = d
         \<and> owns h (ce_task e) t \<and> registered_phase (tk_phase t) \<and> \<not> tk_superseded t"
    "\<And>n t. hb_tasks h n = Some t \<Longrightarrow> \<not> registered_phase (tk_phase t) \<Longrightarrow> tk_phase t \<noteq> TpUnregistered \<Longrightarrow>
         \<not> tk_superseded t"
    "\<And>k v. fmlookup (hb_online h) k = Some v \<Longrightarrow> announced h k v"
  shows "hub_ok hc rnd h"
  using assms unfolding hub_ok_def by blast

lemma hub_init_ok:
  "inj (connection_id_of hc rnd) \<Longrightarrow> authenticator_ok (hc_device_authenticator hc) \<Longrightarrow> hub_ok hc rnd hub_init"
  by (simp add: hub_ok_def hub_init_def)

lemma announcedE:
  assumes "announced h k v"
  obtains n t where "k = (od_account_id v, od_device_id v)" "hb_tasks h n = Some t"
    "tk_connection_id t = od_connection_id v" "tk_account_id t = od_account_id v"
    "tk_device_id t = od_device_id v" "tk_phase t \<noteq> TpAuthenticated"
  using assms unfolding announced_def by blast

lemma announcedI:
  "k = (od_account_id v, od_device_id v) \<Longrightarrow> hb_tasks h n = Some t \<Longrightarrow> tk_connection_id t = od_connection_id v \<Longrightarrow>
    tk_account_id t = od_account_id v \<Longrightarrow> tk_device_id t = od_device_id v \<Longrightarrow> tk_phase t \<noteq> TpAuthenticated \<Longrightarrow>
    announced h k v"
  unfolding announced_def by blast

lemma announced_mono:
  assumes "announced h k v"
    and "\<And>n t. hb_tasks h n = Some t \<Longrightarrow> tk_phase t \<noteq> TpAuthenticated \<Longrightarrow>
      \<exists>t'. hb_tasks h' n = Some t' \<and> tk_connection_id t' = tk_connection_id t \<and> tk_account_id t' = tk_account_id t
        \<and> tk_device t' = tk_device t \<and> tk_phase t' \<noteq> TpAuthenticated"
  shows "announced h' k v"
  using assms(1)
proof (rule announcedE)
  fix n t
  assume "k = (od_account_id v, od_device_id v)" "hb_tasks h n = Some t" "tk_connection_id t = od_connection_id v"
    "tk_account_id t = od_account_id v" "tk_device_id t = od_device_id v" "tk_phase t \<noteq> TpAuthenticated"
  with assms(2) [of n t] show ?thesis by (auto simp: tk_device_id_def intro: announcedI)
qed

lemma update_task_simps [simp]:
  "hb_tasks (update_task n f h) = (hb_tasks h)(n := map_option f (hb_tasks h n))"
  "hb_next (update_task n f h) = hb_next h" "hb_connections (update_task n f h) = hb_connections h"
  "hb_online (update_task n f h) = hb_online h"
  by (simp_all add: update_task_def)

text \<open>A change of one task that keeps its identity and its standing with the registry.\<close>

definition keeps_standing :: "'j signal_task \<Rightarrow> 'j signal_task \<Rightarrow> bool" where
  "keeps_standing t t' \<longleftrightarrow>
    tk_account_id t' = tk_account_id t \<and> tk_device t' = tk_device t \<and> tk_connection_id t' = tk_connection_id t
    \<and> tk_superseded t' = tk_superseded t \<and> registered_phase (tk_phase t') = registered_phase (tk_phase t)
    \<and> (tk_phase t' = TpAuthenticated \<longleftrightarrow> tk_phase t = TpAuthenticated)
    \<and> (tk_phase t' = TpUnregistered \<longleftrightarrow> tk_phase t = TpUnregistered)
    \<and> length (tk_queue t') \<le> NOTIFICATION_QUEUE_CAPACITY"

lemma owns_cong:
  "hb_connections h' = hb_connections h \<Longrightarrow> tk_device t' = tk_device t \<Longrightarrow> tk_connection_id t' = tk_connection_id t \<Longrightarrow>
    owns h' n t' \<longleftrightarrow> owns h n t"
  by (simp add: owns_def tk_device_id_def)

lemma hub_ok_update:
  assumes ok: "hub_ok hc rnd h" and t: "hb_tasks h n = Some t" and k: "keeps_standing t (f t)"
  shows "hub_ok hc rnd (update_task n f h)"
proof (rule hub_okI)
  note d = hub_okD [OF ok]
  let ?h = "update_task n f h"
  have dev: "tk_device_id (f t) = tk_device_id t" using k by (simp add: keeps_standing_def tk_device_id_def)
  show "inj (connection_id_of hc rnd)" "authenticator_ok (hc_device_authenticator hc)" by (rule d)+
  show "task_ok hc rnd (hb_next ?h) m t'" if "hb_tasks ?h m = Some t'" for m t'
    using that d(3) t k by (auto simp: task_ok_def keeps_standing_def split: if_splits)
  show "owns ?h m t'" if "hb_tasks ?h m = Some t'" "registered_phase (tk_phase t')" "\<not> tk_superseded t'" for m t'
    using that d(4) [of m] t k by (auto simp: owns_def tk_device_id_def keeps_standing_def split: if_splits)
  show "\<exists>t'. hb_tasks ?h (ce_task e) = Some t' \<and> tk_device_id t' = dv \<and> owns ?h (ce_task e) t'
      \<and> registered_phase (tk_phase t') \<and> \<not> tk_superseded t'" if "hb_connections ?h dv = Some e" for dv e
    using d(5) [of dv e] that t k dev by (auto simp: owns_def keeps_standing_def)
  show "\<not> tk_superseded t'" if "hb_tasks ?h m = Some t'" "\<not> registered_phase (tk_phase t')"
    "tk_phase t' \<noteq> TpUnregistered" for m t'
    using that d(6) [of m] t k by (auto simp: keeps_standing_def split: if_splits)
  show "announced ?h kk v" if "fmlookup (hb_online ?h) kk = Some v" for kk v
  proof -
    have "announced h kk v" using d(7) that by simp
    then show ?thesis
      by (rule announced_mono) (use t k in \<open>auto simp: keeps_standing_def\<close>)
  qed
qed

text \<open>Changes outside of tasks, registry and presence.\<close>

lemma hub_ok_cong:
  assumes "hub_ok hc rnd h" "hb_tasks h' = hb_tasks h" "hb_next h' = hb_next h"
    "hb_connections h' = hb_connections h" "hb_online h' = hb_online h"
  shows "hub_ok hc rnd h'"
  using assms(1) unfolding hub_ok_def owns_def announced_def assms(2-5) .

lemma hub_ok_hello:
  assumes ok: "hub_ok hc rnd h"
  shows "hub_ok hc rnd (snd (hub_hello hc rnd h claims token neg sn expires r now))"
proof (cases "fst (authenticate_hello (hc_env hc) (hc_device_authenticator hc) (hb_replays h) claims token neg sn expires
    r now (rnd (hb_next h)))")
  case (Inl e)
  then show ?thesis
    by (intro hub_ok_cong [OF ok]) (simp_all add: hub_hello_def case_prod_beta Let_def)
next
  case (Inr a)
  note d = hub_okD [OF ok]
  let ?h = "snd (hub_hello hc rnd h claims token neg sn expires r now)"
  let ?t = "\<lparr>tk_account_id = ac_account_id claims, tk_device = ah_device a,
     tk_capabilities_hash = ah_capabilities_hash a, tk_connection_id = ah_connection_id a,
     tk_phase = TpAuthenticated, tk_queue = [], tk_superseded = False\<rparr> :: 'a signal_task"
  obtain cn where c: "hello_checked (hc_env hc) (hc_device_authenticator hc) claims token neg sn expires r now
      = Inr (ah_device a, ah_capabilities_hash a, cn)" "ah_connection_id a = sv_base64_encode (hc_env hc) (rnd (hb_next h))"
    using authenticate_hello_ok [OF Inr] by blast
  from device_authorize_ok(1) [OF hello_checked_ok(9) [OF c(1)] d(2)]
  have acct: "td_account_id (ah_device a) = ac_account_id claims" by (simp add: hello_auth_request_def)
  have h: "hb_tasks ?h = (hb_tasks h)(hb_next h \<mapsto> ?t)" "hb_next ?h = Suc (hb_next h)"
    "hb_connections ?h = hb_connections h" "hb_online ?h = hb_online h"
    by (simp_all add: hub_hello_def Inr case_prod_beta Let_def)
  have fresh: "hb_tasks h (hb_next h) = None"
    using d(3) [of "hb_next h"] by (cases "hb_tasks h (hb_next h)") (auto simp: task_ok_def)
  show ?thesis
  proof (rule hub_okI)
    show "inj (connection_id_of hc rnd)" "authenticator_ok (hc_device_authenticator hc)" by (rule d)+
    show "task_ok hc rnd (hb_next ?h) m t'" if "hb_tasks ?h m = Some t'" for m t'
      using that d(3) [of m] c(2) acct
      by (auto simp: h task_ok_def connection_id_of_def less_Suc_eq split: if_splits)
    show "owns ?h m t'" if "hb_tasks ?h m = Some t'" "registered_phase (tk_phase t')" "\<not> tk_superseded t'" for m t'
      using that d(4) [of m] by (auto simp: h owns_def split: if_splits)
    show "\<exists>t'. hb_tasks ?h (ce_task e) = Some t' \<and> tk_device_id t' = dv \<and> owns ?h (ce_task e) t'
        \<and> registered_phase (tk_phase t') \<and> \<not> tk_superseded t'" if "hb_connections ?h dv = Some e" for dv e
      using d(5) [of dv e] that fresh by (auto simp: h owns_def)
    show "\<not> tk_superseded t'" if "hb_tasks ?h m = Some t'" "\<not> registered_phase (tk_phase t')"
      "tk_phase t' \<noteq> TpUnregistered" for m t'
      using that d(6) [of m] by (auto simp: h split: if_splits)
    show "announced ?h kk v" if "fmlookup (hb_online ?h) kk = Some v" for kk v
    proof -
      have "announced h kk v" using d(7) that by (simp add: h)
      then show ?thesis
        by (rule announced_mono) (use fresh in \<open>auto simp: h\<close>)
    qed
  qed
qed

lemma hub_ok_put:
  assumes ok: "hub_ok hc rnd h" and t: "hb_tasks h n = Some t" "tk_phase t = TpAuthenticated"
    and h: "hb_tasks h' = (hb_tasks h)(n \<mapsto> t\<lparr>tk_phase := TpPresent\<rparr>)" "hb_next h' = hb_next h"
      "hb_connections h' = hb_connections h"
      "hb_online h' = presence_put (hb_online h)
         (online_device_of env (tk_device t) (tk_connection_id t) ch st now)"
  shows "hub_ok hc rnd h'"
proof (rule hub_okI)
  note d = hub_okD [OF ok]
  let ?k = "(td_account_id (tk_device t), tk_device_id t)"
    and ?v = "online_device_of env (tk_device t) (tk_connection_id t) ch st now"
  have online: "hb_online h' = fmupd ?k ?v (hb_online h)"
    by (simp add: h presence_put_def online_device_of_def tk_device_id_def)
  have tok: "task_ok hc rnd (hb_next h) n t" using d(3) t by blast
  show "inj (connection_id_of hc rnd)" "authenticator_ok (hc_device_authenticator hc)" by (rule d)+
  show "task_ok hc rnd (hb_next h') m t'" if "hb_tasks h' m = Some t'" for m t'
    using that d(3) [of m] tok by (auto simp: h task_ok_def split: if_splits)
  show "owns h' m t'" if "hb_tasks h' m = Some t'" "registered_phase (tk_phase t')" "\<not> tk_superseded t'" for m t'
    using that d(4) [of m] by (auto simp: h owns_def split: if_splits)
  show "\<exists>t'. hb_tasks h' (ce_task e) = Some t' \<and> tk_device_id t' = dv \<and> owns h' (ce_task e) t'
      \<and> registered_phase (tk_phase t') \<and> \<not> tk_superseded t'" if "hb_connections h' dv = Some e" for dv e
    using d(5) [of dv e] that t by (auto simp: h owns_def)
  show "\<not> tk_superseded t'" if "hb_tasks h' m = Some t'" "\<not> registered_phase (tk_phase t')"
    "tk_phase t' \<noteq> TpUnregistered" for m t'
    using that d(6) [of m] d(6) [of n t] t by (auto simp: h split: if_splits)
  show "announced h' kk v" if v: "fmlookup (hb_online h') kk = Some v" for kk v
  proof (cases "kk = ?k")
    case True
    with v have "v = ?v" by (simp add: online)
    with True tok show ?thesis
      by (intro announcedI [of kk v h' n "t\<lparr>tk_phase := TpPresent\<rparr>"])
        (auto simp: h online_device_of_def task_ok_def tk_device_id_def)
  next
    case False
    with v have "announced h kk v" using d(7) by (simp add: online)
    then show ?thesis
      by (rule announced_mono) (use t in \<open>auto simp: h\<close>)
  qed
qed

text \<open>Registration supersedes the previous owner of the device.\<close>

lemma hub_ok_register:
  assumes ok: "hub_ok hc rnd h" and t: "hb_tasks h n = Some t" "tk_phase t = TpPresent"
  shows "hub_ok hc rnd (set_phase n TpRegistered (registry_register_conn h (tk_device_id t) (tk_connection_id t) n))"
proof -
  note d = hub_okD [OF ok]
  define h' where "h' = set_phase n TpRegistered (registry_register_conn h (tk_device_id t) (tk_connection_id t) n)"
  define ent where "ent = \<lparr>ce_connection_id = tk_connection_id t, ce_task = n\<rparr>"
  define gone where "gone m \<longleftrightarrow> (\<exists>e. hb_connections h (tk_device_id t) = Some e \<and> ce_task e = m)" for m
  have tok: "task_ok hc rnd (hb_next h) n t" and nsup: "\<not> tk_superseded t"
    using d(3) [OF t(1)] d(6) [OF t(1)] t(2) by auto
  have "\<not> gone n" using d(5) t by (fastforce simp: gone_def)
  then have tasks: "hb_tasks h' = (\<lambda>m. if m = n then Some (t\<lparr>tk_phase := TpRegistered\<rparr>)
      else if gone m then map_option (\<lambda>u. u\<lparr>tk_superseded := True\<rparr>) (hb_tasks h m) else hb_tasks h m)"
    using t by (auto simp: h'_def set_phase_def registry_register_conn_def supersede_def gone_def
        fun_eq_iff split: option.splits)
  have conns: "hb_connections h' = (hb_connections h)(tk_device_id t \<mapsto> ent)"
    and rest: "hb_next h' = hb_next h" "hb_online h' = hb_online h"
    by (simp_all add: h'_def ent_def set_phase_def registry_register_conn_def supersede_def split: option.split)
  have other: "hb_connections h (tk_device_id t') \<noteq> hb_connections h (tk_device_id t) \<or> gone m"
    if "owns h m t'" for m t'
  proof (cases "hb_connections h (tk_device_id t') = hb_connections h (tk_device_id t)")
    case True
    with that have "hb_connections h (tk_device_id t) = Some \<lparr>ce_connection_id = tk_connection_id t', ce_task = m\<rparr>"
      by (simp add: owns_def)
    then show ?thesis by (simp add: gone_def)
  qed simp
  have "hub_ok hc rnd h'"
  proof (rule hub_okI)
    show "inj (connection_id_of hc rnd)" "authenticator_ok (hc_device_authenticator hc)" by (rule d)+
    show "task_ok hc rnd (hb_next h') m t'" if "hb_tasks h' m = Some t'" for m t'
      using that d(3) [of m] tok by (auto simp: tasks rest task_ok_def split: if_splits)
    show "owns h' m t'" if m: "hb_tasks h' m = Some t'" "registered_phase (tk_phase t')" "\<not> tk_superseded t'" for m t'
    proof (cases "m = n")
      case True
      with m show ?thesis by (auto simp: tasks conns owns_def ent_def tk_device_id_def)
    next
      case False
      with m have "\<not> gone m" "hb_tasks h m = Some t'" by (auto simp: tasks split: if_splits)
      with d(4) [of m t'] m other [of m t'] have "tk_device_id t' \<noteq> tk_device_id t" "owns h m t'" by auto
      then show ?thesis by (simp add: owns_def conns)
    qed
    show "\<exists>t'. hb_tasks h' (ce_task e) = Some t' \<and> tk_device_id t' = dv \<and> owns h' (ce_task e) t'
        \<and> registered_phase (tk_phase t') \<and> \<not> tk_superseded t'" if e: "hb_connections h' dv = Some e" for dv e
    proof (cases "dv = tk_device_id t")
      case True
      with e have "e = ent" by (simp add: conns)
      with True nsup show ?thesis by (auto simp: ent_def tasks conns owns_def tk_device_id_def)
    next
      case False
      with e have "hb_connections h dv = Some e" by (simp add: conns)
      with d(5) obtain t' where t': "hb_tasks h (ce_task e) = Some t'" "tk_device_id t' = dv" "owns h (ce_task e) t'"
        "registered_phase (tk_phase t')" "\<not> tk_superseded t'" by blast
      have "\<not> gone (ce_task e)"
      proof
        assume "gone (ce_task e)"
        then obtain e' where "hb_connections h (tk_device_id t) = Some e'" "ce_task e' = ce_task e"
          by (auto simp: gone_def)
        with d(5) t' False show False by fastforce
      qed
      moreover have "ce_task e \<noteq> n" using t' t by auto
      ultimately show ?thesis using t' False by (auto simp: tasks conns owns_def)
    qed
    show "\<not> tk_superseded t'" if m: "hb_tasks h' m = Some t'" "\<not> registered_phase (tk_phase t')"
      "tk_phase t' \<noteq> TpUnregistered" for m t'
    proof -
      have "\<not> gone m" if "hb_tasks h m = Some u" "\<not> registered_phase (tk_phase u)" for u
        using that d(5) by (fastforce simp: gone_def)
      with m d(6) [of m] show ?thesis by (auto simp: tasks split: if_splits)
    qed
    show "announced h' kk v" if v: "fmlookup (hb_online h') kk = Some v" for kk v
    proof -
      have "announced h kk v" using d(7) v by (simp add: rest)
      then show ?thesis
        by (rule announced_mono) (use t in \<open>auto simp: tasks\<close>)
    qed
  qed
  then show ?thesis by (simp only: h'_def)
qed

lemma owns_entry:
  "owns h (ce_task e) t \<Longrightarrow> hb_connections h (tk_device_id t) = Some e \<Longrightarrow> ce_connection_id e = tk_connection_id t"
  by (cases e) (simp add: owns_def)

lemma entry_of_task:
  assumes ok: "hub_ok hc rnd h" and t: "hb_tasks h n = Some t" and e: "hb_connections h d = Some e"
    and "ce_connection_id e = tk_connection_id t"
  shows "ce_task e = n" "d = tk_device_id t"
proof -
  note d = hub_okD [OF ok]
  from d(5) [OF e] obtain u where u: "hb_tasks h (ce_task e) = Some u" "tk_device_id u = d" "owns h (ce_task e) u" by blast
  with e have "ce_connection_id e = tk_connection_id u" by (auto intro: owns_entry)
  with assms d(3) [OF t] d(3) [OF u(1)] have "connection_id_of hc rnd (ce_task e) = connection_id_of hc rnd n"
    by (simp add: task_ok_def)
  then show "ce_task e = n" by (rule injD [OF d(1)])
  with u t show "d = tk_device_id t" by auto
qed

lemma entry_own_task:
  assumes "hub_ok hc rnd h" "hb_connections h d = Some e" "ce_task e = n" "hb_tasks h n = Some t"
  shows "d = tk_device_id t" "owns h n t"
  using hub_okD(5) [OF assms(1,2)] assms(3,4) by auto

lemma hub_ok_unregister:
  assumes ok: "hub_ok hc rnd h" and t: "hb_tasks h n = Some t" "tk_phase t = TpLeaving"
  shows "hub_ok hc rnd (set_phase n TpUnregistered (snd (registry_unregister h (tk_device_id t) (tk_connection_id t))))"
proof -
  note d = hub_okD [OF ok]
  define h' where "h' = set_phase n TpUnregistered (snd (registry_unregister h (tk_device_id t) (tk_connection_id t)))"
  have tok: "task_ok hc rnd (hb_next h) n t" by (rule d(3) [OF t(1)])
  obtain b where tasks: "hb_tasks h' = (hb_tasks h)(n \<mapsto> t\<lparr>tk_superseded := b, tk_phase := TpUnregistered\<rparr>)"
    and conns: "\<And>dv e. hb_connections h' dv = Some e \<longleftrightarrow> hb_connections h dv = Some e \<and> ce_task e \<noteq> n"
    and rest: "hb_next h' = hb_next h" "hb_online h' = hb_online h"
  proof (cases "registry_is_owner h (tk_device_id t) (tk_connection_id t)")
    case True
    then obtain e where e: "hb_connections h (tk_device_id t) = Some e" "ce_connection_id e = tk_connection_id t"
      by (auto simp: registry_is_owner_def split: option.splits)
    note en = entry_of_task [OF ok t(1) e]
    note own = entry_own_task(1) [OF ok _ _ t(1)]
    have c: "((hb_connections h)(tk_device_id t := None)) dv = Some e' \<longleftrightarrow> hb_connections h dv = Some e' \<and> ce_task e' \<noteq> n"
      for dv e' using own e(1) en(1) unfolding fun_upd_apply by (metis option.distinct(1) option.inject)
    have "snd (registry_unregister h (tk_device_id t) (tk_connection_id t)) =
        update_task n (\<lambda>t. t\<lparr>tk_superseded := True\<rparr>) (h\<lparr>hb_connections := (hb_connections h)(tk_device_id t := None)\<rparr>)"
      using True e en(1) by (simp add: registry_unregister_def supersede_def)
    then have "hb_tasks h' = (hb_tasks h)(n \<mapsto> t\<lparr>tk_superseded := True, tk_phase := TpUnregistered\<rparr>)"
      "hb_connections h' = (hb_connections h)(tk_device_id t := None)" "hb_next h' = hb_next h" "hb_online h' = hb_online h"
      using t by (simp_all add: h'_def set_phase_def)
    from this(1) c [folded this(2)] this(3,4) show thesis by (rule that)
  next
    case False
    have "ce_task e' \<noteq> n" if "hb_connections h dv = Some e'" for dv e'
    proof
      assume "ce_task e' = n"
      then have "owns h n t" by (rule entry_own_task(2) [OF ok that _ t(1)])
      with False show False by (simp add: registry_is_owner_def owns_def)
    qed
    then show thesis
      using False t by (intro that [of "tk_superseded t"]) (auto simp: h'_def registry_unregister_def set_phase_def)
  qed
  have "hub_ok hc rnd h'"
  proof (rule hub_okI)
    show "inj (connection_id_of hc rnd)" "authenticator_ok (hc_device_authenticator hc)" by (rule d)+
    show "task_ok hc rnd (hb_next h') m t'" if "hb_tasks h' m = Some t'" for m t'
      using that d(3) [of m] tok by (auto simp: tasks rest task_ok_def split: if_splits)
    show "owns h' m t'" if m: "hb_tasks h' m = Some t'" "registered_phase (tk_phase t')" "\<not> tk_superseded t'" for m t'
    proof -
      have "m \<noteq> n" "hb_tasks h m = Some t'" using m by (auto simp: tasks split: if_splits)
      with d(4) [of m t'] m show ?thesis by (simp add: owns_def conns)
    qed
    show "\<exists>t'. hb_tasks h' (ce_task e) = Some t' \<and> tk_device_id t' = dv \<and> owns h' (ce_task e) t'
        \<and> registered_phase (tk_phase t') \<and> \<not> tk_superseded t'" if "hb_connections h' dv = Some e" for dv e
      using d(5) [of dv e] that by (auto simp: tasks conns owns_def)
    show "\<not> tk_superseded t'" if "hb_tasks h' m = Some t'" "\<not> registered_phase (tk_phase t')"
      "tk_phase t' \<noteq> TpUnregistered" for m t'
      using that d(6) [of m] by (auto simp: tasks split: if_splits)
    show "announced h' kk v" if v: "fmlookup (hb_online h') kk = Some v" for kk v
    proof -
      have "announced h kk v" using d(7) v by (simp add: rest)
      then show ?thesis by (rule announced_mono) (use t in \<open>auto simp: tasks\<close>)
    qed
  qed
  then show ?thesis by (simp only: h'_def)
qed

lemma hub_ok_remove:
  assumes ok: "hub_ok hc rnd h" and t: "hb_tasks h n = Some t" "tk_phase t = TpUnregistered"
    and h: "hb_tasks h' = (hb_tasks h)(n := None)" "hb_next h' = hb_next h" "hb_connections h' = hb_connections h"
      "hb_online h' = snd (presence_remove (hb_online h) (tk_account_id t) (tk_device_id t) (tk_connection_id t))"
  shows "hub_ok hc rnd h'"
proof (rule hub_okI)
  note d = hub_okD [OF ok]
  show "inj (connection_id_of hc rnd)" "authenticator_ok (hc_device_authenticator hc)" by (rule d)+
  show "task_ok hc rnd (hb_next h') m t'" if "hb_tasks h' m = Some t'" for m t'
    using that d(3) [of m] by (auto simp: h split: if_splits)
  show "owns h' m t'" if "hb_tasks h' m = Some t'" "registered_phase (tk_phase t')" "\<not> tk_superseded t'" for m t'
    using that d(4) [of m] by (auto simp: h owns_def split: if_splits)
  show "\<exists>t'. hb_tasks h' (ce_task e) = Some t' \<and> tk_device_id t' = dv \<and> owns h' (ce_task e) t'
      \<and> registered_phase (tk_phase t') \<and> \<not> tk_superseded t'" if "hb_connections h' dv = Some e" for dv e
    using d(5) [of dv e] that t by (auto simp: h owns_def)
  show "\<not> tk_superseded t'" if "hb_tasks h' m = Some t'" "\<not> registered_phase (tk_phase t')"
    "tk_phase t' \<noteq> TpUnregistered" for m t'
    using that d(6) [of m] by (auto simp: h split: if_splits)
  show "announced h' kk v" if v: "fmlookup (hb_online h') kk = Some v" for kk v
  proof -
    have old: "fmlookup (hb_online h) kk = Some v"
      and kept: "\<not> (kk = (tk_account_id t, tk_device_id t) \<and> od_connection_id v = tk_connection_id t)"
      using v by (auto simp: h presence_remove_def split: option.splits if_splits)
    from d(7) [OF old] show ?thesis
    proof (rule announcedE)
      fix m u
      assume "kk = (od_account_id v, od_device_id v)" "hb_tasks h m = Some u" "tk_connection_id u = od_connection_id v"
        "tk_account_id u = od_account_id v" "tk_device_id u = od_device_id v" "tk_phase u \<noteq> TpAuthenticated"
      moreover from this t kept have "m \<noteq> n" by auto
      ultimately show ?thesis by (intro announcedI [of kk v h' m u]) (auto simp: h)
    qed
  qed
qed

lemma hub_ok_status:
  assumes ok: "hub_ok hc rnd h"
    and h: "hb_tasks h' = hb_tasks h" "hb_next h' = hb_next h" "hb_connections h' = hb_connections h"
      "hb_online h' = snd (presence_update (hb_online h) a dv c st now)"
  shows "hub_ok hc rnd h'"
proof (rule hub_okI)
  note d = hub_okD [OF ok]
  show "inj (connection_id_of hc rnd)" "authenticator_ok (hc_device_authenticator hc)" by (rule d)+
  show "task_ok hc rnd (hb_next h') m t'" if "hb_tasks h' m = Some t'" for m t' using that d(3) by (simp add: h)
  show "owns h' m t'" if "hb_tasks h' m = Some t'" "registered_phase (tk_phase t')" "\<not> tk_superseded t'" for m t'
    using that d(4) by (simp add: h owns_def)
  show "\<exists>t'. hb_tasks h' (ce_task e) = Some t' \<and> tk_device_id t' = dv \<and> owns h' (ce_task e) t'
      \<and> registered_phase (tk_phase t') \<and> \<not> tk_superseded t'" if "hb_connections h' dv = Some e" for dv e
    using d(5) that by (simp add: h owns_def)
  show "\<not> tk_superseded t'" if "hb_tasks h' m = Some t'" "\<not> registered_phase (tk_phase t')"
    "tk_phase t' \<noteq> TpUnregistered" for m t' using that d(6) by (simp add: h)
  show "announced h' kk v" if v: "fmlookup (hb_online h') kk = Some v" for kk v
  proof -
    obtain w where w: "fmlookup (hb_online h) kk = Some w" "od_account_id v = od_account_id w"
      "od_device_id v = od_device_id w" "od_connection_id v = od_connection_id w"
      using v by (auto simp: h presence_update_def split: option.splits if_splits)
    have "announced h' kk w" using d(7) [OF w(1)] by (rule announced_mono) (simp add: h)
    with w show ?thesis unfolding announced_def by simp
  qed
qed

subsection \<open>The handlers keep the invariant\<close>

lemma registry_enqueue_cases:
  obtains (offline) "registry_enqueue h d nt = (Inl EnOffline, h)"
  | (busy) "registry_enqueue h d nt = (Inl EnOverloaded, h)"
  | (queued) e t where "hb_connections h d = Some e" "hb_tasks h (ce_task e) = Some t"
      "length (tk_queue t) < NOTIFICATION_QUEUE_CAPACITY"
      "registry_enqueue h d nt = (Inr (), update_task (ce_task e) (\<lambda>t. t\<lparr>tk_queue := tk_queue t @ [nt]\<rparr>) h)"
proof (cases "hb_connections h d")
  case None
  then show thesis by (intro offline) (simp add: registry_enqueue_def)
next
  case e: (Some e)
  show thesis
  proof (cases "hb_tasks h (ce_task e)")
    case None
    with e show thesis by (intro offline) (simp add: registry_enqueue_def)
  next
    case t: (Some t)
    show thesis
    proof (cases "length (tk_queue t) < NOTIFICATION_QUEUE_CAPACITY")
      case True
      with e t show thesis by (intro queued [OF e t]) (simp_all add: registry_enqueue_def)
    next
      case False
      with e t show thesis by (intro busy) (simp add: registry_enqueue_def)
    qed
  qed
qed

text \<open>A forwarded message: every check of the handler was passed.\<close>

definition forward_allowed ::
    "'j hub_config \<Rightarrow> string \<Rightarrow> string \<Rightarrow> string \<Rightarrow> string \<Rightarrow> session_role \<Rightarrow> 'j \<Rightarrow> u64 \<Rightarrow> string \<Rightarrow> bool" where
  "forward_allowed hc a d mt sid role p now peer \<longleftrightarrow>
    (\<exists>u z. me_uuid (hc_messages hc) sid = Some u \<and> validate_forward_payload (hc_messages hc) mt p u d role now
      \<and> session_authorize (hc_session_authorizer hc) a d sid role = Inr z \<and> peer_for z d role = Some peer)"

lemma forward_cases:
  obtains (refused) code where "forward_session_message hc h a d mt sid role p now = (SmError code, h)"
  | (forwarded) peer h' where "forward_allowed hc a d mt sid role p now peer"
      "registry_enqueue h peer (NtForward mt sid role d p) = (Inr (), h')"
      "forward_session_message hc h a d mt sid role p now = (SmSessionMessageForwarded sid mt peer, h')"
proof (cases "\<exists>peer. forward_allowed hc a d mt sid role p now peer \<and> hc_serializes hc (NtForward mt sid role d p)")
  case True
  then obtain peer u z where p: "me_uuid (hc_messages hc) sid = Some u"
    "validate_forward_payload (hc_messages hc) mt p u d role now"
    "session_authorize (hc_session_authorizer hc) a d sid role = Inr z" "peer_for z d role = Some peer"
    "hc_serializes hc (NtForward mt sid role d p)"
    unfolding forward_allowed_def by blast
  then have allowed: "forward_allowed hc a d mt sid role p now peer" unfolding forward_allowed_def by blast
  show thesis
    by (cases rule: registry_enqueue_cases [of h peer "NtForward mt sid role d p"])
      (use p refused forwarded [OF allowed] in \<open>simp_all add: forward_session_message_def\<close>)
next
  case False
  then have "\<exists>code. forward_session_message hc h a d mt sid role p now = (SmError code, h)"
    by (simp add: forward_session_message_def forward_allowed_def Let_def split: option.splits sum.splits)
      (auto split: option.splits sum.splits)
  then show thesis using refused by blast
qed

lemma push_cases:
  obtains (refused) st code where "internal_push hc h hs body = ((st, code), h)" "code \<noteq> ''notification_queued''"
  | (queued) tok d p h' where "bearer hs = Some tok"
      "service_token_matches (sv_primitives (hc_env hc)) tok (hc_service_token hc)"
      "is_valid_for_device (hc_messages hc) p d" "registry_enqueue h d (NtPush p) = (Inr (), h')"
      "internal_push hc h hs body = ((202, ''notification_queued''), h')"
proof (cases "bearer hs")
  case None
  then show thesis by (intro refused [of 401 "''unauthorized''"]) (simp_all add: internal_push_def)
next
  case (Some tok)
  show thesis
  proof (cases "service_token_matches (sv_primitives (hc_env hc)) tok (hc_service_token hc)
      \<and> length body \<le> MAX_INTERNAL_PUSH_BODY_BYTES")
    case False
    with Some show thesis
      by (cases "service_token_matches (sv_primitives (hc_env hc)) tok (hc_service_token hc)")
        (auto simp: internal_push_def intro: refused)
  next
    case True
    show thesis
    proof (cases "hc_push hc body")
      case None
      with True Some show thesis
        by (intro refused [of 400 "''invalid_payload''"]) (simp_all add: internal_push_def not_less)
    next
      case (Some dp)
      obtain d p where dp: "dp = (d, p)" by fastforce
      show thesis
      proof (cases "valid_device_id d \<and> is_valid_for_device (hc_messages hc) p d \<and> hc_serializes hc (NtPush p)")
        case False
        with True Some \<open>bearer hs = Some tok\<close> dp show thesis
          by (auto simp: internal_push_def not_less intro: refused)
      next
        case ok: True
        note facts = \<open>bearer hs = Some tok\<close> True Some dp ok and accept = queued
        show thesis
        proof (cases rule: registry_enqueue_cases [of h d "NtPush p"])
          case offline
          with facts show thesis
            by (intro refused [of 404 "''device_offline''"]) (simp_all add: internal_push_def not_less)
        next
          case busy
          with facts show thesis
            by (intro refused [of 429 "''notification_queue_full''"]) (simp_all add: internal_push_def not_less)
        next
          case (queued e t)
          from facts queued(4) have push: "internal_push hc h hs body =
              ((202, ''notification_queued''), update_task (ce_task e) (\<lambda>t. t\<lparr>tk_queue := tk_queue t @ [NtPush p]\<rparr>) h)"
            by (simp add: internal_push_def not_less)
          show thesis by (rule accept [OF _ _ _ queued(4) push]) (use facts in auto)
        qed
      qed
    qed
  qed
qed

lemma hub_ok_enqueue:
  assumes "hub_ok hc rnd h" "registry_enqueue h d nt = (Inr (), h')"
  shows "hub_ok hc rnd h'"
  by (cases rule: registry_enqueue_cases [of h d nt])
    (use assms in \<open>auto intro!: hub_ok_update simp: keeps_standing_def\<close>)

lemma handle_text_ok:
  assumes ok: "hub_ok hc rnd h"
  shows "hub_ok hc rnd (snd (handle_authenticated_text hc h a d pk c json now tok))"
proof -
  have fwd: "hub_ok hc rnd (snd (forward_session_message hc h a d mt sid role p now))" for mt sid role p
    by (cases rule: forward_cases [of hc h a d mt sid role p now]) (use ok in \<open>auto intro: hub_ok_enqueue\<close>)
  have lan: "hub_ok hc rnd (snd (issue_lan_candidate_token hc h a d pk q now tok))" for q
    by (rule hub_ok_cong [OF ok])
      (simp_all add: issue_lan_candidate_token_def Let_def case_prod_beta split: sum.split)
  have st: "hub_ok hc rnd (snd (handle_set_status h a d c dv st now))" for dv st
  proof (cases "dv = d")
    case True
    then show ?thesis
      by (intro hub_ok_status [OF ok, of _ a dv c st now])
        (simp_all add: handle_set_status_def Let_def case_prod_beta)
  qed (simp add: handle_set_status_def ok)
  show ?thesis
    unfolding handle_authenticated_text_def Let_def
    by (simp split: option.split client_message.split add: ok fwd lan st)
qed

lemma hub_ok_phase:
  assumes "hub_ok hc rnd h" "hb_tasks h n = Some t" "registered_phase (tk_phase t)" "registered_phase p"
  shows "hub_ok hc rnd (set_phase n p h)"
  unfolding set_phase_def
  by (rule hub_ok_update [OF assms(1,2)])
    (use assms hub_okD(3) [OF assms(1,2)] in \<open>auto simp: keeps_standing_def task_ok_def\<close>)

lemma text_task:
  assumes "hub_ok hc rnd h" "hb_tasks h n = Some t"
  obtains t' where "hb_tasks (snd (handle_authenticated_text hc h a d pk c json now tok)) n = Some t'"
    "tk_phase t' = tk_phase t"
proof -
  have fwd: "\<exists>t'. hb_tasks (snd (forward_session_message hc h a d mt sid role p now)) n = Some t' \<and> tk_phase t' = tk_phase t"
    for mt sid role p
  proof (cases rule: forward_cases [of hc h a d mt sid role p now])
    case (forwarded peer h')
    then show ?thesis
      by (cases rule: registry_enqueue_cases [of h peer "NtForward mt sid role d p"]) (use assms in auto)
  qed (use assms in simp)
  have "\<exists>t'. hb_tasks (snd (handle_authenticated_text hc h a d pk c json now tok)) n = Some t' \<and> tk_phase t' = tk_phase t"
    unfolding handle_authenticated_text_def Let_def
    by (simp add: fwd assms issue_lan_candidate_token_def handle_set_status_def Let_def case_prod_beta
        split: option.split client_message.split sum.split)
  then show thesis using that by blast
qed

lemma task_step_ok:
  assumes "hub_ok hc rnd h" "\<And>t. hb_tasks h n = Some t \<Longrightarrow> enabled t \<Longrightarrow> hub_ok hc rnd (snd (f t))"
  shows "hub_ok hc rnd (snd (task_step h n enabled f))"
  using assms by (simp add: task_step_def split: option.split)

lemma hub_step_ok:
  assumes ok: "hub_ok hc rnd h"
  shows "hub_ok hc rnd (snd (hub_step hc rnd h x))"
proof (cases x)
  case (HoHello claims token neg sn expires r now)
  then show ?thesis by (simp add: hub_ok_hello [OF ok])
next
  case (HoPutPresence n now)
  show ?thesis unfolding HoPutPresence hub_step.simps
    by (rule task_step_ok [OF ok], unfold snd_conv, rule hub_ok_put [OF ok], assumption) (simp_all add: set_phase_def)
next
  case (HoRegister n)
  show ?thesis unfolding HoRegister hub_step.simps
    by (rule task_step_ok [OF ok]) (simp add: hub_ok_register [OF ok])
next
  case (HoGreet n sent)
  show ?thesis unfolding HoGreet hub_step.simps
    by (rule task_step_ok [OF ok], unfold snd_conv, rule hub_ok_phase [OF ok], assumption) simp_all
next
  case (HoSuperseded n)
  show ?thesis unfolding HoSuperseded hub_step.simps
    by (rule task_step_ok [OF ok], unfold snd_conv, rule hub_ok_phase [OF ok], assumption) simp_all
next
  case (HoReceive n)
  have "hub_ok hc rnd (update_task n (\<lambda>t. t\<lparr>tk_phase := TpHolding nt, tk_queue := q\<rparr>) h)"
    if "hb_tasks h n = Some t" "tk_phase t = TpLive" "tk_queue t = nt # q" for t nt q
    using that hub_okD(3) [OF ok that(1)]
    by (intro hub_ok_update [OF ok that(1)]) (simp add: keeps_standing_def task_ok_def)
  then show ?thesis unfolding HoReceive hub_step.simps
    by (intro task_step_ok [OF ok]) (simp add: ok split: list.split)
next
  case (HoSend n sent)
  have "hub_ok hc rnd (set_phase n p h)"
    if "hb_tasks h n = Some t" "tk_phase t = TpHolding nt" "p = TpLive \<or> p = TpLeaving" for t nt p
    using that by (intro hub_ok_phase [OF ok that(1)]) auto
  then show ?thesis unfolding HoSend hub_step.simps
    by (intro task_step_ok [OF ok]) (simp add: ok split: task_phase.split)
next
  case (HoRefresh n)
  show ?thesis unfolding HoRefresh hub_step.simps
    by (rule task_step_ok [OF ok]) (simp add: ok hub_ok_phase [OF ok])
next
  case (HoText n json now tok sent)
  show ?thesis unfolding HoText hub_step.simps
  proof (rule task_step_ok [OF ok])
    fix t
    assume t: "hb_tasks h n = Some t" "tk_phase t = TpLive \<and> \<not> tk_superseded t"
    let ?r = "handle_authenticated_text hc h (tk_account_id t) (tk_device_id t) (td_public_key (tk_device t))
      (tk_connection_id t) json now tok"
    note okt = handle_text_ok [OF ok, of "tk_account_id t" "tk_device_id t" "td_public_key (tk_device t)"
        "tk_connection_id t" json now tok]
    from text_task [OF ok t(1), of "tk_account_id t" "tk_device_id t" "td_public_key (tk_device t)"
        "tk_connection_id t" json now tok]
    obtain t' where t': "hb_tasks (snd ?r) n = Some t'" "tk_phase t' = tk_phase t" .
    have "hub_ok hc rnd (set_phase n TpLeaving (snd ?r))"
      by (rule hub_ok_phase [OF okt t'(1)]) (use t t'(2) in simp_all)
    with okt show "hub_ok hc rnd (snd (let (response, h) = ?r in
        (EvReply n response, if sent then h else set_phase n TpLeaving h)))"
      by (simp add: case_prod_beta)
  qed
next
  case (HoClose n)
  show ?thesis unfolding HoClose hub_step.simps
    by (rule task_step_ok [OF ok], unfold snd_conv, rule hub_ok_phase [OF ok], assumption) simp_all
next
  case (HoUnregister n)
  show ?thesis unfolding HoUnregister hub_step.simps
    by (rule task_step_ok [OF ok]) (simp add: hub_ok_unregister [OF ok])
next
  case (HoRemovePresence n)
  show ?thesis unfolding HoRemovePresence hub_step.simps
    by (rule task_step_ok [OF ok], unfold snd_conv, rule hub_ok_remove [OF ok], assumption) simp_all
next
  case (HoPush hs body)
  show ?thesis
    by (cases rule: push_cases [of hc h hs body]) (use ok in \<open>auto simp: HoPush intro: hub_ok_enqueue\<close>)
qed

interpretation hub: guarded_machine "hub_step hc rnd" "hub_ok hc rnd" for hc rnd
  by unfold_locales (rule hub_step_ok)

text \<open>A notification is only sent by the task that owns the device at that moment.\<close>

lemma delivered_by_owner:
  assumes ok: "hub_ok hc rnd h" and "fst (hub_step hc rnd h x) = EvDelivered n nt"
  shows "\<exists>t. hb_tasks h n = Some t \<and> tk_phase t = TpHolding nt \<and> owns h n t"
proof -
  from assms(2) obtain b where x: "x = HoSend n b"
    by (cases x) (auto simp: hub_hello_def task_step_def Let_def case_prod_beta
        split: option.splits if_splits sum.splits list.splits task_phase.splits)
  with assms(2) obtain t where t: "hb_tasks h n = Some t" "tk_phase t = TpHolding nt"
    "registry_is_owner h (tk_device_id t) (tk_connection_id t)"
    by (auto simp: task_step_def split: option.splits if_splits task_phase.splits)
  then obtain e where e: "hb_connections h (tk_device_id t) = Some e" "ce_connection_id e = tk_connection_id t"
    by (auto simp: registry_is_owner_def split: option.splits)
  with entry_of_task(1) [OF ok t(1) e] have "owns h n t" by (cases e) (simp add: owns_def)
  with t show ?thesis by blast
qed

subsection \<open>Where a delivered notification comes from\<close>

text \<open>
  What a trace says: task \<open>n\<close> was admitted for device \<open>d\<close> of account \<open>a\<close>, and a notification
  for device \<open>d\<close> was either forwarded from a task of the other end of an authorized session, or
  pushed with the service token for a session that names \<open>d\<close>.
\<close>

definition admission :: "'j hub_config \<Rightarrow> ('j hub_op \<times> 'j hub_event) list \<Rightarrow> nat \<Rightarrow> string \<Rightarrow> string \<Rightarrow> bool" where
  "admission hc tr n a d \<longleftrightarrow>
    (\<exists>claims token neg sn expires r now dev ch cn.
      (HoHello claims token neg sn expires r now, EvAdmitted n) \<in> set tr
      \<and> hello_checked (hc_env hc) (hc_device_authenticator hc) claims token neg sn expires r now = Inr (dev, ch, cn)
      \<and> ac_account_id claims = a \<and> td_device_id dev = d)"

definition forward_justified ::
    "'j hub_config \<Rightarrow> ('j hub_op \<times> 'j hub_event) list \<Rightarrow> string \<Rightarrow> string \<Rightarrow> string \<Rightarrow> session_role \<Rightarrow> string \<Rightarrow> 'j \<Rightarrow> bool" where
  "forward_justified hc tr d mt sid role from_device p \<longleftrightarrow>
    (\<exists>m a json now tok sent. admission hc tr m a from_device
      \<and> (HoText m json now tok sent, EvReply m (SmSessionMessageForwarded sid mt d)) \<in> set tr
      \<and> forward_allowed hc a from_device mt sid role p now d)"

definition push_justified ::
    "'j hub_config \<Rightarrow> ('j hub_op \<times> 'j hub_event) list \<Rightarrow> string \<Rightarrow> 'j persisted_notification \<Rightarrow> bool" where
  "push_justified hc tr d p \<longleftrightarrow>
    (\<exists>hs body tok. (HoPush hs body, EvHttp 202 ''notification_queued'') \<in> set tr \<and> bearer hs = Some tok
      \<and> service_token_matches (sv_primitives (hc_env hc)) tok (hc_service_token hc)
      \<and> is_valid_for_device (hc_messages hc) p d)"

fun justified ::
    "'j hub_config \<Rightarrow> ('j hub_op \<times> 'j hub_event) list \<Rightarrow> string \<Rightarrow> 'j hub_notification \<Rightarrow> bool" where
  "justified hc tr d (NtForward mt sid role from_device p) \<longleftrightarrow> forward_justified hc tr d mt sid role from_device p"
| "justified hc tr d (NtPush p) \<longleftrightarrow> push_justified hc tr d p"

lemma admission_mono: "admission hc tr n a d \<Longrightarrow> set tr \<subseteq> set tr' \<Longrightarrow> admission hc tr' n a d"
  unfolding admission_def by blast

lemma justified_mono:
  assumes "justified hc tr d nt" "set tr \<subseteq> set tr'"
  shows "justified hc tr' d nt"
proof (cases nt)
  case (NtForward mt sid role fd p)
  with assms show ?thesis using admission_mono [OF _ assms(2)] unfolding justified.simps forward_justified_def NtForward
    by (meson subsetD)
next
  case (NtPush p)
  with assms show ?thesis unfolding justified.simps push_justified_def NtPush by (meson subsetD)
qed

text \<open>What a task holds, and what a step adds to it.\<close>

definition held_items :: "'j signal_task \<Rightarrow> 'j hub_notification list" where
  "held_items t = (case tk_phase t of TpHolding nt \<Rightarrow> [nt] | _ \<Rightarrow> []) @ tk_queue t"

definition same_identity :: "'j signal_task \<Rightarrow> 'j signal_task \<Rightarrow> bool" where
  "same_identity t t' \<longleftrightarrow> tk_account_id t' = tk_account_id t \<and> tk_device t' = tk_device t"

definition tasks_from :: "('j signal_task \<Rightarrow> 'j hub_notification \<Rightarrow> bool) \<Rightarrow> 'j hub \<Rightarrow> 'j hub \<Rightarrow> bool" where
  "tasks_from new h h' \<longleftrightarrow>
    (\<forall>n t'. hb_tasks h' n = Some t' \<longrightarrow>
      (\<exists>t. hb_tasks h n = Some t \<and> same_identity t t'
        \<and> (\<forall>nt \<in> set (held_items t'). nt \<in> set (held_items t) \<or> new t' nt)))"

lemma tasks_from_refl: "tasks_from new h h"
  by (simp add: tasks_from_def same_identity_def)

lemma tasks_from_cong: "hb_tasks h' = hb_tasks h \<Longrightarrow> tasks_from new h h'"
  by (simp add: tasks_from_def same_identity_def)

lemma tasks_from_trans:
  assumes "tasks_from new h h'" "tasks_from new h' h''"
    and "\<And>t t' nt. same_identity t t' \<Longrightarrow> new t nt \<Longrightarrow> new t' nt"
  shows "tasks_from new h h''"
  unfolding tasks_from_def
proof (intro allI impI)
  fix n t''
  assume "hb_tasks h'' n = Some t''"
  with assms(2) obtain t' where t': "hb_tasks h' n = Some t'" "same_identity t' t''"
    "\<And>nt. nt \<in> set (held_items t'') \<Longrightarrow> nt \<in> set (held_items t') \<or> new t'' nt"
    unfolding tasks_from_def by blast
  with assms(1) obtain t where t: "hb_tasks h n = Some t" "same_identity t t'"
    "\<And>nt. nt \<in> set (held_items t') \<Longrightarrow> nt \<in> set (held_items t) \<or> new t' nt"
    unfolding tasks_from_def by blast
  have "same_identity t t''" using t(2) t'(2) by (simp add: same_identity_def)
  with t t' assms(3) show "\<exists>t. hb_tasks h n = Some t \<and> same_identity t t''
      \<and> (\<forall>nt \<in> set (held_items t''). nt \<in> set (held_items t) \<or> new t'' nt)" by blast
qed

lemma tasks_from_update:
  assumes "\<And>t. hb_tasks h n = Some t \<Longrightarrow> same_identity t (f t)
      \<and> (\<forall>nt \<in> set (held_items (f t)). nt \<in> set (held_items t) \<or> new (f t) nt)"
  shows "tasks_from new h (update_task n f h)"
  using assms by (auto simp: tasks_from_def same_identity_def)

lemma tasks_from_phase:
  assumes "\<And>nt. p \<noteq> TpHolding nt"
  shows "tasks_from new h (set_phase n p h)"
  unfolding set_phase_def
  by (rule tasks_from_update) (use assms in \<open>auto simp: same_identity_def held_items_def split: task_phase.splits\<close>)

lemma tasks_from_supersede: "tasks_from new h (supersede e h)"
  by (cases e) (auto simp: supersede_def tasks_from_refl same_identity_def held_items_def intro!: tasks_from_update)

lemma tasks_from_enqueue:
  assumes ok: "hub_ok hc rnd h" and e: "registry_enqueue h d nt = (Inr (), h')"
    and new: "\<And>t. tk_device_id t = d \<Longrightarrow> new t nt"
  shows "tasks_from new h h'"
proof (cases rule: registry_enqueue_cases [of h d nt])
  case (queued en t)
  have "tk_device_id t = d" using entry_own_task(1) [OF ok queued(1) refl queued(2)] by simp
  then have "tk_device_id (t\<lparr>tk_queue := tk_queue t @ [nt]\<rparr>) = d" by (simp add: tk_device_id_def)
  from new [OF this] show ?thesis
    using e queued by (auto simp: same_identity_def held_items_def intro!: tasks_from_update)
qed (use e in auto)

text \<open>The notifications that a step of the machine may add for a device.\<close>

definition step_adds ::
    "'j hub_config \<Rightarrow> 'j hub \<Rightarrow> 'j hub_op \<Rightarrow> 'j hub_event \<Rightarrow> string \<Rightarrow> 'j hub_notification \<Rightarrow> bool" where
  "step_adds hc h x ev d nt \<longleftrightarrow>
    (\<exists>m json now tok sent t mt sid role p. x = HoText m json now tok sent \<and> hb_tasks h m = Some t
        \<and> nt = NtForward mt sid role (tk_device_id t) p \<and> ev = EvReply m (SmSessionMessageForwarded sid mt d)
        \<and> forward_allowed hc (tk_account_id t) (tk_device_id t) mt sid role p now d)
    \<or> (\<exists>hs body tok p. x = HoPush hs body \<and> nt = NtPush p \<and> ev = EvHttp 202 ''notification_queued''
        \<and> bearer hs = Some tok \<and> service_token_matches (sv_primitives (hc_env hc)) tok (hc_service_token hc)
        \<and> is_valid_for_device (hc_messages hc) p d)"

lemma text_tasks:
  assumes ok: "hub_ok hc rnd h" and t: "hb_tasks h m = Some t"
    and r: "handle_authenticated_text hc h (tk_account_id t) (tk_device_id t) pk c json now tok = (resp, h')"
  shows "tasks_from (\<lambda>u nt. step_adds hc h (HoText m json now tok sent) (EvReply m resp) (tk_device_id u) nt) h h'"
proof -
  let ?a = "tk_account_id t" and ?d = "tk_device_id t"
  let ?new = "\<lambda>u nt. step_adds hc h (HoText m json now tok sent) (EvReply m resp) (tk_device_id u) nt"
  have fwd: "tasks_from ?new h h'" if "forward_session_message hc h ?a ?d mt sid role p now = (resp, h')" for mt sid role p
  proof (cases rule: forward_cases [of hc h ?a ?d mt sid role p now])
    case (forwarded peer h2)
    with that have resp: "resp = SmSessionMessageForwarded sid mt peer" "h' = h2" by auto
    show ?thesis unfolding resp
      by (rule tasks_from_enqueue [OF ok forwarded(2)]) (use forwarded(1) t in \<open>auto simp: step_adds_def\<close>)
  qed (use that in \<open>simp add: tasks_from_refl\<close>)
  have lan: "hb_tasks (snd (issue_lan_candidate_token hc h ?a ?d pk q now tok)) = hb_tasks h" for q
    by (simp add: issue_lan_candidate_token_def Let_def case_prod_beta split: sum.split)
  have st: "hb_tasks (snd (handle_set_status h ?a ?d c dv st now)) = hb_tasks h" for dv st
    by (simp add: handle_set_status_def Let_def case_prod_beta)
  consider "h' = h" | mt sid role p where "forward_session_message hc h ?a ?d mt sid role p now = (resp, h')"
    | q where "h' = snd (issue_lan_candidate_token hc h ?a ?d pk q now tok)"
    | dv s where "h' = snd (handle_set_status h ?a ?d c dv s now)"
    using r unfolding handle_authenticated_text_def Let_def
    by (auto split: option.splits if_splits client_message.splits) (metis snd_conv)+
  then show ?thesis
    by cases (auto intro: fwd tasks_from_cong tasks_from_refl simp: lan st)
qed

lemma step_tasks:
  assumes ok: "hub_ok hc rnd h" and step: "hub_step hc rnd h x = (ev, h')"
    and nohello: "\<And>claims token neg sn expires r now. x \<noteq> HoHello claims token neg sn expires r now"
  shows "tasks_from (\<lambda>u nt. step_adds hc h x ev (tk_device_id u) nt) h h'"
proof -
  let ?new = "\<lambda>u nt. step_adds hc h x ev (tk_device_id u) nt"
  have new_id: "?new t' nt" if "same_identity t t'" "?new t nt" for t t' nt
    using that by (simp add: same_identity_def tk_device_id_def)
  have phase: "tasks_from ?new h (set_phase n p h2)" if "tasks_from ?new h h2" "\<And>nt. p \<noteq> TpHolding nt" for n p h2
    by (rule tasks_from_trans [OF that(1) tasks_from_phase [OF that(2)] new_id])
  show ?thesis
  proof (cases x)
    case (HoHello a b c d e f g)
    then show ?thesis using nohello by blast
  next
    case (HoReceive n)
    have "tasks_from ?new h (update_task n (\<lambda>t. t\<lparr>tk_phase := TpHolding nt, tk_queue := q\<rparr>) h)"
      if "hb_tasks h n = Some t" "tk_phase t = TpLive" "tk_queue t = nt # q" for t nt q
      by (rule tasks_from_update) (use that in \<open>auto simp: same_identity_def held_items_def\<close>)
    then show ?thesis
      using step HoReceive by (auto simp: task_step_def tasks_from_refl split: option.splits if_splits list.splits)
  next
    case (HoText n json now tok sent)
    show ?thesis
    proof (cases "\<exists>t. hb_tasks h n = Some t \<and> tk_phase t = TpLive \<and> \<not> tk_superseded t")
      case False
      with step HoText have "h' = h" by (auto simp: task_step_def split: option.splits if_splits)
      then show ?thesis by (simp add: tasks_from_refl)
    next
      case True
      then obtain t where t: "hb_tasks h n = Some t" "tk_phase t = TpLive" "\<not> tk_superseded t" by blast
      obtain resp h2 where r: "handle_authenticated_text hc h (tk_account_id t) (tk_device_id t)
          (td_public_key (tk_device t)) (tk_connection_id t) json now tok = (resp, h2)" by fastforce
      with step HoText t have ev: "ev = EvReply n resp" "h' = (if sent then h2 else set_phase n TpLeaving h2)"
        by (auto simp: task_step_def)
      have "tasks_from ?new h h2"
        using text_tasks [OF ok t(1) r, of sent] by (simp add: HoText ev(1))
      with phase show ?thesis by (simp add: ev(2))
    qed
  next
    case (HoPush hs body)
    show ?thesis
    proof (cases rule: push_cases [of hc h hs body])
      case (refused st code)
      with step HoPush show ?thesis by (simp add: tasks_from_refl)
    next
      case (queued tok d p h2)
      with step HoPush have ev: "ev = EvHttp 202 ''notification_queued''" "h' = h2" by auto
      show ?thesis unfolding ev
        by (rule tasks_from_enqueue [OF ok queued(4)]) (use HoPush queued(1-3) in \<open>auto simp: step_adds_def\<close>)
    qed
  next
    case (HoRegister n)
    have "tasks_from ?new h (registry_register_conn h d c n)" for d c
      unfolding registry_register_conn_def
      by (rule tasks_from_trans [OF tasks_from_cong tasks_from_supersede new_id]) simp_all
    with step HoRegister phase show ?thesis
      by (auto simp: task_step_def tasks_from_refl split: option.splits if_splits)
  next
    case (HoUnregister n)
    have "tasks_from ?new h (snd (registry_unregister h d c))" for d c
    proof (cases "registry_is_owner h d c")
      case True
      then show ?thesis unfolding registry_unregister_def
        by (simp, intro tasks_from_trans [OF tasks_from_cong tasks_from_supersede new_id]) simp_all
    qed (simp add: registry_unregister_def tasks_from_refl)
    with step HoUnregister phase show ?thesis
      by (auto simp: task_step_def tasks_from_refl split: option.splits if_splits)
  next
    case (HoRemovePresence n)
    have "tasks_from ?new h (h\<lparr>hb_online := on, hb_tasks := (hb_tasks h)(n := None)\<rparr>)" for on
      by (simp add: tasks_from_def same_identity_def)
    with step HoRemovePresence show ?thesis
      by (auto simp: task_step_def tasks_from_refl split: option.splits if_splits)
  next
    case (HoPutPresence n now)
    have "tasks_from ?new h (h\<lparr>hb_online := on\<rparr>)" for on by (rule tasks_from_cong) simp
    with step HoPutPresence phase show ?thesis
      by (auto simp: task_step_def tasks_from_refl split: option.splits if_splits)
  next
    case (HoGreet n sent)
    with step phase [OF tasks_from_refl] show ?thesis
      by (auto simp: task_step_def tasks_from_refl split: option.splits if_splits)
  next
    case (HoSuperseded n)
    with step phase [OF tasks_from_refl] show ?thesis
      by (auto simp: task_step_def tasks_from_refl split: option.splits if_splits)
  next
    case (HoSend n sent)
    with step phase [OF tasks_from_refl] show ?thesis
      by (auto simp: task_step_def tasks_from_refl split: option.splits if_splits task_phase.splits)
  next
    case (HoRefresh n)
    with step phase [OF tasks_from_refl] show ?thesis
      by (auto simp: task_step_def tasks_from_refl split: option.splits if_splits)
  next
    case (HoClose n)
    with step phase [OF tasks_from_refl] show ?thesis
      by (auto simp: task_step_def tasks_from_refl split: option.splits if_splits)
  qed
qed

text \<open>Every task was admitted and holds only justified notifications.\<close>

definition accounted :: "'j hub_config \<Rightarrow> ('j hub_op \<times> 'j hub_event) list \<Rightarrow> 'j hub \<Rightarrow> bool" where
  "accounted hc tr h \<longleftrightarrow>
    (\<forall>n t. hb_tasks h n = Some t \<longrightarrow> admission hc tr n (tk_account_id t) (tk_device_id t)
      \<and> (\<forall>nt \<in> set (held_items t). justified hc tr (tk_device_id t) nt))"

lemma accounted_later:
  assumes "accounted hc tr h" "hb_tasks h n = Some t"
  shows "admission hc (tr @ ys) n (tk_account_id t) (tk_device_id t)"
    "\<And>nt. nt \<in> set (held_items t) \<Longrightarrow> justified hc (tr @ ys) (tk_device_id t) nt"
proof -
  have sub: "set tr \<subseteq> set (tr @ ys)" by simp
  from assms have "admission hc tr n (tk_account_id t) (tk_device_id t)"
    and nts: "\<And>nt. nt \<in> set (held_items t) \<Longrightarrow> justified hc tr (tk_device_id t) nt"
    unfolding accounted_def by blast+
  then show "admission hc (tr @ ys) n (tk_account_id t) (tk_device_id t)" using admission_mono sub by blast
  show "justified hc (tr @ ys) (tk_device_id t) nt" if "nt \<in> set (held_items t)" for nt
    using nts [OF that] sub by (rule justified_mono)
qed

lemma step_adds_justified:
  assumes "step_adds hc h x ev d nt" "accounted hc tr h"
  shows "justified hc (tr @ [(x, ev)]) d nt"
  using assms(1) unfolding step_adds_def
proof (elim disjE exE conjE, goal_cases)
  case (1 m json now tok sent t mt sid role p)
  then have "admission hc (tr @ [(x, ev)]) m (tk_account_id t) (tk_device_id t)"
    by (intro accounted_later(1) [OF assms(2)])
  moreover have "(HoText m json now tok sent, EvReply m (SmSessionMessageForwarded sid mt d)) \<in> set (tr @ [(x, ev)])"
    by (simp add: 1)
  ultimately show ?case unfolding 1(3) justified.simps forward_justified_def using 1(5) by blast
next
  case (2 hs body tok p)
  then show ?case by (auto simp: push_justified_def)
qed

lemma hello_accounted:
  assumes "accounted hc tr h" and x: "x = HoHello claims token neg sn expires r now"
    and step: "hub_step hc rnd h x = (ev, h')"
  shows "accounted hc (tr @ [(x, ev)]) h'"
proof -
  note old = accounted_later(1) [OF assms(1), where ys = "[(x, ev)]"]
    accounted_later(2) [OF assms(1), where ys = "[(x, ev)]"]
  let ?r = "authenticate_hello (hc_env hc) (hc_device_authenticator hc) (hb_replays h) claims token neg sn expires
    r now (rnd (hb_next h))"
  show ?thesis
  proof (cases "fst ?r")
    case (Inl e)
    with step have "hb_tasks h' = hb_tasks h" by (auto simp: x hub_hello_def case_prod_beta Let_def)
    with old show ?thesis by (simp add: accounted_def)
  next
    case (Inr a)
    obtain cn where "hello_checked (hc_env hc) (hc_device_authenticator hc) claims token neg sn expires r now
        = Inr (ah_device a, ah_capabilities_hash a, cn)"
      using authenticate_hello_ok [OF Inr] by blast
    moreover from step Inr have ev: "ev = EvAdmitted (hb_next h)" and h': "hb_tasks h' = (hb_tasks h)(hb_next h \<mapsto>
        \<lparr>tk_account_id = ac_account_id claims, tk_device = ah_device a,
         tk_capabilities_hash = ah_capabilities_hash a, tk_connection_id = ah_connection_id a,
         tk_phase = TpAuthenticated, tk_queue = [], tk_superseded = False\<rparr>)"
      by (auto simp: x hub_hello_def case_prod_beta Let_def)
    moreover have "(HoHello claims token neg sn expires r now, EvAdmitted (hb_next h)) \<in> set (tr @ [(x, ev)])"
      by (simp add: x ev)
    ultimately have "admission hc (tr @ [(x, ev)]) (hb_next h) (ac_account_id claims) (td_device_id (ah_device a))"
      unfolding admission_def by blast
    with old show ?thesis
      unfolding accounted_def h' by (auto simp: held_items_def tk_device_id_def)
  qed
qed

lemma step_accounted:
  assumes ok: "hub_ok hc rnd h" and acc: "accounted hc tr h" and step: "hub_step hc rnd h x = (ev, h')"
  shows "accounted hc (tr @ [(x, ev)]) h'"
proof (cases "\<exists>claims token neg sn expires r now. x = HoHello claims token neg sn expires r now")
  case True
  then show ?thesis using hello_accounted [OF acc _ step] by blast
next
  case False
  show ?thesis
    unfolding accounted_def
  proof (intro allI impI)
    fix n t'
    assume "hb_tasks h' n = Some t'"
    moreover have "tasks_from (\<lambda>u nt. step_adds hc h x ev (tk_device_id u) nt) h h'"
      by (rule step_tasks [OF ok step]) (use False in blast)
    ultimately obtain t where t: "hb_tasks h n = Some t" "same_identity t t'"
      "\<And>nt. nt \<in> set (held_items t') \<Longrightarrow> nt \<in> set (held_items t) \<or> step_adds hc h x ev (tk_device_id t') nt"
      unfolding tasks_from_def by blast
    have id: "tk_account_id t' = tk_account_id t" "tk_device_id t' = tk_device_id t"
      using t(2) by (simp_all add: same_identity_def tk_device_id_def)
    have "admission hc (tr @ [(x, ev)]) n (tk_account_id t') (tk_device_id t')"
      unfolding id by (rule accounted_later(1) [OF acc t(1)])
    moreover have "justified hc (tr @ [(x, ev)]) (tk_device_id t') nt" if "nt \<in> set (held_items t')" for nt
      using t(3) [OF that]
    proof
      assume "nt \<in> set (held_items t)"
      then show ?thesis unfolding id by (rule accounted_later(2) [OF acc t(1)])
    next
      assume "step_adds hc h x ev (tk_device_id t') nt"
      then show ?thesis using acc by (rule step_adds_justified)
    qed
    ultimately show "admission hc (tr @ [(x, ev)]) n (tk_account_id t') (tk_device_id t')
      \<and> (\<forall>nt \<in> set (held_items t'). justified hc (tr @ [(x, ev)]) (tk_device_id t') nt)" by blast
  qed
qed

lemma run_accounted:
  assumes "hub_ok hc rnd hub_init"
  shows "accounted hc (fst (run_ops (hub_step hc rnd) hub_init xs)) (snd (run_ops (hub_step hc rnd) hub_init xs))"
proof (induction xs rule: rev_induct)
  case Nil
  then show ?case by (simp add: accounted_def hub_init_def)
next
  case (snoc x xs)
  show ?case
    unfolding run_snoc fst_conv snd_conv
    by (rule step_accounted [OF hub.run_inv [OF assms] snoc]) simp
qed

lemma delivered_justified:
  assumes init: "hub_ok hc rnd hub_init"
    and ev: "(x, EvDelivered n nt) \<in> set (fst (run_ops (hub_step hc rnd) hub_init xs))"
  shows "\<exists>a d. admission hc (fst (run_ops (hub_step hc rnd) hub_init xs)) n a d
    \<and> justified hc (fst (run_ops (hub_step hc rnd) hub_init xs)) d nt"
proof -
  let ?tr = "\<lambda>ys. fst (run_ops (hub_step hc rnd) hub_init ys)" and ?h = "\<lambda>ys. snd (run_ops (hub_step hc rnd) hub_init ys)"
  from run_ops_member [OF ev] obtain k where k: "k < length xs"
    "EvDelivered n nt = fst (hub_step hc rnd (?h (take k xs)) x)" by blast
  from delivered_by_owner [OF hub.run_inv [OF init] k(2) [symmetric]] obtain t
    where t: "hb_tasks (?h (take k xs)) n = Some t" "tk_phase t = TpHolding nt" by blast
  have acc: "accounted hc (?tr (take k xs)) (?h (take k xs))" by (rule run_accounted [OF init])
  have sub: "set (?tr (take k xs)) \<subseteq> set (?tr xs)" by (simp add: run_ops_take_prefix set_take_subset)
  have "nt \<in> set (held_items t)" using t(2) by (simp add: held_items_def)
  then have "admission hc (?tr (take k xs)) n (tk_account_id t) (tk_device_id t)"
    "justified hc (?tr (take k xs)) (tk_device_id t) nt"
    using acc t(1) by (auto simp: accounted_def)
  with sub show ?thesis by (meson admission_mono justified_mono)
qed

end
