(* ===== verification/Rc_SignalRuns.thy ===== *)
theory Rc_SignalRuns
  imports Rc_SignalHub
begin

section \<open>Whole runs of the signal protocol\<close>

text \<open>
  What the lemmas on the two sides and on the server's machine give together: an honest client
  comes online, and a run of the server only needs the connection identifiers drawn in that
  run to be distinct.
\<close>

subsection \<open>An honest client comes online\<close>

text \<open>The replay cache takes a nonce it does not hold, unless it is full of live entries.\<close>

definition nonce_free :: "hello_replays \<Rightarrow> string \<times> string \<times> bytes \<Rightarrow> u64 \<Rightarrow> bool" where
  "nonce_free replays key now \<longleftrightarrow>
    fcard (fmdom (retain_live (\<lambda>v. v > now) replays)) < MAX_MEMORY_REPLAY_ENTRIES
    \<and> fmlookup (retain_live (\<lambda>v. v > now) replays) key = None"

lemma nonce_free_recorded:
  "nonce_free replays (a, d, cn) now \<Longrightarrow> fst (record_nonce_once replays a d cn expires now) = Inr ()"
  using record_once_Recorded [of MAX_MEMORY_REPLAY_ENTRIES replays "(a, d, cn)" expires now]
  by (simp add: nonce_free_def record_nonce_once_def)

lemma nonce_free_empty: "nonce_free fmempty key now"
  by (simp add: nonce_free_def retain_live_def MAX_MEMORY_REPLAY_ENTRIES_def fcard_fempty)

lemma hello_goes_online:
  fixes env :: "'j signal_env"
  assumes env: "signal_env_ok env"
    and neg: "parse_protocol_headers (sv_primitives env) (Some ''1'') (Some ''1'') = Inr neg"
    and account: "ac_account_id claims = cx_account_id cx"
    and reply: "build_hello_response env m (server_challenge env claims neg sn t0) cx li ts n1 n2 = (Inr r, m')"
    and key: "li_key_pair li = from_private_key (sv_primitives env) sk"
    and device: "device_authorize env au (hello_auth_request token claims r) t1 = Inr d"
      "authenticator_ok au" "td_public_key d = dk_public_key (li_key_pair li)" "cx_public_key_version cx \<noteq> 0"
    and nonces: "length n1 = 16" "length n2 = 16" "length sn = 32" "random \<noteq> []"
    and time: "t1 < saturating_add t0 HELLO_TTL_MILLIS" "abs_diff ts t1 \<le> HELLO_WINDOW_MILLIS"
    and free: "nonce_free replays (cx_account_id cx, cx_device_id cx, n1 @ n2) t1"
  shows "\<exists>a. fst (authenticate_hello env au replays claims token neg sn (saturating_add t0 HELLO_TTL_MILLIS)
        r t1 random) = Inr a
    \<and> ah_device a = d \<and> fst (accept_hello_ok m' (server_hello_ok claims neg a t2)) = Inr ()
    \<and> sm_state (snd (accept_hello_ok m' (server_hello_ok claims neg a t2))) = SgOnline"
proof -
  have fst_reply: "fst (build_hello_response env m (server_challenge env claims neg sn t0) cx li ts n1 n2) = Inr r"
    using reply by simp
  obtain ch where ch: "hello_checked env au claims token neg sn (saturating_add t0 HELLO_TTL_MILLIS) r t1 =
      Inr (d, ch, n1 @ n2)" "hr_client_capabilities_hash r = encode_hex ch" "td_device_id d = cx_device_id cx"
    using hello_admitted [OF env neg account fst_reply key device nonces(1-3) time] by blast
  have m': "sm_state m' = SgAuthenticating" "sm_expected m' = Some (expected_of (server_challenge env claims neg sn t0) cx r)"
    and r: "hr_device_id r = cx_device_id cx" "hr_client_supported_protocol_versions_hash r = encode_hex (pn_versions_hash neg)"
    using reply client_headers(4) [OF neg]
    by (auto simp: build_hello_response_def hello_reply_def result_simps client_hex_eq client_versions_hash_eq Let_def
        split: if_splits option.splits sum.splits)
  let ?a = "\<lparr>ah_device = d, ah_capabilities_hash = ch, ah_connection_id = sv_base64_encode env random\<rparr>"
  have "fst (authenticate_hello env au replays claims token neg sn (saturating_add t0 HELLO_TTL_MILLIS) r t1 random)
      = Inr ?a"
    using nonce_free_recorded [OF free] by (simp add: authenticate_hello_def ch(1) account r(1))
  moreover have "hello_matches (expected_of (server_challenge env claims neg sn t0) cx r) (server_hello_ok claims neg ?a t2)"
    using env nonces(4) account ch
    by (simp add: hello_matches_def expected_of_def server_hello_ok_def server_challenge_def r signal_env_ok_def)
  ultimately show ?thesis
    by (intro exI [of _ ?a]) (simp add: accept_hello_ok_def m' Let_def)
qed

subsection \<open>Distinct identifiers in a run\<close>

text \<open>A run of the server draws one identifier for each hello it admits.\<close>

lemma hub_step_rnd:
  assumes "rnd (hb_next h) = rnd' (hb_next h)"
  shows "hub_step hc rnd h x = hub_step hc rnd' h x"
  using assms by (cases x) (simp_all add: hub_hello_def)

lemma registry_next:
  "hb_next (snd (registry_enqueue h d nt)) = hb_next h"
  "hb_next (snd (registry_unregister h d i)) = hb_next h"
  "hb_next (registry_register_conn h d i n) = hb_next h"
  by (auto simp: registry_enqueue_def registry_unregister_def registry_register_conn_def supersede_def
      update_task_def split: option.split)

lemma text_next:
  "hb_next (snd (handle_authenticated_text hc h a d pk i json now tok)) = hb_next h"
  "hb_next (snd (internal_push hc h headers body)) = hb_next h"
proof -
  have f: "hb_next (snd (forward_session_message hc h a d mt s r p now)) = hb_next h" for mt s r p
    using registry_next(1) [of h]
    by (auto simp: forward_session_message_def Let_def case_prod_beta split: option.split sum.split enqueue_error.split)
  have l: "hb_next (snd (issue_lan_candidate_token hc h a d pk q now tok)) = hb_next h" for q
    by (auto simp: issue_lan_candidate_token_def Let_def case_prod_beta split: option.split sum.split)
  show "hb_next (snd (handle_authenticated_text hc h a d pk i json now tok)) = hb_next h"
    by (auto simp: handle_authenticated_text_def handle_set_status_def f l Let_def case_prod_beta
        split: option.split client_message.split)
  show "hb_next (snd (internal_push hc h headers body)) = hb_next h"
    using registry_next(1) [of h]
    by (auto simp: internal_push_def Let_def case_prod_beta split: option.split sum.split enqueue_error.split)
qed

lemma hub_step_next: "hb_next (snd (hub_step hc rnd h x)) \<le> Suc (hb_next h)"
  by (cases x)
    (auto simp: hub_hello_def task_step_def set_phase_def update_task_def registry_next text_next Let_def case_prod_beta
      split: option.split sum.split list.split task_phase.split)

lemma hub_run_rnd:
  "(\<And>n. n < hb_next h + length xs \<Longrightarrow> rnd n = rnd' n) \<Longrightarrow> run_ops (hub_step hc rnd) h xs = run_ops (hub_step hc rnd') h xs"
proof (induction xs arbitrary: h)
  case (Cons x xs)
  have "hub_step hc rnd h x = hub_step hc rnd' h x" by (rule hub_step_rnd) (simp add: Cons.prems)
  moreover have "run_ops (hub_step hc rnd) (snd (hub_step hc rnd h x)) xs =
      run_ops (hub_step hc rnd') (snd (hub_step hc rnd h x)) xs"
    using hub_step_next [of hc rnd h x] by (intro Cons.IH Cons.prems) simp
  ultimately show ?case by (simp add: split_beta)
qed simp

text \<open>Identifiers that are distinct over a run can be continued by longer ones.\<close>

lemma extend_distinct:
  assumes "inj_on (rnd :: nat \<Rightarrow> bytes) {..<k}"
  shows "\<exists>rnd'. inj rnd' \<and> (\<forall>n < k. rnd n = rnd' n)"
proof -
  define b where "b = Suc (\<Sum>n<k. length (rnd n))"
  have short: "length (rnd n) < b" if "n < k" for n
    using member_le_sum [of n "{..<k}" "\<lambda>n. length (rnd n)"] that by (simp add: b_def)
  define rnd' where "rnd' n = (if n < k then rnd n else replicate (b + n) 0)" for n
  have "length (rnd' n) < b \<longleftrightarrow> n < k" for n using short by (simp add: rnd'_def)
  then have same: "m < k \<longleftrightarrow> n < k" if "rnd' m = rnd' n" for m n using that by metis
  have "inj rnd'"
  proof
    fix m n
    assume e: "rnd' m = rnd' n"
    show "m = n"
    proof (cases "n < k")
      case True
      with same [OF e] e assms show ?thesis by (auto simp: rnd'_def inj_on_def)
    next
      case False
      with same [OF e] e show ?thesis by (simp add: rnd'_def)
    qed
  qed
  then show ?thesis by (auto simp: rnd'_def)
qed

text \<open>So every run with distinct identifiers is one of a machine whose invariant holds.\<close>

lemma hub_run_extends:
  assumes "inj (sv_base64_encode (hc_env hc))" "inj_on rnd {..<length xs}" "authenticator_ok (hc_device_authenticator hc)"
  obtains rnd' where "hub_ok hc rnd' hub_init"
    "run_ops (hub_step hc rnd) hub_init xs = run_ops (hub_step hc rnd') hub_init xs"
    "\<And>n. n < length xs \<Longrightarrow> rnd n = rnd' n"
proof -
  obtain rnd' where r: "inj rnd'" "\<forall>n < length xs. rnd n = rnd' n" using extend_distinct [OF assms(2)] by blast
  have "connection_id_of hc rnd' = sv_base64_encode (hc_env hc) \<circ> rnd'" by (auto simp: connection_id_of_def)
  then have "hub_ok hc rnd' hub_init"
    using assms(1,3) r(1) by (intro hub_init_ok) (auto intro: inj_compose)
  moreover have "run_ops (hub_step hc rnd) hub_init xs = run_ops (hub_step hc rnd') hub_init xs"
    by (rule hub_run_rnd) (use r(2) in \<open>simp add: hub_init_def\<close>)
  ultimately show ?thesis using that r(2) by blast
qed

text \<open>
  What the shared state looks like: a registry entry belongs to a live task of its device, and
  such a task that was not superseded owns the entry; tasks have identifiers of their own, keep to their account and to the bound of the queue, and a
  device is listed online by one of its own tasks.
\<close>

definition hub_well_formed :: "'j hub \<Rightarrow> bool" where
  "hub_well_formed h \<longleftrightarrow>
    (\<forall>d e. hb_connections h d = Some e \<longrightarrow> (\<exists>t. hb_tasks h (ce_task e) = Some t \<and> tk_device_id t = d
       \<and> tk_connection_id t = ce_connection_id e \<and> registered_phase (tk_phase t) \<and> \<not> tk_superseded t))
    \<and> (\<forall>n t. hb_tasks h n = Some t \<longrightarrow> registered_phase (tk_phase t) \<longrightarrow> \<not> tk_superseded t \<longrightarrow> owns h n t)
    \<and> (\<forall>m n s t. hb_tasks h m = Some s \<longrightarrow> hb_tasks h n = Some t \<longrightarrow> tk_connection_id s = tk_connection_id t \<longrightarrow> m = n)
    \<and> (\<forall>n t. hb_tasks h n = Some t \<longrightarrow> td_account_id (tk_device t) = tk_account_id t
         \<and> length (tk_queue t) \<le> NOTIFICATION_QUEUE_CAPACITY)
    \<and> (\<forall>k v. fmlookup (hb_online h) k = Some v \<longrightarrow> announced h k v)"

lemma hub_ok_well_formed:
  assumes ok: "hub_ok hc rnd h"
  shows "hub_well_formed h"
proof -
  have "\<exists>t. hb_tasks h (ce_task e) = Some t \<and> tk_device_id t = d
      \<and> tk_connection_id t = ce_connection_id e \<and> registered_phase (tk_phase t) \<and> \<not> tk_superseded t"
    if "hb_connections h d = Some e" for d e
    using hub_okD(5) [OF ok that] that by (cases e) (auto simp: owns_def)
  moreover have "m = n" if "hb_tasks h m = Some s" "hb_tasks h n = Some t" "tk_connection_id s = tk_connection_id t"
    for m n s t
    using hub_okD(3) [OF ok that(1)] hub_okD(3) [OF ok that(2)] that(3) hub_okD(1) [OF ok]
    by (auto simp: task_ok_def inj_def)
  moreover have "td_account_id (tk_device t) = tk_account_id t \<and> length (tk_queue t) \<le> NOTIFICATION_QUEUE_CAPACITY"
    if "hb_tasks h n = Some t" for n t
    using hub_okD(3) [OF ok that] by (simp add: task_ok_def)
  moreover note hub_okD(4) [OF ok] hub_okD(7) [OF ok]
  ultimately show ?thesis unfolding hub_well_formed_def by blast
qed

end
