(* ===== verification/Rc_Scenarios.thy ===== *)
theory Rc_Scenarios
  imports Rc_Samples Rc_Handshake Rc_RelayPeers Rc_SignalRuns
begin

section \<open>Concrete runs\<close>

text \<open>
  Runs of the handshake, of the relay server and of the signal protocol on concrete inputs, at
  which the properties about whole runs are instantiated.
\<close>

subsection \<open>A handshake\<close>

text \<open>Where the peer's message of a handshake comes from.\<close>

lemma peer_from_run:
  assumes "with_ephemeral_key pr config ek = Inr h0"
    and "hs_peer_message (snd (run_ops (handshake_step pr) h0 xs)) = Some p"
  shows "\<exists>pk now. VerifyPeer p pk now \<in> set xs
    \<and> peer_message_checked pr ((snd (run_ops (handshake_step pr) h0 xs))\<lparr>hs_peer_message := None\<rparr>) p pk now = Inr ()"
  using assms(2)
proof (induction xs rule: rev_induct)
  case Nil
  with assms(1) show ?case by (auto simp: with_ephemeral_key_def result_simps)
next
  case (snoc x xs)
  let ?h = "snd (run_ops (handshake_step pr) h0 xs)"
  show ?case
  proof (cases x)
    case (SetSignature signature)
    then have "handshake_step pr ?h x = (fst (handshake_step pr ?h x), ?h\<lparr>hs_local_message := hs_local_message
        (snd (handshake_step pr ?h x))\<rparr>)"
      by (auto simp: set_local_signature_def Let_def split: sum.split)
    then have s: "snd (handshake_step pr ?h x) =
        ?h\<lparr>hs_local_message := hs_local_message (snd (handshake_step pr ?h x))\<rparr>" by (metis snd_conv)
    then have "hs_peer_message ?h = Some p"
      using snoc.prems unfolding run_snoc snd_conv
      by (metis session_handshake.select_convs(5) session_handshake.surjective session_handshake.update_convs(4))
    from snoc.IH [OF this] obtain pk now where IH: "VerifyPeer p pk now \<in> set xs"
      "peer_message_checked pr (?h\<lparr>hs_peer_message := None\<rparr>) p pk now = Inr ()" by blast
    have "peer_message_checked pr ((snd (handshake_step pr ?h x))\<lparr>hs_peer_message := None\<rparr>) p pk now = Inr ()"
      by (subst s) (simp add: peer_checked_cong IH(2))
    with IH(1) show ?thesis unfolding run_snoc snd_conv by auto
  next
    case (VerifyPeer m pk now)
    show ?thesis
    proof (cases "peer_message_checked pr ?h m pk now")
      case (Inl e)
      with VerifyPeer snoc show ?thesis unfolding run_snoc snd_conv by (auto simp: verify_peer_message_def)
    next
      case (Inr u)
      then have "hs_peer_message ?h = None" by (simp add: peer_message_checked_ok)
      then have "?h\<lparr>hs_peer_message := None\<rparr> = ?h" by simp
      with VerifyPeer Inr snoc.prems show ?thesis
        unfolding run_snoc snd_conv
        by (auto simp: verify_peer_message_def intro!: exI [of _ pk] exI [of _ now])
    qed
  qed
qed

definition exchange_primitives :: primitives where
  "exchange_primitives = sample_primitives
    \<lparr>pr_x_public := \<lambda>k. take 32 (k @ replicate 32 1),
     pr_x_shared := \<lambda>k p. map2 (+) (take 32 (k @ replicate 32 1)) p\<rparr>"

lemma exchange_total: "primitives_total exchange_primitives"
  by (auto simp: primitives_total_def exchange_primitives_def sample_primitives_def min_def)

lemma exchange_signature_scheme: "signature_scheme exchange_primitives"
  using sample_signature_scheme by (simp add: signature_scheme_def exchange_primitives_def)

lemma map2_add_commute: "map2 (+) xs ys = map2 (+) ys (xs :: u8 list)"
  by (induction xs ys rule: list_induct2') (simp_all add: add.commute)

lemma exchange_dh: "dh_commutes exchange_primitives"
  unfolding dh_commutes_def exchange_primitives_def by (simp add: map2_add_commute)

definition exchange_config :: "session_role \<Rightarrow> session_handshake_config" where
  "exchange_config role =
    \<lparr>hc_context = sample_kdf\<lparr>kdf_permissions_digest := replicate 32 0\<rparr>,
     hc_permissions = sample_permissions, hc_local_role = role,
     hc_local_device_id = (case role of Controller \<Rightarrow> ''c'' | Controlled \<Rightarrow> ''d''),
     hc_local_device_public_key = replicate 32 0, hc_key_exchange_nonce = replicate 32 9,
     hc_timestamp_epoch_millis = 5\<rparr>"

lemma exchange_side: "honest_side exchange_primitives (exchange_config role) (replicate 32 0) (replicate 32 2)"
  by (cases role)
    (simp_all add: honest_side_def validate_config_def exchange_config_def sample_kdf_def exchange_primitives_def
      sample_primitives_def PROTOCOL_VERSION_def is_relay_def permissions_digest_def context_fits_def
      permissions_canonical_total)

lemma exchange_shared:
  "pr_x_shared exchange_primitives (replicate 32 2) (pr_x_public exchange_primitives (replicate 32 2)) \<noteq> replicate 32 0"
  by (simp add: exchange_primitives_def sample_primitives_def zip_replicate)

lemma run_one_side:
  assumes "handshake_run pr ca cb xa xb ska skb now t = Inr (ra, rb)"
  shows "\<exists>h0 xs. with_ephemeral_key pr ca (from_secret_bytes pr xa) = Inr h0
    \<and> handshake_finish pr (snd (run_ops (handshake_step pr) h0 xs)) t = Inr ra"
proof -
  obtain h0 sg mb where h: "with_ephemeral_key pr ca (from_secret_bytes pr xa) = Inr h0"
    "handshake_finish pr (snd (verify_peer_message pr (snd (set_local_signature pr h0 sg)) mb (pr_public pr skb) now)) t = Inr ra"
    using assms by (auto simp: handshake_run_def result_simps Let_def case_prod_beta)
  then have "handshake_finish pr (snd (run_ops (handshake_step pr) h0 [SetSignature sg, VerifyPeer mb (pr_public pr skb) now])) t
      = Inr ra" by (simp add: case_prod_beta)
  with h(1) show ?thesis by blast
qed

lemma exchange_one_side:
  "\<exists>h0 xs r. with_ephemeral_key exchange_primitives (exchange_config Controller)
      (from_secret_bytes exchange_primitives (replicate 32 2)) = Inr h0
    \<and> handshake_finish exchange_primitives (snd (run_ops (handshake_step exchange_primitives) h0 xs)) 7 = Inr r"
proof -
  have "\<exists>ra rb. handshake_run exchange_primitives (exchange_config Controller) (exchange_config Controlled)
      (replicate 32 2) (replicate 32 2) (replicate 32 0) (replicate 32 0) 6 7 = Inr (ra, rb)"
    using honest_run_ok [OF exchange_total exchange_signature_scheme exchange_dh exchange_side [of Controller]
        exchange_side [of Controlled] _ _ _ _ _ _ exchange_shared, of 6 7]
    by (simp add: exchange_config_def sample_kdf_def abs_diff_def KEY_EXCHANGE_WINDOW_MILLIS_def) blast
  then show ?thesis using run_one_side by blast
qed

subsection \<open>A file transfer\<close>

definition transfer_start :: transfer_ledger where
  "transfer_start = \<lparr>tl_state = TransferRequested, tl_expected_size = 3, tl_received = 0, tl_digest = []\<rparr>"

definition transfer_calls :: "ledger_op list" where
  "transfer_calls = [AcceptTransfer, Append [1, 2], Append [9, 9], Append [3]]"

lemma transfer_started: "ledger_new ''f'' 3 = Inr transfer_start"
  by (simp add: ledger_new_def validate_file_name_def transfer_start_def MAX_FILE_TRANSFER_BYTES_def byte_def)

lemma transfer_short: "list_all short_chunk transfer_calls"
  by (simp add: transfer_calls_def)

lemma transfer_finished:
  "fst (ledger_finish (\<lambda>bs. bs) (snd (run_ops (ledger_step (\<lambda>bs. bs)) transfer_start transfer_calls)) [1, 2, 3]) = Inr ()"
  by (simp add: transfer_calls_def transfer_start_def ledger_accept_def ledger_append_def ledger_finish_def
      saturating_add_def)

subsection \<open>A relayed frame\<close>

definition relayed_device :: "session_role \<Rightarrow> string" where
  "relayed_device role = (case role of Controller \<Rightarrow> ''d'' | Controlled \<Rightarrow> ''e'')"

definition relayed_token :: "session_role \<Rightarrow> string" where
  "relayed_token role = relayed_device role @ CHR ''.'' # bytes_str (replicate 32 7)"

definition relayed_open :: "session_role \<Rightarrow> relay_open" where
  "relayed_open role = sample_relay_open\<lparr>ro_role := role, ro_device_id := relayed_device role,
    ro_session_relay_token := str_bytes (relayed_token role)\<rparr>"

definition relayed_allocation :: "session_role \<Rightarrow> relay_allocation" where
  "relayed_allocation role = sample_allocation\<lparr>ra_role := role, ra_device_id := relayed_device role,
    ra_session_relay_token := str_bytes (relayed_token role)\<rparr>"

definition relayed_authorization :: "string \<Rightarrow> relay_authorization" where
  "relayed_authorization role =
    \<lparr>rz_authorized = True, rz_session_id = uuid_string 1, rz_role = role, rz_controller_device_id = ''d'',
     rz_controlled_device_id = ''e'', rz_permissions_digest = relay_hex (replicate 32 1), rz_relay_token_epoch = 2,
     rz_authorization_expires_at_epoch_millis = 100, rz_device_public_key = bytes_str (replicate 32 0),
     rz_device_public_key_id = ''k'', rz_device_public_key_version = 1\<rparr>"

definition sample_relay_env :: relay_env where
  "sample_relay_env =
    \<lparr>re_primitives = sample_primitives, re_base64 = (\<lambda>s. Some (str_bytes s)),
     re_claims_json = (\<lambda>bs. Some (claims_from_open (relayed_open (if bytes_str bs = ''d'' then Controller else Controlled)))),
     re_authorization_json = (\<lambda>bs. Some (relayed_authorization (bytes_str bs))),
     re_post = (\<lambda>q. Some (200, str_bytes (aq_role q)))\<rparr>"

definition sample_relay_config :: relay_config where
  "sample_relay_config =
    \<lparr>rc_relay_node_id = ''n'', rc_relay_token_secret = [1], rc_allowed_transports = [QuicRelay]\<rparr>"

lemma length_bytes_str [simp]: "length (bytes_str bs) = length bs"
  by (simp add: bytes_str_def)

lemma utf8_sevens: "utf8_valid (replicate n 7)"
  by (induction n) simp_all

lemma relayed_claims:
  "verify_relay_token sample_relay_env (str_bytes (relayed_token role)) secret = Inr (claims_from_open (relayed_open role))"
proof -
  have "CHR ''.'' \<notin> set (relayed_device role)" by (cases role) (simp_all add: relayed_device_def)
  then have parts: "split_once (CHR ''.'') (relayed_token role) = Some (relayed_device role, bytes_str (replicate 32 7))"
    by (simp add: relayed_token_def split_once_append)
  have "str_bytes (a @ b) = str_bytes a @ str_bytes b" for a b by (simp add: str_bytes_def)
  from this [of "relayed_device role @ ''.''" "bytes_str (replicate 32 7)"]
  have "str_bytes (relayed_token role) = str_bytes (relayed_device role @ ''.'') @ replicate 32 7"
    by (simp add: relayed_token_def)
  then have "utf8_valid (str_bytes (relayed_token role))"
    using utf8_sevens by (cases role) (simp_all add: relayed_device_def str_bytes_def)
  then show ?thesis
    by (simp add: verify_relay_token_def parts sample_relay_env_def sample_primitives_def)
      (cases role; simp add: relayed_device_def)
qed

lemma relayed_matches:
  "relay_open_matches_allocation (relayed_open role) (relayed_allocation role)"
  "is_relay (ro_transport (relayed_open role))"
  by (simp_all add: relay_open_matches_allocation_def relayed_open_def relayed_allocation_def sample_relay_open_def
      sample_allocation_def is_relay_def)

lemma relayed_binding:
  "server_token_binding_hash sample_relay_env (claims_from_open (relayed_open role)) = Inr (replicate 32 0)"
proof (rule iffD2 [OF server_binding_hash_eq [OF relayed_matches]])
  show "relay_token_binding_hash (pr_sha256 (re_primitives sample_relay_env)) (relayed_allocation role) = Inr (replicate 32 0)"
    by (cases role)
      (simp_all add: relay_token_binding_hash_def relayed_allocation_def sample_allocation_def is_relay_def
        relay_token_binding_canonical canonical_encode_total relay_token_binding_fields_def relay_binding_fields_def
        field_fits_def sample_relay_env_def sample_primitives_def relayed_device_def)
qed

lemma relayed_signature:
  "check_device_signature sample_relay_env (relayed_open role) (relayed_authorization (role_as_str role)) = Inr ()"
proof -
  have "\<exists>bs. relay_open_canonical_bytes (relayed_open role) = Inr bs"
    by (cases role)
      (simp_all add: relay_open_canonical canonical_encode_total relay_open_fields_def relay_binding_fields_def
        field_fits_def relayed_open_def sample_relay_open_def relayed_device_def relayed_token_def)
  then obtain bs where "server_open_canonical_bytes (relayed_open role) = Inr bs"
    unfolding server_open_bytes_eq [symmetric] by blast
  then show ?thesis
    by (simp add: check_device_signature_def decode_array_def relayed_authorization_def sample_relay_env_def
        sample_primitives_def relayed_open_def sample_relay_open_def zeros_64)
qed

lemma relayed_checked:
  "open_checked sample_relay_env sample_relay_config True (relayed_open role) QuicRelay 20 = Inr ()"
proof -
  have "relay_authorize sample_relay_env (authorize_request_of (relayed_open role)) =
      Inr (relayed_authorization (role_as_str role))"
    by (simp add: relay_authorize_def sample_relay_env_def decode_authorization_response_def authorize_request_of_def
        relayed_open_def)
  moreover have "validate_authorization (relayed_open role) (authorize_request_of (relayed_open role))
      (relayed_authorization (role_as_str role)) 20 = Inr ()"
    by (simp add: validate_authorization_def relayed_authorization_def authorize_request_of_def relayed_open_def
        sample_relay_open_def)
  ultimately show ?thesis
    using relayed_claims [of role "rc_relay_token_secret sample_relay_config"] relayed_binding [of role] relayed_signature [of role]
    by (cases role)
      (simp_all add: open_checked_def relayed_open_def sample_relay_open_def sample_relay_config_def is_relay_def
        saturating_add_def saturating_sub_def MAX_RELAY_TOKEN_TTL_MILLIS_def role_device_def relayed_device_def)
qed

definition relay_calls :: "relay_op list" where
  "relay_calls = [RlOpen (relayed_open Controller) QuicRelay 20, RlOpen (relayed_open Controlled) QuicRelay 20,
    RlRead 1 [5], RlSend 1]"

text \<open>The replay cache after the first open.\<close>

definition relayed_cache :: "session_role \<Rightarrow> (replay_key, u64) fmap \<Rightarrow> (replay_key, u64) fmap" where
  "relayed_cache role m = fmupd (replay_key (relayed_open role)) 60050 m"

lemma relayed_authenticated:
  assumes "fmlookup m (replay_key (relayed_open role)) = None" "retain_live (\<lambda>v. v > 20) m = m" "fcard (fmdom m) < 2"
  shows "authenticate_open sample_relay_env sample_relay_config True m (relayed_open role) QuicRelay 20 =
    (Inr (ro_device_id (relayed_open role)), relayed_cache role m)"
  using assms
  by (simp add: authenticate_open_def relayed_checked record_replay_def MAX_REPLAY_ENTRIES_def relayed_cache_def)
    (simp add: relayed_open_def sample_relay_open_def saturating_add_def REPLAY_RETENTION_MILLIS_def)

lemma relayed_caches:
  "fmlookup (relayed_cache Controller fmempty) (replay_key (relayed_open Controlled)) = None"
  "retain_live (\<lambda>v. v > 20) (relayed_cache Controller fmempty) = relayed_cache Controller fmempty"
  "fcard (fmdom (relayed_cache Controller fmempty)) < 2"
  by (simp_all add: relayed_cache_def replay_key_def relayed_open_def retain_live_def fcard_finsert_if)

lemma relayed_sent:
  "(RlSend 1, EvSent 1 2 [5]) \<in> set (fst (run_ops (relay_step sample_relay_env sample_relay_config) relay_init relay_calls))"
proof -
  note a = relayed_authenticated [of fmempty Controller] relayed_authenticated [OF relayed_caches]
  have p: "ro_session_id (relayed_open role) = 1" "ro_transport (relayed_open role) = QuicRelay"
    "ro_role (relayed_open role) = role" for role
    by (simp_all add: relayed_open_def sample_relay_open_def)
  show ?thesis
    by (simp add: relay_calls_def relay_init_def relay_open_stream_def a retain_live_def fcard_fempty p Let_def
        peers_register_def on_connection_def relay_read_def relay_send_def forward_lookup_def FRAME_QUEUE_CAPACITY_def
        peer_set_default_def)
qed

subsection \<open>Two devices on the signal server\<close>

definition sample_signal_env :: "nat signal_env" where
  "sample_signal_env =
    \<lparr>sv_primitives = sample_primitives, sv_base64 = (\<lambda>s. Some (str_bytes s)), sv_base64_encode = bytes_str,
     sv_claims_json = (\<lambda>_. None), sv_canonical_json = (\<lambda>_. Some []), sv_device_post = (\<lambda>_. None)\<rparr>"

lemma sample_signal_env_ok: "signal_env_ok sample_signal_env"
proof -
  have "length (pr_sha256 sample_primitives m) = 32" for m by (simp add: sample_primitives_def)
  moreover have "bytes_str bs = [] \<longleftrightarrow> bs = []" for bs by (simp add: bytes_str_def)
  ultimately show ?thesis
    using sample_signature_scheme by (simp add: signal_env_ok_def sample_signal_env_def)
qed

definition signal_claims :: access_claims where
  "signal_claims =
    \<lparr>ac_account_id = ''a'', ac_account_session_id = ''u'', ac_issued_at_epoch_millis = 1,
     ac_expires_at_epoch_millis = 1000, ac_mfa_verified = True, ac_token_type = ''access''\<rparr>"

definition signal_device :: "string \<Rightarrow> trusted_device" where
  "signal_device i =
    \<lparr>td_account_id = ''a'', td_device_id = i, td_public_key_id = ''k'', td_public_key_version = 1,
     td_public_key = replicate 32 0, td_public_key_revoked = False\<rparr>"

definition signal_directory :: device_directory where
  "signal_directory = [(''a'', ''c'') \<mapsto> signal_device ''c'', (''a'', ''d'') \<mapsto> signal_device ''d'']"

lemma signal_directory_ok: "authenticator_ok (DaMemory signal_directory)"
  by (simp add: directory_ok_def signal_directory_def signal_device_def)

definition signal_context :: "string \<Rightarrow> nat signal_connect_context" where
  "signal_context i =
    \<lparr>cx_account_id = ''a'', cx_device_id = i, cx_public_key_id = ''k'', cx_public_key_version = 1,
     cx_client_capabilities = 0\<rparr>"

definition signal_identity :: "string \<Rightarrow> local_identity" where
  "signal_identity i = \<lparr>li_device_id = i, li_key_pair = from_private_key sample_primitives (replicate 32 0)\<rparr>"

definition signal_negotiation :: protocol_negotiation where
  "signal_negotiation =
    \<lparr>pn_client_versions = [1], pn_client_min_version = 1, pn_selected_version = 1, pn_versions_hash = replicate 32 0\<rparr>"

lemma signal_versions:
  "protocol_versions_hash sample_primitives [1] 1 = Inr (replicate 32 0)"
proof -
  have "protocol_versions_bytes [1] 1 = canonical_encode [(''domain'', str_bytes ''rctl-protocol-versions-v1''),
      (''client_supported_protocol_versions'', concat (map to_be_bytes [1 :: u16])),
      (''client_min_protocol_version'', to_be_bytes (1 :: u16))]"
    by (simp add: protocol_versions_bytes_def writer_new_chain [symmetric] push_eta del: try_chain.simps)
  then show ?thesis
    by (simp add: protocol_versions_hash_def canonical_encode_total field_fits_def sample_primitives_def)
qed

lemma signal_capabilities: "client_capabilities_hash sample_signal_env j = Inr (replicate 32 0)"
proof -
  have "client_capabilities_bytes [] = canonical_encode [(''domain'', str_bytes ''rctl-client-capabilities-v1''),
      (''client_capabilities'', [])]"
    by (simp add: client_capabilities_bytes_def writer_new_chain [symmetric] push_eta del: try_chain.simps)
  then show ?thesis
    by (simp add: client_capabilities_hash_def sample_signal_env_def canonical_encode_total field_fits_def
        sample_primitives_def)
qed

lemma signal_headers:
  "parse_protocol_headers (sv_primitives sample_signal_env) (Some ''1'') (Some ''1'') = Inr signal_negotiation"
proof -
  have 1: "parse_u16 ''1'' = Some 1" by (simp add: parse_u16_def parse_unsigned_def unsigned_digits_def
      to_digit_def digits_value_def byte_def)
  have 2: "header_version ''1'' = Inr 1" by (simp add: header_version_def header_untrimmed_def 1 byte_def)
  show ?thesis
    by (simp add: parse_protocol_headers_def 1 2 SUPPORTED_PROTOCOL_VERSIONS_def PROTOCOL_VERSION_def
        sample_signal_env_def signal_versions signal_negotiation_def)
qed

text \<open>The client nonce, the server nonce and the answer of device \<open>i\<close>.\<close>

definition signal_nonce :: bytes where
  "signal_nonce = replicate 16 1"

definition signal_challenge :: hello_challenge where
  "signal_challenge = server_challenge sample_signal_env signal_claims signal_negotiation (replicate 32 3) 100"

definition signal_hello :: "string \<Rightarrow> nat hello_response" where
  "signal_hello i =
    \<lparr>hr_account_id = ''a'', hr_device_id = i, hr_client_nonce = bytes_str (signal_nonce @ signal_nonce),
     hr_timestamp = 100, hr_client_supported_protocol_versions = [1], hr_client_min_protocol_version = 1,
     hr_public_key_id = ''k'', hr_public_key_version = 1,
     hr_client_supported_protocol_versions_hash = encode_hex (replicate 32 0), hr_client_capabilities = 0,
     hr_client_capabilities_hash = encode_hex (replicate 32 0), hr_device_signature = bytes_str (replicate 64 0)\<rparr>"

definition signal_awaiting :: signal_state_machine where
  "signal_awaiting = snd (begin_connect signal_machine_default)"

definition signal_authenticating :: "string \<Rightarrow> signal_state_machine" where
  "signal_authenticating i =
    \<lparr>sm_state = SgAuthenticating, sm_expected = Some (expected_of signal_challenge (signal_context i) (signal_hello i))\<rparr>"

lemma signal_replies:
  assumes "length i < 2 ^ 32"
  shows "build_hello_response sample_signal_env signal_awaiting signal_challenge (signal_context i) (signal_identity i)
      100 signal_nonce signal_nonce = (Inr (signal_hello i), signal_authenticating i)"
proof -
  have challenge: "\<not> challenge_refused signal_challenge (signal_context i) (signal_identity i) 100"
    "challenge_nonce sample_signal_env signal_challenge = Some (replicate 32 3)"
    "hc_protocol_version signal_challenge = 1"
    by (simp_all add: challenge_refused_def challenge_nonce_def signal_challenge_def server_challenge_def
        signal_claims_def signal_context_def signal_identity_def signal_negotiation_def sample_signal_env_def
        SUPPORTED_PROTOCOL_VERSIONS_def PROTOCOL_VERSION_def saturating_add_def HELLO_TTL_MILLIS_def)
  obtain c where c: "client_signature_input (replicate 32 3) (signal_nonce @ signal_nonce) ''a'' i 1 100
      (replicate 32 0) (replicate 32 0) = Inr c"
    using hello_signature_total [of "replicate 32 3" "signal_nonce @ signal_nonce" "''a''" i "replicate 32 0" "replicate 32 0"]
      assms by (auto simp: client_signature_input_eq signal_nonce_def)
  have "client_versions_hash sample_primitives [1] 1 = Inr (replicate 32 0)"
    "client_hash_capabilities sample_signal_env 0 = Inr (replicate 32 0)"
    by (simp_all add: client_versions_hash_eq client_capabilities_hash_eq signal_versions signal_capabilities)
  then have "hello_reply sample_signal_env signal_challenge (signal_context i) (signal_identity i) 100 (replicate 32 3)
      (signal_nonce @ signal_nonce) = Inr (signal_hello i)"
    using c
    by (simp add: hello_reply_def challenge PROTOCOL_VERSION_def signal_context_def client_hex_eq signal_hello_def)
      (simp add: sample_signal_env_def sign_canonical_def sign_digest_def signal_identity_def from_private_key_def
        sample_primitives_def zeros_64)
  then show ?thesis
    by (simp add: build_hello_response_def challenge signal_awaiting_def begin_connect_def signal_machine_default_def
        signal_authenticating_def)
qed

lemma signal_authorized:
  "i \<in> {''c'', ''d''} \<Longrightarrow> device_authorize sample_signal_env (DaMemory signal_directory)
      (hello_auth_request token signal_claims (signal_hello i)) now = Inr (signal_device i)"
  by (auto simp: hello_auth_request_def signal_directory_def signal_claims_def signal_hello_def signal_device_def)

definition signal_expires :: u64 where
  "signal_expires = saturating_add 100 HELLO_TTL_MILLIS"

lemma signal_checked:
  assumes i: "i \<in> {''c'', ''d''}"
  shows "hello_checked sample_signal_env (DaMemory signal_directory) signal_claims token signal_negotiation
      (replicate 32 3) signal_expires (signal_hello i) 110
    = Inr (signal_device i, replicate 32 0, signal_nonce @ signal_nonce)"
proof -
  have r: "fst (build_hello_response sample_signal_env signal_awaiting (server_challenge sample_signal_env signal_claims
      signal_negotiation (replicate 32 3) 100) (signal_context i) (signal_identity i) 100 signal_nonce signal_nonce)
      = Inr (signal_hello i)"
    using signal_replies [of i] i by (auto simp: signal_challenge_def)
  have "\<exists>ch. hello_checked sample_signal_env (DaMemory signal_directory) signal_claims token signal_negotiation
      (replicate 32 3) (saturating_add 100 HELLO_TTL_MILLIS) (signal_hello i) 110
    = Inr (signal_device i, ch, signal_nonce @ signal_nonce) \<and> hr_client_capabilities_hash (signal_hello i) = encode_hex ch
    \<and> td_device_id (signal_device i) = cx_device_id (signal_context i)"
    by (rule hello_admitted [OF sample_signal_env_ok signal_headers _ r, where sk = "replicate 32 0"])
      (use i signal_authorized [OF i] signal_directory_ok in \<open>simp_all add: signal_claims_def signal_context_def
        signal_identity_def sample_signal_env_def from_private_key_def signal_device_def sample_primitives_def
        signal_nonce_def saturating_add_def HELLO_TTL_MILLIS_def HELLO_WINDOW_MILLIS_def abs_diff_def\<close>)
  then obtain ch where ch: "hello_checked sample_signal_env (DaMemory signal_directory) signal_claims token
      signal_negotiation (replicate 32 3) signal_expires (signal_hello i) 110
      = Inr (signal_device i, ch, signal_nonce @ signal_nonce)" "encode_hex (replicate 32 0) = encode_hex ch"
    by (auto simp: signal_hello_def signal_expires_def)
  from ch(2) have "ch = replicate 32 0" by (metis decode_encode_hex option.inject)
  with ch(1) show ?thesis by simp
qed

text \<open>Device \<open>''c''\<close> sends a key confirmation to device \<open>''d''\<close>.\<close>

definition sample_message_env :: "nat message_env" where
  "sample_message_env =
    \<lparr>me_base64 = (\<lambda>s. Some (str_bytes s)), me_uuid = (\<lambda>_. Some 1), me_is_object = (\<lambda>_. True),
     me_str = (\<lambda>_ _. None), me_candidate_payload = (\<lambda>_. None), me_key_exchange = (\<lambda>_. None),
     me_key_confirm = (\<lambda>_. Some ((sample_confirm Controller)\<lparr>kc_device_id := ''c''\<rparr>))\<rparr>"

definition sample_hub_config :: "nat hub_config" where
  "sample_hub_config =
    \<lparr>hc_env = sample_signal_env, hc_messages = sample_message_env,
     hc_device_authenticator = DaMemory signal_directory,
     hc_session_authorizer = SzMemory [''s'' \<mapsto> \<lparr>sz_session_id = ''s'', sz_controller_device_id = ''c'',
       sz_controlled_device_id = ''d'', sz_permissions_digest = [], sz_relay_token_epoch = 1\<rparr>],
     hc_service_token = ''t'', hc_hyphenated = (\<lambda>_. ''s''), hc_value = (\<lambda>_. Some 0),
     hc_message = (\<lambda>_. Some (CmKeyConfirm ''s'' Controller 0)), hc_serializes = (\<lambda>_. True),
     hc_push = (\<lambda>_. None)\<rparr>"

definition signal_random :: "nat \<Rightarrow> bytes" where
  "signal_random n = replicate 15 0 @ [of_nat n]"

definition hub_calls :: "nat hub_op list" where
  "hub_calls =
    [HoHello signal_claims ''t'' signal_negotiation (replicate 32 3) signal_expires (signal_hello ''d'') 110,
     HoHello signal_claims ''t'' signal_negotiation (replicate 32 3) signal_expires (signal_hello ''c'') 110,
     HoPutPresence 0 110, HoPutPresence 1 110, HoRegister 0, HoRegister 1, HoGreet 0 True, HoGreet 1 True,
     HoText 1 ''m'' 120 [] True, HoReceive 0, HoSend 0 True]"

lemma signal_random_distinct: "inj_on signal_random {..<length hub_calls}"
  by (auto simp: inj_on_def signal_random_def hub_calls_def word_of_nat_eq_iff take_bit_nat_eq_self)

lemma signal_encode_inj: "inj (sv_base64_encode (hc_env sample_hub_config))"
  by (rule inj_on_inverseI [of _ str_bytes]) (simp add: sample_hub_config_def sample_signal_env_def)

definition signal_task :: "string \<Rightarrow> nat \<Rightarrow> nat signal_task" where
  "signal_task i n =
    \<lparr>tk_account_id = ''a'', tk_device = signal_device i, tk_capabilities_hash = replicate 32 0,
     tk_connection_id = bytes_str (signal_random n), tk_phase = TpAuthenticated, tk_queue = [], tk_superseded = False\<rparr>"

lemma signal_hello_step:
  assumes i: "i \<in> {''c'', ''d''}" and free: "nonce_free (hb_replays h) (''a'', i, signal_nonce @ signal_nonce) 110"
  shows "\<exists>m. hub_step sample_hub_config signal_random h (HoHello signal_claims ''t'' signal_negotiation (replicate 32 3)
      signal_expires (signal_hello i) 110) =
    (EvAdmitted (hb_next h), h\<lparr>hb_replays := m, hb_next := Suc (hb_next h),
      hb_tasks := (hb_tasks h)(hb_next h \<mapsto> signal_task i (hb_next h))\<rparr>)
    \<and> (\<forall>j. j \<noteq> i \<longrightarrow> nonce_free (hb_replays h) (''a'', j, signal_nonce @ signal_nonce) 110 \<longrightarrow>
        fcard (fmdom (hb_replays h)) < 2 \<longrightarrow> nonce_free m (''a'', j, signal_nonce @ signal_nonce) 110)"
proof -
  let ?r = "record_nonce_once (hb_replays h) ''a'' i (signal_nonce @ signal_nonce) signal_expires 110"
  have "fst ?r = Inr ()" by (rule nonce_free_recorded [OF free])
  then obtain m where m: "?r = (Inr (), m)" by (cases ?r) simp
  have "fst (hr_device_id (signal_hello i), ac_account_id signal_claims) = i" "ac_account_id signal_claims = ''a''"
    by (simp_all add: signal_hello_def signal_claims_def)
  then have "hub_step sample_hub_config signal_random h (HoHello signal_claims ''t'' signal_negotiation (replicate 32 3)
      signal_expires (signal_hello i) 110) =
    (EvAdmitted (hb_next h), h\<lparr>hb_replays := m, hb_next := Suc (hb_next h),
      hb_tasks := (hb_tasks h)(hb_next h \<mapsto> signal_task i (hb_next h))\<rparr>)"
    using signal_checked [OF i] m
    by (simp add: hub_hello_def authenticate_hello_def sample_hub_config_def Let_def)
      (simp add: sample_signal_env_def signal_task_def)
  moreover have "nonce_free m (''a'', j, signal_nonce @ signal_nonce) 110"
    if "j \<noteq> i" "nonce_free (hb_replays h) (''a'', j, signal_nonce @ signal_nonce) 110" "fcard (fmdom (hb_replays h)) < 2" for j
  proof -
    have m': "m = snd (record_once MAX_MEMORY_REPLAY_ENTRIES (hb_replays h) (''a'', i, signal_nonce @ signal_nonce)
        signal_expires 110)" using m by (simp add: record_nonce_once_def) (metis snd_apfst snd_conv)
    have "fcard (fmdom m) \<le> 10"
      unfolding m'
      using that(3) fcard_retain_live [of "\<lambda>v. v > 110" "hb_replays h"]
        fcard_fmupd [of "(''a'', i, signal_nonce @ signal_nonce)" signal_expires "retain_live (\<lambda>v. v > 110) (hb_replays h)"]
      by (auto simp: record_once_def Let_def)
    then show ?thesis
      using that fcard_retain_live [of "\<lambda>v. v > 110" m]
      by (auto simp: nonce_free_def lookup_retain_live m' record_once_lookup MAX_MEMORY_REPLAY_ENTRIES_def
          split: option.splits if_splits)
  qed
  ultimately show ?thesis by blast
qed

lemma signal_two_hellos:
  "\<exists>m. snd (run_ops (hub_step sample_hub_config signal_random) hub_init (take 2 hub_calls)) =
     hub_init\<lparr>hb_replays := m, hb_next := 2, hb_tasks := [0 \<mapsto> signal_task ''d'' 0, 1 \<mapsto> signal_task ''c'' 1]\<rparr>"
proof -
  let ?hello = "\<lambda>i. HoHello signal_claims ''t'' signal_negotiation (replicate 32 3) signal_expires (signal_hello i) 110"
  obtain m1 where m1: "snd (hub_step sample_hub_config signal_random hub_init (?hello ''d'')) =
      hub_init\<lparr>hb_replays := m1, hb_next := 1, hb_tasks := [0 \<mapsto> signal_task ''d'' 0]\<rparr>"
    "nonce_free m1 (''a'', ''c'', signal_nonce @ signal_nonce) 110"
    using signal_hello_step [of "''d''" hub_init] nonce_free_empty by (auto simp: hub_init_def fcard_fempty)
  obtain m2 where "snd (hub_step sample_hub_config signal_random
      (hub_init\<lparr>hb_replays := m1, hb_next := 1, hb_tasks := [0 \<mapsto> signal_task ''d'' 0]\<rparr>) (?hello ''c'')) =
      hub_init\<lparr>hb_replays := m2, hb_next := 2, hb_tasks := [0 \<mapsto> signal_task ''d'' 0, 1 \<mapsto> signal_task ''c'' 1]\<rparr>"
    using signal_hello_step [of "''c''" "hub_init\<lparr>hb_replays := m1, hb_next := 1, hb_tasks := [0 \<mapsto> signal_task ''d'' 0]\<rparr>"] m1(2)
    by (auto simp: hub_init_def numeral_2_eq_2)
  with m1(1) have "snd (run_ops (hub_step sample_hub_config signal_random) hub_init [?hello ''d'', ?hello ''c'']) =
      hub_init\<lparr>hb_replays := m2, hb_next := 2, hb_tasks := [0 \<mapsto> signal_task ''d'' 0, 1 \<mapsto> signal_task ''c'' 1]\<rparr>"
    by (simp only: run_ops_Cons_simp run_ops.simps(1) fst_conv snd_conv)
  moreover have "take 2 hub_calls = [?hello ''d'', ?hello ''c'']" by (simp add: hub_calls_def)
  ultimately show ?thesis by auto
qed

lemma signal_delivered:
  "(HoSend 0 True, EvDelivered 0 (NtForward ''key_confirm'' ''s'' Controller ''c'' 0))
    \<in> set (fst (run_ops (hub_step sample_hub_config signal_random) hub_init hub_calls))"
proof -
  have append: "set (fst (run_ops st (snd (run_ops st s xs)) ys)) \<subseteq> set (fst (run_ops st s (xs @ ys)))"
    for st :: "nat hub \<Rightarrow> nat hub_op \<Rightarrow> nat hub_event \<times> nat hub" and s xs ys
    by (induction xs arbitrary: s) (auto simp: split_beta)
  have valid: "validate_forward_payload sample_message_env ''key_confirm'' 0 1 ''c'' Controller 120"
    by (simp add: validate_forward_payload_def sample_message_env_def sample_confirm_def)
  have drop: "drop 2 hub_calls = [HoPutPresence 0 110, HoPutPresence 1 110, HoRegister 0, HoRegister 1,
      HoGreet 0 True, HoGreet 1 True, HoText 1 ''m'' 120 [] True, HoReceive 0, HoSend 0 True]"
    by (simp add: hub_calls_def)
  have config: "hc_messages sample_hub_config = sample_message_env" "hc_value sample_hub_config j = Some 0"
    "hc_message sample_hub_config j = Some (CmKeyConfirm ''s'' Controller 0)" "hc_serializes sample_hub_config nt"
    "me_str sample_message_env v f = None" "me_uuid sample_message_env u = Some 1" for j nt v f u
    by (simp_all add: sample_hub_config_def sample_message_env_def)
  have session: "session_authorize (hc_session_authorizer sample_hub_config) ''a'' ''c'' ''s'' Controller =
      Inr \<lparr>sz_session_id = ''s'', sz_controller_device_id = ''c'', sz_controlled_device_id = ''d'',
        sz_permissions_digest = [], sz_relay_token_epoch = 1\<rparr>"
    by (simp add: sample_hub_config_def)
  obtain m where m: "snd (run_ops (hub_step sample_hub_config signal_random) hub_init (take 2 hub_calls)) =
     hub_init\<lparr>hb_replays := m, hb_next := 2, hb_tasks := [0 \<mapsto> signal_task ''d'' 0, 1 \<mapsto> signal_task ''c'' 1]\<rparr>"
    using signal_two_hellos by blast
  have "(HoSend 0 True, EvDelivered 0 (NtForward ''key_confirm'' ''s'' Controller ''c'' 0))
      \<in> set (fst (run_ops (hub_step sample_hub_config signal_random)
        (snd (run_ops (hub_step sample_hub_config signal_random) hub_init (take 2 hub_calls))) (drop 2 hub_calls)))"
    unfolding m drop
    by (simp add: task_step_def set_phase_def update_task_def hub_init_def registry_register_conn_def supersede_def
        tk_device_id_def signal_device_def signal_task_def handle_authenticated_text_def is_forbidden_ws_write_def Let_def
        forward_session_message_def registry_enqueue_def registry_is_owner_def NOTIFICATION_QUEUE_CAPACITY_def
        config session valid)
  with append [of "hub_step sample_hub_config signal_random" hub_init "take 2 hub_calls" "drop 2 hub_calls"]
  show ?thesis by (simp only: append_take_drop_id) blast
qed

end
