(* ===== verification/Spec2Isabelle.thy ===== *)
theory Spec2Isabelle
  imports Rc_Samples Rc_Target Rc_Core Rc_Input Rc_Gates Rc_Transfer Rc_Media Rc_Controller Rc_Scenarios
begin

text \<open>
  A verification library for a remote-control suite written in Rust.

  \<^bold>\<open>The program.\<close> A controller device sees and steers a controlled device. The crates under
  \<^verbatim>\<open>src/crates\<close> hold the protocol (\<^verbatim>\<open>remote-protocol\<close>), the cryptography (\<^verbatim>\<open>remote-crypto\<close>), the
  session logic (\<^verbatim>\<open>remote-core\<close>), the transport rules (\<^verbatim>\<open>remote-transport\<close>) and the handshake
  (\<^verbatim>\<open>remote-runtime\<close>). The services under \<^verbatim>\<open>src/services\<close> connect the devices: the signal server
  authenticates devices, keeps their presence and passes session messages on, the relay server
  passes encrypted frames on, and the API server stores accounts, devices and sessions. A
  session is set up through the signal server, the two sides race candidate paths, run a signed
  key exchange, confirm the derived keys and then exchange sealed frames on one of the paths.

  \<^bold>\<open>Conventions.\<close> A struct is a \<^verbatim>\<open>record\<close>, an enum a \<^verbatim>\<open>datatype\<close>, a \<^verbatim>\<open>Result\<close> a sum whose left
  side is the error, machine integers are words of their width and \<^verbatim>\<open>usize\<close> is \<^verbatim>\<open>nat\<close>. Strings
  are the lists of their UTF-8 bytes. A method that mutates returns its result and the new
  state. Time and random values are arguments. Third-party code is a parameter: the record
  \<open>primitives\<close> holds the cryptographic functions, \<open>relay_env\<close>, \<open>signal_env\<close>, \<open>message_env\<close> and
  \<open>hub_config\<close> hold Base64, JSON, UUID and HTTP. What a property needs of them is a named
  hypothesis (\<open>signature_scheme\<close>, \<open>aead_scheme\<close>, \<open>primitives_total\<close>, \<open>dh_commutes\<close>, \<open>signal_env_ok\<close>),
  and its witness instantiates them.

  \<^bold>\<open>Theories.\<close>
  \<^item> \<open>Rc_Prelude\<close>: results, byte strings, saturating arithmetic, \<open>run_ops\<close> (a run of a machine with
    its trace), and the interfaces \<open>fixed_codec\<close> (encode and decode), \<open>guarded_machine\<close> (an invariant
    kept by each step), \<open>at_most_once\<close> (no key is accepted twice) and \<open>fifo_machine\<close> (what enters a
    queue leaves it in order). \<open>Rc_Expiry\<close>: caches of used keys with an expiry. \<open>Rc_Text\<close>,
    \<open>Rc_Float\<close>: Rust's string functions and \<^verbatim>\<open>f32\<close> arithmetic as far as the code uses them.
  \<^item> \<open>Rc_Header\<close>, \<open>Rc_Canonical\<close>, \<open>Rc_Target\<close>, \<open>Rc_Messages\<close>, \<open>Rc_Input\<close>, \<open>Rc_Domains\<close>:
    \<^verbatim>\<open>remote-protocol\<close> (\<^verbatim>\<open>header.rs\<close>, \<^verbatim>\<open>canonical.rs\<close>, \<^verbatim>\<open>permissions.rs\<close>, \<^verbatim>\<open>security.rs\<close>, \<^verbatim>\<open>input.rs\<close>).
    The header codec is a bijection onto its valid inputs; canonical bytes determine the message
    and its kind; a canonical request target is a fixed point.
  \<^item> \<open>Rc_E2ee\<close>, \<open>Rc_Keys\<close>: \<^verbatim>\<open>remote-crypto\<close>. The bitmap window refines the set of numbers seen;
    transcripts, derivation labels and signatures bind what they are computed from.
  \<^item> \<open>Rc_Session\<close>, \<open>Rc_Ordering\<close>: \<^verbatim>\<open>SecureSession\<close> of \<^verbatim>\<open>remote-core/src/session_crypto.rs\<close> as a machine of
    calls: no nonce twice, no frame opened twice, data only between confirmed peers and within
    the permissions, invalidation for good.
  \<^item> \<open>Rc_Policy\<close>, \<open>Rc_Core\<close>, \<open>Rc_Gates\<close>, \<open>Rc_Transfer\<close>, \<open>Rc_Media\<close>, \<open>Rc_Controller\<close>: the rest of
    \<^verbatim>\<open>remote-core\<close>: policy, device registry and challenge, privacy, clipboard and display gates, file
    transfer and resume tokens, media negotiation and adaptation, the controller session.
  \<^item> \<open>Rc_Scheduler\<close>, \<open>Rc_Reconnect\<close>, \<open>Rc_Binding\<close>, \<open>Rc_Net\<close>, \<open>Rc_Candidates\<close>, \<open>Rc_Racing\<close>, \<open>Rc_Observe\<close>,
    \<open>Rc_Channel\<close>: \<^verbatim>\<open>remote-transport\<close>: order and budget of the send scheduler, the reconnect state
    machine, token bindings and replay guards, the LAN guard, the path race, address
    observation and data channel frames.
  \<^item> \<open>Rc_Handshake\<close>: \<^verbatim>\<open>remote-runtime/src/handshake.rs\<close>. Two honest sides complete it with fitting
    sessions, and a finished side took a message bound to its session.
  \<^item> \<open>Rc_Relay\<close>, \<open>Rc_RelayPeers\<close>: \<^verbatim>\<open>relay-server/src/lib.rs\<close>: the checks of an open, the replay cache,
    pairing and forwarding. Each connection is a task, and a step of the machine is one access
    to the shared table, one frame read, sent or written; runs interleave them freely.
  \<^item> \<open>Rc_SignalAuth\<close>, \<open>Rc_SignalClient\<close>, \<open>Rc_SignalMessages\<close>, \<open>Rc_SignalHub\<close>, \<open>Rc_SignalRuns\<close>:
    \<^verbatim>\<open>signal-server/src\<close> (\<^verbatim>\<open>security.rs\<close>, \<^verbatim>\<open>backend.rs\<close>, \<^verbatim>\<open>notify.rs\<close>, \<^verbatim>\<open>lib.rs\<close>) and the signal client
    \<^verbatim>\<open>apps/desktop/src/signal.rs\<close>. The hello exchange of both sides, the checks of messages and
    notifications on both sides, and the server as a machine whose steps are the accesses of the
    socket tasks to presence, registry and queues, in any order.
  \<^item> \<open>Rc_Samples\<close>, \<open>Rc_Scenarios\<close>: concrete inputs and runs for the witnesses. Their primitives are
    not secure; they satisfy the laws that the properties assume.

  \<^bold>\<open>Bounds.\<close> Connection numbers of the relay wrap at 64 bits; the property on forwarding is about
  runs of fewer operations. Connection identifiers of the signal server are random, and the
  properties of its runs assume that those drawn in the run are distinct. No model needs fuel:
  the loops are structural recursions or have a measure.

  \<^bold>\<open>Not modelled.\<close> JSON text (serde) and canonical JSON, Base64 and UUID syntax, HTTP, WebSocket, TLS
  and QUIC, and the cryptographic primitives are third-party code. The Redis backend of the
  signal server and the PostgreSQL stores rest on the database servers. Sockets, threads and
  timers, environment parsing, screen capture, rendering, the user interfaces and the Swift
  application are input and output. Some computational code is left out as well: the API server
  with its in-memory store (\<^verbatim>\<open>src/services/api-server\<close>), the schema records of \<^verbatim>\<open>remote-store\<close>, the
  probe packets and attempt limits of \<^verbatim>\<open>remote-transport/src/p2p.rs\<close>, the multipart parser of
  \<^verbatim>\<open>remote-codec\<close>, the frame checks of \<^verbatim>\<open>remote-capture\<close> and \<^verbatim>\<open>remote-render\<close>, and the worker and input code
  of the desktop application. Nothing is claimed about them; where a modelled part depends on
  the API server, its answers are arguments.
\<close>

section \<open>Properties of the program\<close>



text \<open>
  C2. From a newly created session, whatever sequence of calls is made, the pairs of channel and
  sequence number of the frames opened are pairwise different: a replayed frame is refused.
\<close>

theorem frames_opened_once:
  assumes "session_new sid role p dg path pair relay th keys = Inr s"
  shows "distinct (List.map_filter (case_prod received_key)
    (fst (run_ops (session_step pr) s xs)))"
  using receiving.run_issued_distinct [OF session_new_ok [OF assms]]
  by (simp add: receiving.issued_keys_def)

theorem frames_opened_once_witness:
  "session_new 1 Controlled sample_permissions (replicate 32 5) UdpP2p 2 None (replicate 32 6)
      sample_keys = Inr (fresh_session Controlled)
    \<and> distinct (List.map_filter (case_prod received_key)
        (fst (run_ops (session_step sample_primitives) (fresh_session Controlled)
          [Open (header_new InputEvent 1 0 16) (replicate 16 0),
           Open (header_new InputEvent 1 0 16) (replicate 16 0)])))"
  using frames_opened_once [OF fresh_session_new] fresh_session_new by blast

text \<open>
  C3. A header of the current version whose kind may use its channel is decoded from its
  encoding exactly, independent of the bytes that follow.
\<close>

theorem decode_encode_roundtrip:
  assumes "h_version h = PROTOCOL_VERSION" and "kind_accepts_channel (h_kind h) (h_channel_id h)"
  shows "decode_header (encode_header h @ rest) = Inr h"
  using assms by (rule decode_encode_header)

theorem decode_encode_roundtrip_witness:
  "decode_header (encode_header (header_new InputEvent 7 3 5) @ [1, 2]) =
    Inr (header_new InputEvent 7 3 5)"
  by (rule decode_encode_roundtrip) (simp_all add: header_new_def kind_accepts_channel_def)

text \<open>
  C4. For two ready sessions of the same keys and opposite roles, under an AEAD that opens what
  it sealed: a frame that one side seals is opened by the other side to the same plaintext,
  provided its sequence number is still fresh there, and the receiver records exactly that
  number.
\<close>

theorem sealed_frame_opens:
  assumes "aead_scheme pr" and "session_peers a b"
    and "session_seal pr a k c f pt = (Inr (h, ct), a')"
    and "session_state b = Ready" and "kind_permitted (ss_permissions b) k"
    and "guard_check (ss_receive_replay_guard b) c (h_sequence h) = Inr ()"
  shows "session_open pr b h ct =
    (Inr pt, b\<lparr>ss_receive_replay_guard :=
       guard_record (ss_receive_replay_guard b) c (h_sequence h)\<rparr>)"
  using assms by (rule open_sealed)

theorem sealed_frame_opens_witness:
  "session_open sample_primitives (ready_session Controlled) sample_header ([1] @ replicate 16 0) =
    (Inr [1], (ready_session Controlled)\<lparr>ss_receive_replay_guard :=
       guard_record (ss_receive_replay_guard (ready_session Controlled)) InputReliable
         (h_sequence sample_header)\<rparr>)"
  by (rule sealed_frame_opens [OF sample_aead_scheme sample_peers sample_sealed
        ready_session_state])
    (simp_all add: ready_session_def fresh_session_def sample_permissions_def replay_guard_default_def
      guard_check_def window_check_def replay_window_default_def sample_header_def header_new_def
      channel_index_def MAX_SECURE_SEQUENCE_def)

text \<open>
  C5. In every run of calls on a newly created session: when the n-th call seals or opens a
  frame, then among the earlier calls one created the local key confirmation, and one verified a
  peer confirmation whose session, device, opposite role, transcript hash, time and MAC under
  the confirmation key are right.
\<close>

theorem data_only_after_confirmation:
  assumes "session_new sid role p dg path pair relay th keys = Inr s"
    and "n < length xs" and "fst (run_ops (session_step pr) s xs) ! n = (x, r)"
    and "data_kind x r = Some k"
  shows "(\<exists>y c. (y, Inr (Confirmed c)) \<in> set (take n (fst (run_ops (session_step pr) s xs))))
    \<and> (\<exists>y. (y, Inr Done) \<in> set (take n (fst (run_ops (session_step pr) s xs)))
         \<and> authentic_confirm pr s y)"
  using assms by (rule data_after_confirms)

theorem data_only_after_confirmation_witness:
  "let tr = fst (run_ops (session_step sample_primitives) (fresh_session Controller) sample_calls)
   in data_kind (sample_calls ! 2) (snd (tr ! 2)) = Some InputEvent
      \<and> (\<exists>y c. (y, Inr (Confirmed c)) \<in> set (take 2 tr))
      \<and> (\<exists>y. (y, Inr Done) \<in> set (take 2 tr)
           \<and> authentic_confirm sample_primitives (fresh_session Controller) y)"
  using data_only_after_confirmation
    [OF fresh_session_new, of 2 sample_calls sample_primitives Controller, OF _ prod.collapse [symmetric]]
    sample_calls_data
  by (simp add: Let_def)

text \<open>
  C6. In every run of calls on a newly created session: a frame is sealed or opened only when
  its kind is permitted by the permissions given at creation (input needs input control,
  clipboard and file kinds need theirs, media kinds need remote desktop).
\<close>

theorem data_needs_permission:
  assumes "session_new sid role p dg path pair relay th keys = Inr s"
    and "n < length xs" and "fst (run_ops (session_step pr) s xs) ! n = (x, r)"
    and "data_kind x r = Some k"
  shows "kind_permitted p k"
  using data_at [OF assms(2-4)] session_new_unconfirmed(4) [OF assms(1)] by simp

theorem data_needs_permission_witness:
  "data_kind (sample_calls ! 2) (snd (fst (run_ops (session_step sample_primitives)
      (fresh_session Controller) sample_calls) ! 2)) = Some InputEvent
    \<and> kind_permitted sample_permissions InputEvent"
  using data_needs_permission
    [OF fresh_session_new, of 2 sample_calls sample_primitives Controller, OF _ prod.collapse [symmetric]]
    sample_calls_data
  by simp

text \<open>
  C7. A reboot, and a binding check whose permissions digest, path, candidate pair or relay node
  differs, leave the session invalidated; from an invalidated state every run of calls stays
  invalidated, and no call of it seals or opens a frame or creates a confirmation.
\<close>

theorem invalidated_forever:
  "ss_invalidated (snd (session_step pr s Reboot))
    \<and> (d \<noteq> ss_permissions_digest s \<or> path \<noteq> ss_path s \<or> pair \<noteq> ss_candidate_pair_id s
        \<or> relay \<noteq> ss_relay_node_id s
       \<longrightarrow> ss_invalidated (snd (session_step pr s (CheckBinding d path pair relay))))
    \<and> (ss_invalidated s \<longrightarrow>
        ss_invalidated (snd (run_ops (session_step pr) s xs))
        \<and> (\<forall>(x, r) \<in> set (fst (run_ops (session_step pr) s xs)).
             data_kind x r = None \<and> (\<forall>c. r \<noteq> Inr (Confirmed c))))"
  using reboot_invalidates changed_binding_invalidates [of d s path pair relay pr]
    invalid.run_inv [of s pr xs] invalidated_data [of s _ _ pr xs]
  by blast

theorem invalidated_forever_witness:
  "ss_invalidated (snd (run_ops (session_step sample_primitives)
      ((ready_session Controller)\<lparr>ss_invalidated := True\<rparr>) [Seal InputEvent InputReliable 0 [1]]))
    \<and> ss_invalidated (snd (session_step sample_primitives (ready_session Controller)
          (CheckBinding [] UdpP2p 2 None)))"
proof -
  have "[] \<noteq> ss_permissions_digest (ready_session Controller)"
    and "ss_invalidated ((ready_session Controller)\<lparr>ss_invalidated := True\<rparr>)"
    by (simp_all add: ready_session_def fresh_session_def)
  then show ?thesis
    using invalidated_forever [of sample_primitives "(ready_session Controller)\<lparr>ss_invalidated := True\<rparr>"
        _ _ _ _ "[Seal InputEvent InputReliable 0 [1]]"]
      invalidated_forever [of sample_primitives "ready_session Controller" "[]" UdpP2p 2 None "[]"]
    by blast
qed

text \<open>
  C8. Take two sessions with the same id, digest, keys and transcript hash and opposite roles,
  both unconfirmed. When each creates its confirmation and verifies the other one within the
  confirmation window, both are in state Ready.
\<close>

theorem peers_become_ready:
  assumes "session_peers a b"
    and "create_local_key_confirm pr a da ta = (Inr ca, a')"
    and "create_local_key_confirm pr b db tb = (Inr cb, b')"
    and "\<not> ss_peer_confirmed a" and "kg_accepted (ss_key_confirm_replay_guard a) = {}"
    and "\<not> ss_peer_confirmed b" and "kg_accepted (ss_key_confirm_replay_guard b) = {}"
    and "abs_diff now_a tb \<le> KEY_CONFIRM_WINDOW_MILLIS"
    and "abs_diff now_b ta \<le> KEY_CONFIRM_WINDOW_MILLIS"
  shows "session_state (snd (run_ops (session_step pr) a
      [CreateConfirm da ta, VerifyConfirm cb db now_a])) = Ready
    \<and> session_state (snd (run_ops (session_step pr) b
      [CreateConfirm db tb, VerifyConfirm ca da now_b])) = Ready"
  using one_side_ready [OF assms(1-5,8)]
    one_side_ready [OF session_peers_sym [OF assms(1)] assms(3,2,6,7,9)] by blast

theorem peers_become_ready_witness:
  "session_state (snd (run_ops (session_step sample_primitives) (fresh_session Controller)
      [CreateConfirm ''d'' 10, VerifyConfirm (sample_confirm Controlled) ''d'' 40])) = Ready
    \<and> session_state (snd (run_ops (session_step sample_primitives) (fresh_session Controlled)
      [CreateConfirm ''d'' 10, VerifyConfirm (sample_confirm Controller) ''d'' 5])) = Ready"
  by (rule peers_become_ready [OF fresh_peers sample_created sample_created])
    (simp_all add: fresh_session_def key_confirm_replay_guard_default_def abs_diff_def
      KEY_CONFIRM_WINDOW_MILLIS_def)

text \<open>
  C9. Over any sequence of numbers, the window (highest number and bitmap) gives the same
  results as a specification that remembers every accepted number: refuse as too old what is 64
  or more behind the newest, refuse as replay what was accepted, else accept.
\<close>

theorem replay_window_refines_set:
  "fst (run_ops window_step replay_window_default qs) = fst (run_ops window_spec_step {} qs)
    \<and> window_abs (snd (run_ops window_step replay_window_default qs))
        (snd (run_ops window_spec_step {} qs))"
  by (rule window_run_simulates [OF window_abs_default])

text \<open>
  C10. When decoding succeeds, encoding the result gives back the first 40 bytes of the input,
  the version is the current one and the kind may use the channel. So two inputs that decode to
  the same header agree on those bytes.
\<close>

theorem header_decoding_sound:
  assumes "decode_header input = Inr h"
  shows "encode_header h = take HEADER_LEN input \<and> h_version h = PROTOCOL_VERSION
    \<and> kind_accepts_channel (h_kind h) (h_channel_id h)"
  using encode_decode_header [OF assms] by blast

theorem header_decoding_sound_witness:
  "encode_header (header_new InputEvent 7 3 5) =
    take HEADER_LEN (encode_header (header_new InputEvent 7 3 5) @ [9])
    \<and> h_version (header_new InputEvent 7 3 5) = PROTOCOL_VERSION
    \<and> kind_accepts_channel InputEvent (default_channel InputEvent)"
  using header_decoding_sound [OF decode_encode_header, of "header_new InputEvent 7 3 5" "[9]"]
  by (simp add: header_new_def kind_accepts_channel_def)

text \<open>
  C11. Given primitives that do not fail, a correct signature scheme and a commuting key
  agreement, two sides with valid configurations of one session in opposite roles complete the
  exchange: both finish, the two secure sessions are peers (same keys, transcript and
  permissions, opposite roles), and each takes the confirmation of the other within the window
  and is then ready.
\<close>

theorem handshake_completes:
  assumes prims: "primitives_total pr" "signature_scheme pr" "dh_commutes pr"
    and sides: "honest_side pr ca ska xa" "honest_side pr cb skb xb"
    and ctx: "hc_context ca = hc_context cb" and roles: "hc_local_role cb = opposite_role (hc_local_role ca)"
    and times: "now < kdf_session_expires_at_epoch_millis (hc_context ca)"
      "t < kdf_session_expires_at_epoch_millis (hc_context ca)"
      "abs_diff (hc_timestamp_epoch_millis ca) now \<le> KEY_EXCHANGE_WINDOW_MILLIS"
      "abs_diff (hc_timestamp_epoch_millis cb) now \<le> KEY_EXCHANGE_WINDOW_MILLIS"
    and dh: "pr_x_shared pr xa (pr_x_public pr xb) \<noteq> replicate 32 0"
    and confirm: "abs_diff later t \<le> KEY_CONFIRM_WINDOW_MILLIS"
  shows "\<exists>ra rb sa sb. handshake_run pr ca cb xa xb ska skb now t = Inr (ra, rb)
    \<and> session_peers (hr_secure_session ra) (hr_secure_session rb)
    \<and> verify_peer_key_confirm pr (hr_secure_session rb) (hr_local_key_confirm ra) (hc_local_device_id ca) later = (Inr (), sb)
    \<and> session_state sb = Ready
    \<and> verify_peer_key_confirm pr (hr_secure_session ra) (hr_local_key_confirm rb) (hc_local_device_id cb) later = (Inr (), sa)
    \<and> session_state sa = Ready"
proof -
  obtain a b ra rb where run: "handshake_run pr ca cb xa xb ska skb now t = Inr (ra, rb)"
    and a: "handshake_finish pr a t = Inr ra" "hs_config a = ca" and b: "handshake_finish pr b t = Inr rb" "hs_config b = cb"
    and peers: "session_peers (hr_secure_session ra) (hr_secure_session rb)"
    using honest_run_ok [OF prims sides ctx roles times dh] by blast
  from finished_confirm_ready [OF peers a(1) b(1) confirm]
    finished_confirm_ready [OF session_peers_sym [OF peers] b(1) a(1) confirm]
  show ?thesis using run peers a(2) b(2) by blast
qed

theorem handshake_completes_witness:
  "\<exists>ra rb sa sb. handshake_run exchange_primitives (exchange_config Controller) (exchange_config Controlled)
      (replicate 32 2) (replicate 32 2) (replicate 32 0) (replicate 32 0) 6 7 = Inr (ra, rb)
    \<and> session_peers (hr_secure_session ra) (hr_secure_session rb)
    \<and> verify_peer_key_confirm exchange_primitives (hr_secure_session rb) (hr_local_key_confirm ra) ''c'' 8 = (Inr (), sb)
    \<and> session_state sb = Ready
    \<and> verify_peer_key_confirm exchange_primitives (hr_secure_session ra) (hr_local_key_confirm rb) ''d'' 8 = (Inr (), sa)
    \<and> session_state sa = Ready"
  using handshake_completes [OF exchange_total exchange_signature_scheme exchange_dh exchange_side [of Controller]
      exchange_side [of Controlled] _ _ _ _ _ _ exchange_shared, of 6 7 8]
  by (simp add: exchange_config_def sample_kdf_def abs_diff_def KEY_EXCHANGE_WINDOW_MILLIS_def
      KEY_CONFIRM_WINDOW_MILLIS_def)

text \<open>
  C12. In every run of the signal server with distinct connection identifiers, a notification
  delivered on a connection goes to a device whose hello was fully checked, and it has a
  justification in the run: it was forwarded from a task admitted for the other end of a session
  that the authorizer confirmed, with a payload that passed the checks, or it was pushed with a
  matching service token and is valid for that device.
\<close>

theorem signal_delivery_justified:
  assumes "inj (sv_base64_encode (hc_env hc))" "inj_on rnd {..<length xs}"
    and "authenticator_ok (hc_device_authenticator hc)"
    and ev: "(x, EvDelivered n nt) \<in> set (fst (run_ops (hub_step hc rnd) hub_init xs))"
  shows "\<exists>a d. admission hc (fst (run_ops (hub_step hc rnd) hub_init xs)) n a d
    \<and> justified hc (fst (run_ops (hub_step hc rnd) hub_init xs)) d nt"
proof -
  obtain rnd' where r: "hub_ok hc rnd' hub_init"
    "run_ops (hub_step hc rnd) hub_init xs = run_ops (hub_step hc rnd') hub_init xs"
    using hub_run_extends [OF assms(1-3)] by metis
  show ?thesis using delivered_justified [OF r(1)] ev unfolding r(2) by blast
qed

theorem signal_delivery_justified_witness:
  "\<exists>a d. admission sample_hub_config (fst (run_ops (hub_step sample_hub_config signal_random) hub_init hub_calls)) 0 a d
    \<and> justified sample_hub_config (fst (run_ops (hub_step sample_hub_config signal_random) hub_init hub_calls)) d
        (NtForward ''key_confirm'' ''s'' Controller ''c'' 0)"
  by (rule signal_delivery_justified [OF signal_encode_inj signal_random_distinct _ signal_delivered])
    (use signal_directory_ok in \<open>simp add: sample_hub_config_def\<close>)

text \<open>
  C13. In every run of the relay server of fewer than 2 to the 64 operations, interleaving
  opens, reads, sends, writes and ends in any order, a frame sent from one connection to another
  passes between the two ends of one session: both connections were opened by an open that
  passed every check, for the same session and transport and in opposite roles.
\<close>

theorem relay_forwards_within_session:
  assumes len: "length xs < 2 ^ 64 - 1"
    and sent: "(x, EvSent c d frame) \<in> set (fst (run_ops (relay_step env config) relay_init xs))"
  shows "\<exists>i t r. admitted env config (fst (run_ops (relay_step env config) relay_init xs)) c i t r
    \<and> admitted env config (fst (run_ops (relay_step env config) relay_init xs)) d i t (opposite_role r)"
proof -
  have "unat (rl_next_connection_id relay_init) + length xs < 2 ^ 64" using len by (simp add: relay_init_def)
  note same = bounded_run [OF this, of env config]
  show ?thesis using sent_admitted [of x c d frame env config xs] sent unfolding same by blast
qed

theorem relay_forwards_within_session_witness:
  "\<exists>i t r. admitted sample_relay_env sample_relay_config
      (fst (run_ops (relay_step sample_relay_env sample_relay_config) relay_init relay_calls)) 1 i t r
    \<and> admitted sample_relay_env sample_relay_config
      (fst (run_ops (relay_step sample_relay_env sample_relay_config) relay_init relay_calls)) 2 i t (opposite_role r)"
  by (rule relay_forwards_within_session [OF _ relayed_sent]) (simp add: relay_calls_def)

text \<open>
  C14. Whatever calls were made on a handshake before it finishes, the message it took from the
  peer was presented in one of them together with a device key under which its signature
  verifies, in time, and it names the session, the device and the role expected of the peer, the
  same context hash, permissions, expiry, path, candidate pair and relay node, and an ephemeral
  key that is not zero.
\<close>

theorem handshake_binds_peer:
  assumes new: "with_ephemeral_key pr config ek = Inr h0"
    and fin: "handshake_finish pr (snd (run_ops (handshake_step pr) h0 xs)) t = Inr r"
  shows "\<exists>p pk now bs. VerifyPeer p pk now \<in> set xs
    \<and> hs_peer_message (snd (run_ops (handshake_step pr) h0 xs)) = Some p
    \<and> key_exchange_canonical_bytes (ske_payload p) = Inr bs
    \<and> verify_canonical_signature pr pk bs (ske_signature p) = Inr ()
    \<and> abs_diff (ke_timestamp_epoch_millis (ske_payload p)) now \<le> KEY_EXCHANGE_WINDOW_MILLIS
    \<and> now < kdf_session_expires_at_epoch_millis (hc_context config)
    \<and> peer_binding_ok h0 (ske_payload p)"
proof -
  let ?h = "snd (run_ops (handshake_step pr) h0 xs)"
  have kept: "hs_config ?h = hs_config h0 \<and> hs_local_payload ?h = hs_local_payload h0"
    by (induction xs rule: rev_induct) (simp_all add: run_snoc handshake_step_config)
  have "handshake_ok pr ?h" by (rule handshake.run_inv [OF with_ephemeral_key_ok [OF new]])
  then obtain p where p: "hs_peer_message ?h = Some p" using finished_peer_bound [OF _ fin] by blast
  from peer_from_run [OF new p] obtain pk now where v: "VerifyPeer p pk now \<in> set xs"
    "peer_message_checked pr (?h\<lparr>hs_peer_message := None\<rparr>) p pk now = Inr ()" by blast
  have "hs_config h0 = config" using new by (auto simp: with_ephemeral_key_def result_simps)
  then show ?thesis using v p kept by (auto simp: peer_message_checked_ok peer_binding_ok_def Let_def)
qed

theorem handshake_binds_peer_witness:
  "\<exists>h0 xs r p pk now bs.
    with_ephemeral_key exchange_primitives (exchange_config Controller) (from_secret_bytes exchange_primitives (replicate 32 2)) = Inr h0
    \<and> handshake_finish exchange_primitives (snd (run_ops (handshake_step exchange_primitives) h0 xs)) 7 = Inr r
    \<and> VerifyPeer p pk now \<in> set xs
    \<and> key_exchange_canonical_bytes (ske_payload p) = Inr bs
    \<and> verify_canonical_signature exchange_primitives pk bs (ske_signature p) = Inr ()
    \<and> peer_binding_ok h0 (ske_payload p)"
proof -
  obtain h0 xs r where e: "with_ephemeral_key exchange_primitives (exchange_config Controller)
      (from_secret_bytes exchange_primitives (replicate 32 2)) = Inr h0"
    "handshake_finish exchange_primitives (snd (run_ops (handshake_step exchange_primitives) h0 xs)) 7 = Inr r"
    using exchange_one_side by blast
  from handshake_binds_peer [OF e] e show ?thesis by blast
qed

text \<open>
  C15. Whatever order the tasks of the signal server run in, if the connection identifiers drawn
  in the run are distinct, then in the state reached each registry entry belongs to a live task
  of its device that was not superseded, no two tasks share an identifier, a task stays in the
  account of its device and within the bound of its queue, and every device listed online is
  listed by a task of its own.
\<close>

theorem signal_hub_stays_well_formed:
  assumes "inj (sv_base64_encode (hc_env hc))" "inj_on rnd {..<length xs}"
    and "authenticator_ok (hc_device_authenticator hc)"
  shows "hub_well_formed (snd (run_ops (hub_step hc rnd) hub_init xs))"
proof -
  obtain rnd' where "hub_ok hc rnd' hub_init"
    "run_ops (hub_step hc rnd) hub_init xs = run_ops (hub_step hc rnd') hub_init xs"
    using hub_run_extends [OF assms] by metis
  then show ?thesis using hub_ok_well_formed [OF hub.run_inv] by metis
qed

theorem signal_hub_stays_well_formed_witness:
  "hub_well_formed (snd (run_ops (hub_step sample_hub_config signal_random) hub_init hub_calls))"
  by (rule signal_hub_stays_well_formed [OF signal_encode_inj signal_random_distinct])
    (use signal_directory_ok in \<open>simp add: sample_hub_config_def\<close>)

text \<open>
  C16. When the access token and the device are those of the client, the answer that the client
  builds for the challenge passes every check of the server, given a nonce not used before and
  room in the replay cache; the server takes the client for its authorized device, and the
  client accepts the answer of the server and is online.
\<close>

theorem signal_client_online:
  fixes env :: "'j signal_env"
  assumes "signal_env_ok env"
    and "parse_protocol_headers (sv_primitives env) (Some ''1'') (Some ''1'') = Inr neg"
    and "ac_account_id claims = cx_account_id cx"
    and "build_hello_response env m (server_challenge env claims neg sn t0) cx li ts n1 n2 = (Inr r, m')"
    and "li_key_pair li = from_private_key (sv_primitives env) sk"
    and "device_authorize env au (hello_auth_request token claims r) t1 = Inr d"
      "authenticator_ok au" "td_public_key d = dk_public_key (li_key_pair li)" "cx_public_key_version cx \<noteq> 0"
    and "length n1 = 16" "length n2 = 16" "length sn = 32" "random \<noteq> []"
    and "t1 < saturating_add t0 HELLO_TTL_MILLIS" "abs_diff ts t1 \<le> HELLO_WINDOW_MILLIS"
    and "nonce_free replays (cx_account_id cx, cx_device_id cx, n1 @ n2) t1"
  shows "\<exists>a. fst (authenticate_hello env au replays claims token neg sn (saturating_add t0 HELLO_TTL_MILLIS)
        r t1 random) = Inr a
    \<and> ah_device a = d \<and> fst (accept_hello_ok m' (server_hello_ok claims neg a t2)) = Inr ()
    \<and> sm_state (snd (accept_hello_ok m' (server_hello_ok claims neg a t2))) = SgOnline"
  by (rule hello_goes_online [OF assms])

theorem signal_client_online_witness:
  "\<exists>a. fst (authenticate_hello sample_signal_env (DaMemory signal_directory) fmempty signal_claims ''t'' signal_negotiation
      (replicate 32 3) (saturating_add 100 HELLO_TTL_MILLIS) (signal_hello ''c'') 110 (signal_random 0)) = Inr a
    \<and> ah_device a = signal_device ''c''
    \<and> fst (accept_hello_ok (signal_authenticating ''c'') (server_hello_ok signal_claims signal_negotiation a 120)) = Inr ()
    \<and> sm_state (snd (accept_hello_ok (signal_authenticating ''c'') (server_hello_ok signal_claims signal_negotiation a 120)))
      = SgOnline"
  by (rule signal_client_online [OF sample_signal_env_ok signal_headers _
        signal_replies [of "''c''", unfolded signal_challenge_def] _ signal_authorized signal_directory_ok,
        where sk = "replicate 32 0"])
    (simp_all add: signal_claims_def signal_context_def signal_identity_def sample_signal_env_def from_private_key_def
      signal_device_def sample_primitives_def signal_nonce_def signal_random_def saturating_add_def HELLO_TTL_MILLIS_def
      HELLO_WINDOW_MILLIS_def abs_diff_def nonce_free_empty)

text \<open>
  C17. The bytes hashed into the key exchange transcript determine both signed messages
  completely: payloads and signatures of controller and controlled. A transcript hash therefore
  stands for one exchange, up to collisions of the hash.
\<close>

theorem transcript_binds_exchange:
  assumes "key_exchange_transcript a b = Inr t" and "key_exchange_transcript c d = Inr t"
    and "validate_path_binding (ske_payload a)" and "validate_path_binding (ske_payload b)"
    and "validate_path_binding (ske_payload c)" and "validate_path_binding (ske_payload d)"
  shows "a = c \<and> b = d"
  using assms by (rule transcript_inject)

theorem transcript_binds_exchange_witness:
  "\<exists>t. key_exchange_transcript (sample_exchange Controller) (sample_exchange Controlled) = Inr t
    \<and> key_exchange_transcript (sample_exchange Controller)
        ((sample_exchange Controlled)\<lparr>ske_signature := replicate 64 1\<rparr>) \<noteq> Inr t"
proof -
  obtain t where t: "key_exchange_transcript (sample_exchange Controller) (sample_exchange Controlled) = Inr t"
    using sample_transcript by blast
  have "validate_path_binding (ske_payload ((sample_exchange Controlled)\<lparr>ske_signature := replicate 64 1\<rparr>))"
    using sample_payload_binding [of Controlled] by simp
  moreover have "sample_exchange Controlled \<noteq> (sample_exchange Controlled)\<lparr>ske_signature := replicate 64 1\<rparr>"
    by (simp add: sample_exchange_def)
  ultimately show ?thesis
    using transcript_binds_exchange [OF t _ sample_payload_binding sample_payload_binding
        sample_payload_binding] t by blast
qed



text \<open>
  C19. Under a signature scheme whose signatures verify: the message that sign_key_exchange
  produces is accepted by verify_key_exchange with the same payload and the public key of the
  signer; and whatever verify_key_exchange accepts carries exactly the expected payload, a
  consistent path binding, and a 64 byte signature that verifies over the hash of its canonical
  bytes.
\<close>

theorem signed_exchange_verifies:
  assumes "signature_scheme pr" and "sign_key_exchange pr p (from_private_key pr sk) = Inr m"
  shows "verify_key_exchange pr m p (pr_public pr sk) = Inr ()
    \<and> (verify_key_exchange pr m' q pk = Inr () \<longrightarrow>
        ske_payload m' = q \<and> validate_path_binding q \<and> length (ske_signature m') = 64
        \<and> (\<exists>c. key_exchange_canonical_bytes q = Inr c
             \<and> pr_verify pr pk (pr_sha256 pr c) (ske_signature m') = Some True))"
  using sign_verify_key_exchange [OF assms] verify_key_exchange_ok [of pr m' q pk "()"] by blast

theorem signed_exchange_verifies_witness:
  "verify_key_exchange sample_primitives (sample_exchange Controller) (sample_payload Controller)
    (pr_public sample_primitives (replicate 32 0)) = Inr ()"
  using signed_exchange_verifies [OF sample_signature_scheme sample_signed] by blast

text \<open>
  C20. Two of the structures the program hashes, signs or derives keys from (permissions,
  session context, key exchange, key confirmation, KDF salt and info, candidate id, candidate
  pair, candidate token, relay token, relay open, observe token, observe result, LAN claim)
  never have the same canonical bytes unless they are of the same kind.
\<close>

theorem canonical_domain_separation:
  assumes "message_bytes m = Inr b" and "message_bytes n = Inr b"
  shows "message_tag m = message_tag n"
  using assms by (rule message_domain_separation)

theorem canonical_domain_separation_witness:
  "\<exists>b. message_bytes (MsgKdfInfo sample_kdf) = Inr b \<and> message_bytes (MsgKdfSalt sample_kdf) \<noteq> Inr b"
  using canonical_domain_separation [of "MsgKdfInfo sample_kdf" _ "MsgKdfSalt sample_kdf"] sample_info
  by auto


text \<open>
  C22. From a new scheduler with a limit below the largest usize, after any sequence of enqueues
  and pops: the byte counter equals the wire length of all packets held, does not exceed the
  limit, and every packet is in the queue of its channel class.
\<close>

theorem scheduler_budget:
  assumes "m < usize_max"
  shows "scheduler_ok (snd (run_ops scheduler_step (scheduler_new m) xs))
    \<and> sd_max_queued_bytes (snd (run_ops scheduler_step (scheduler_new m) xs)) = m"
  using channel_queue.run_inv [OF scheduler_new_ok [OF assms]] scheduler_limit [of "scheduler_new m" xs]
  by (simp add: scheduler_new_def)

theorem scheduler_budget_witness:
  "scheduler_ok (snd (run_ops scheduler_step (scheduler_new 100)
      [Enqueue sample_packet, PopNext, Enqueue sample_packet]))"
  using scheduler_budget [of 100 "[Enqueue sample_packet, PopNext, Enqueue sample_packet]"]
  by (simp add: usize_max_def)

text \<open>
  C23. From a new scheduler, over any run and for every channel (realtime input, of which only
  the latest packet is kept, does not count): the packets delivered on that channel followed by
  those still held are exactly the packets accepted on it, in order.
\<close>

theorem scheduler_channel_fifo:
  assumes "m < usize_max"
  shows "concat (map (case_prod (channel_accepted c)) (fst (run_ops scheduler_step (scheduler_new m) xs))) =
    concat (map (case_prod (channel_delivered c)) (fst (run_ops scheduler_step (scheduler_new m) xs)))
      @ channel_held c (snd (run_ops scheduler_step (scheduler_new m) xs))"
  using channel_queue.run_fifo [OF scheduler_new_ok [OF assms], of c xs] by (simp add: channel_held_new)

theorem scheduler_channel_fifo_witness:
  "concat (map (case_prod (channel_accepted InputReliable)) (fst (run_ops scheduler_step
      (scheduler_new 100) [Enqueue sample_packet, PopNext]))) =
    concat (map (case_prod (channel_delivered InputReliable)) (fst (run_ops scheduler_step
      (scheduler_new 100) [Enqueue sample_packet, PopNext])))
    @ channel_held InputReliable (snd (run_ops scheduler_step
      (scheduler_new 100) [Enqueue sample_packet, PopNext]))"
  by (rule scheduler_channel_fifo) (simp add: usize_max_def)

text \<open>
  C24. From any state, as many pops as there are packets held leave the scheduler empty; every
  one of these pops returns a packet, and together they return exactly the packets held, none
  twice.
\<close>

theorem scheduler_drains:
  "scheduler_is_empty (snd (run_ops scheduler_step s (replicate (length (held_packets s)) PopNext)))
    \<and> mset (map (popped \<circ> snd) (fst (run_ops scheduler_step s
        (replicate (length (held_packets s)) PopNext)))) = image_mset Some (mset (held_packets s))"
  by (rule drain) (rule refl)

text \<open>
  C25. If best_success returns a winner then its attempt succeeded with those metrics; no
  succeeded attempt has a kind of higher preference; and when the round trip times of all
  successes lie within the closeness threshold of some lower bound, the winner is least in
  (kind, loss, jitter, rtt, attempt id) order. It returns nothing only when no attempt
  succeeded.
\<close>

theorem race_winner_best:
  "(best_success r = None \<longleftrightarrow> (\<forall>i m. attempt_state r i \<noteq> Some (Succeeded m)))
    \<and> (\<forall>w. best_success r = Some w \<longrightarrow>
        w \<in> set (race_successes r)
        \<and> attempt_state r (wn_attempt_id w) = Some (Succeeded (wn_metrics w))
        \<and> (\<forall>v \<in> set (race_successes r).
             priority (cc_kind (wn_candidate w)) \<le> priority (cc_kind (wn_candidate v))
             \<and> (set (race_successes r) \<subseteq> close_rtts (rf_config r) low \<longrightarrow>
                  metrics_rank w \<le> metrics_rank v)))"
proof (intro conjI allI impI ballI)
  show "best_success r = None \<longleftrightarrow> (\<forall>i m. attempt_state r i \<noteq> Some (Succeeded m))"
    by (rule best_success_None)
  fix w assume "best_success r = Some w"
  then have best: "min_by (compare_winners (rf_config r)) (race_successes r) = Some w"
    by (simp add: best_success_def)
  show w: "w \<in> set (race_successes r)" using by_priority.min_by_least(1) [OF subset_UNIV best] .
  then show "attempt_state r (wn_attempt_id w) = Some (Succeeded (wn_metrics w))"
    by (simp add: race_successes_iff attempt_state_def)
  fix v assume v: "v \<in> set (race_successes r)"
  show "priority (cc_kind (wn_candidate w)) \<le> priority (cc_kind (wn_candidate v))"
    using by_priority.min_by_least(2) [OF subset_UNIV best v] by (simp add: less_eq_transport_kind_def)
  assume "set (race_successes r) \<subseteq> close_rtts (rf_config r) low"
  then show "metrics_rank w \<le> metrics_rank v" using by_metrics.min_by_least(2) best v by blast
qed

theorem race_winner_best_witness:
  "best_success sample_race = Some sample_winner
    \<and> priority (cc_kind (wn_candidate sample_winner)) \<le> priority (cc_kind (wn_candidate sample_loser))
    \<and> metrics_rank sample_winner \<le> metrics_rank sample_loser"
  using race_winner_best [of sample_race] sample_race_won sample_race_lost by blast

text \<open>
  C26. Over any run of a race the attempt numbers handed out for starting are pairwise different
  and were pending at the beginning; and whenever an attempt over the TLS relay is handed out,
  its start delay has passed since the race began.
\<close>

theorem race_starts_each_once:
  "distinct (concat (map started_ids (fst (run_ops race_step r xs))))
    \<and> set (concat (map started_ids (fst (run_ops race_step r xs)))) \<subseteq> pending_ids r
    \<and> (\<forall>a \<in> set (fst (take_due_attempts r now)).
         cc_kind (at_candidate a) = KTls443Relay \<longrightarrow>
         rf_tls_443_start_delay_millis (rf_config r)
           \<le> saturating_sub now (rf_started_at_epoch_millis r))"
  using race_run_started take_due_sound(3) by blast

theorem race_starts_each_once_witness:
  "distinct (concat (map started_ids (fst (run_ops race_step sample_race [TakeDue 500, TakeDue 900]))))
    \<and> DEFAULT_TLS_443_START_DELAY_MILLIS \<le> saturating_sub 900 100"
proof -
  note race = race_starts_each_once [of sample_race "[TakeDue 500, TakeDue 900]" 900]
  from race have "\<forall>a \<in> set (fst (take_due_attempts sample_race 900)).
      cc_kind (at_candidate a) = KTls443Relay \<longrightarrow>
      rf_tls_443_start_delay_millis (rf_config sample_race)
        \<le> saturating_sub 900 (rf_started_at_epoch_millis sample_race)" by blast
  from bspec [OF this sample_tls_due(1)]
  have "DEFAULT_TLS_443_START_DELAY_MILLIS \<le> saturating_sub 900 100"
    by (simp add: sample_candidate_def sample_tls_due(2,3))
  with race show ?thesis by blast
qed

text \<open>
  C27. In every state that a history of calls leads to: selecting a path for a reconnect answers
  ResumeExistingKeys exactly if the machine is reconnecting, the binding is the active one, and
  the last authenticated activity is at most the configured window ago. That time was reported
  by an earlier successful call of the history.
\<close>

theorem key_reuse_sound:
  assumes "conn_history config h m"
  shows "fst (reconnect_path_selected m b now) = Inr ResumeExistingKeys \<longleftrightarrow>
    cm_phase m = Reconnecting \<and> cm_active_binding m = Some b
    \<and> (\<exists>t. cm_last_authenticated_activity m = Some t
         \<and> (\<exists>x \<in> set h. activity_time x = Some t)
         \<and> saturating_sub now t \<le> rc_key_reuse_window_millis config)"
  using resume_iff [OF conn_history_ok [OF assms], of b now] config_history [OF assms]
    last_activity_history [OF assms] by auto

theorem key_reuse_sound_witness:
  "fst (reconnect_path_selected sample_reconnecting sample_binding 1500) = Inr ResumeExistingKeys
    \<and> (\<exists>x \<in> set sample_connects. activity_time x = Some 1000)"
  using key_reuse_sound [OF sample_history, of sample_binding 1500] sample_reconnecting_state
  by (simp add: saturating_sub_def reconnect_config_default_def DEFAULT_RECONNECT_WINDOW_MILLIS_def
      sample_connects_def)

text \<open>
  C28. In every state that a history of calls leads to, the establishment steps up to the
  current phase (start, permissions prepared, candidates gathered, candidates exchanged, path
  selected, secure session established) occur among the successful calls in this order.
\<close>

theorem phases_in_order:
  assumes "conn_history config h m"
  shows "subseq [0..<stages_passed (cm_phase m)] (List.map_filter stage h)"
  using assms by (rule phases_history)

theorem phases_in_order_witness:
  "subseq [0..<6] (List.map_filter stage sample_connects)"
  using phases_in_order [OF sample_history] sample_reconnecting_state by simp

text \<open>
  C29. Once closed by a user or for a reboot the connection keeps forbidding reconnects, holds
  no binding, and over any further run only closing again or failing succeed. In every reachable
  state a refused call leaves the machine unchanged.
\<close>

theorem closed_stays_closed:
  assumes "conn_history config h m" and "x \<in> {CloseByUser, CloseForReboot}"
  shows "(\<forall>(y, r) \<in> set (fst (run_ops conn_step (snd (conn_step m x)) ys)).
      is_ok r \<longrightarrow> y \<in> {CloseByUser, CloseForReboot, Fail})
    \<and> cm_active_binding (snd (run_ops conn_step (snd (conn_step m x)) ys)) = None
    \<and> (\<forall>e. fst (conn_step m y) = Inl e \<longrightarrow> snd (conn_step m y) = m)"
proof -
  let ?m = "snd (conn_step m x)"
  have ok: "conn_ok m" by (rule conn_history_ok [OF assms(1)])
  have forbidden: "conn_ok ?m \<and> cm_reconnect_forbidden ?m"
    using connection.step_inv [OF ok, of x] assms(2)
    by (auto simp: conn_step_def close_by_local_or_remote_user_def close_for_remote_reboot_def
        forbid_reconnect_and_close_def)
  have "z \<in> {CloseByUser, CloseForReboot, Fail}"
    if mem: "(z, r) \<in> set (fst (run_ops conn_step ?m ys))" and success: "is_ok r" for z r
  proof -
    obtain n where "r = fst (conn_step (snd (run_ops conn_step ?m (take n ys))) z)"
      using run_ops_member [OF mem] by blast
    with success show ?thesis
      using forbidden_step(2) closed.run_prefix_inv [OF forbidden, of n ys]
      by (cases r) (metis is_ok.simps(1), metis)
  qed
  moreover have "cm_active_binding (snd (run_ops conn_step ?m ys)) = None"
    using closed.run_inv [OF forbidden, of ys] by (simp add: conn_ok_def)
  ultimately show ?thesis using conn_step_refuses [OF ok] by blast
qed

theorem closed_stays_closed_witness:
  "cm_active_binding (snd (run_ops conn_step (snd (conn_step sample_reconnecting CloseByUser))
     [Start, ReconnectPathSelected sample_binding 1500])) = None"
  using closed_stays_closed [OF sample_history, of CloseByUser "[Start, ReconnectPathSelected sample_binding 1500]"]
  by blast

text \<open>
  C30. Over any sequence of validations by one guard: every accepted relay open had a valid
  token signature and fits its allocation and the current authorization (open session, relay
  allowed, key not revoked and of the expected version, not expired, allowed node, right epoch
  and digest, binding hash, device signature over its canonical bytes); and no combination of
  token, role and nonce is accepted twice.
\<close>

theorem relay_opens_authorized_once:
  "distinct (List.map_filter (case_prod opened_relay) (fst (run_ops (relay_open_step pr) g xs)))
    \<and> (\<forall>(x, r) \<in> set (fst (run_ops (relay_open_step pr) g xs)).
         is_ok r \<longrightarrow> (case x of (p, a, s, valid, now) \<Rightarrow>
           valid \<and> relay_open_authorized pr p a s now))"
proof (intro conjI)
  show "distinct (List.map_filter (case_prod opened_relay) (fst (run_ops (relay_open_step pr) g xs)))"
    using relay_opens.run_issued_distinct [where pr = pr and s = g and xs = xs] by (simp add: relay_opens.issued_keys_def)
  have "valid \<and> relay_open_authorized pr p a s now"
    if mem: "((p, a, s, valid, now), r) \<in> set (fst (run_ops (relay_open_step pr) g xs))"
      and success: "is_ok r"
    for p a s valid now r
  proof -
    obtain n where r: "r = fst (relay_open_step pr (snd (run_ops (relay_open_step pr) g (take n xs)))
        (p, a, s, valid, now))"
      using run_ops_member [OF mem] by blast
    obtain u where "r = Inr u" using success by (cases r) simp_all
    then have "relay_open_validate pr (snd (run_ops (relay_open_step pr) g (take n xs))) p a s valid now =
        (Inr u, snd (relay_open_validate pr (snd (run_ops (relay_open_step pr) g (take n xs)))
          p a s valid now))"
      using r by (simp add: relay_open_step_def prod_eq_iff)
    then show ?thesis using relay_open_validate_ok by blast
  qed
  then show "\<forall>(x, r) \<in> set (fst (run_ops (relay_open_step pr) g xs)).
      is_ok r \<longrightarrow> (case x of (p, a, s, valid, now) \<Rightarrow>
        valid \<and> relay_open_authorized pr p a s now)"
    by fastforce
qed

theorem relay_opens_authorized_once_witness:
  "let x = (sample_relay_open, sample_allocation, sample_snapshot, True, 20);
       tr = fst (run_ops (relay_open_step sample_primitives) \<lparr>og_seen = {}\<rparr> [x, x])
   in map snd tr = [Inr (), Inl NonceReplay]
      \<and> distinct (List.map_filter (case_prod opened_relay) tr)"
  using relay_opens_authorized_once [of sample_primitives "\<lparr>og_seen = {}\<rparr>"
      "[(sample_relay_open, sample_allocation, sample_snapshot, True, 20),
        (sample_relay_open, sample_allocation, sample_snapshot, True, 20)]"]
    sample_opens_results
  by (simp add: Let_def)

text \<open>
  C31. Over any sequence of probe validations at non-decreasing times, where the authorizations
  presented for one session, candidate, role and nonce all carry the same expiry time: no such
  combination is accepted twice.
\<close>

theorem probes_accepted_once:
  assumes "\<forall>x \<in> set xs. ca_expires_at_epoch_millis (po_authorization x) = e (probe_op_key x)"
  shows "distinct (List.map_filter (case_prod probe_accepted)
    (fst (run_ops (probe_step sha) (\<lparr>pg_seen = Map.empty\<rparr>, now) xs)))"
  using probes.run_issued_distinct [of e "(\<lparr>pg_seen = Map.empty\<rparr>, now)" sha xs] probe_run_at [OF assms]
  by (simp add: probes.issued_keys_def probe_inv_def)

theorem probes_accepted_once_witness:
  "distinct (List.map_filter (case_prod probe_accepted)
    (fst (run_ops (probe_step (\<lambda>_. replicate 32 0)) (\<lparr>pg_seen = Map.empty\<rparr>, 0)
      [sample_probe 50, sample_probe 50])))"
  by (rule probes_accepted_once [where e = "\<lambda>_. 50"]) (simp add: sample_probe_def)

text \<open>
  C32. Over any sequence of LAN candidate requests on a fresh guard: the claims accepted are
  pairwise different; no session and device ever holds more than eight candidates; and a request
  accepted in any state is for the expected session, device and role, its endpoint is a
  canonical private address with an ephemeral port, its candidate id is the hash of its fields,
  and its claim is recent, hashed correctly and signed by the device key.
\<close>

theorem lan_guard_sound:
  "distinct (List.map_filter (case_prod lan_claim_key)
      (fst (run_ops (lan_step pr) lan_candidate_guard_default xs)))
    \<and> lan_guard_ok (snd (run_ops (lan_step pr) lan_candidate_guard_default xs))
    \<and> (fst (lan_validate_request pr g q sid dev role pk now) = Inr c \<longrightarrow>
        c = requested_candidate q \<and> cr_session_id q = sid \<and> cr_device_id q = dev \<and> cr_role q = role
        \<and> (\<exists>nonce. lan_request_authentic pr q pk now nonce))"
proof (intro conjI impI)
  show "distinct (List.map_filter (case_prod lan_claim_key)
      (fst (run_ops (lan_step pr) lan_candidate_guard_default xs)))"
    using lan_claims.run_issued_distinct [OF lan_guard_default_ok, of pr xs]
    by (simp add: lan_claims.issued_keys_def)
  show "lan_guard_ok (snd (run_ops (lan_step pr) lan_candidate_guard_default xs))"
    by (rule lan_claims.run_inv [OF lan_guard_default_ok])
  assume "fst (lan_validate_request pr g q sid dev role pk now) = Inr c"
  then obtain nonce where "lan_request_checked pr q sid dev role pk now = Inr (c, nonce)"
    using lan_validate_cases [OF prod.collapse [symmetric]] by (metis sum.distinct(1) sum.inject(2))
  from lan_request_checked_ok [OF this]
  show "c = requested_candidate q" "cr_session_id q = sid" "cr_device_id q = dev" "cr_role q = role"
    "\<exists>nonce. lan_request_authentic pr q pk now nonce" by blast+
qed

theorem lan_guard_sound_witness:
  "\<exists>nonce. lan_request_authentic sample_primitives sample_lan_request (replicate 32 0) 110 nonce"
  using lan_guard_sound [of sample_primitives _ lan_candidate_guard_default sample_lan_request 1
      "''d''" Controller "replicate 32 0" 110] sample_lan_accepted
  by (simp add: lan_step_def)

text \<open>
  C33. For a prefix length within the address width, an address is in the local network exactly
  when it agrees with the network address on all bits of the prefix; prefix length zero contains
  everything.
\<close>

theorem network_contains_prefix:
  "(p \<le> 32 \<longrightarrow>
      (network_contains \<lparr>ln_address = IpV4 l, ln_prefix_len = p\<rparr> (IpV4 r) \<longleftrightarrow>
        (\<forall>i. 32 - unat p \<le> i \<longrightarrow> i < 32 \<longrightarrow> bit l i = bit r i)))
    \<and> (p \<le> 128 \<longrightarrow>
      (network_contains \<lparr>ln_address = IpV6 l', ln_prefix_len = p\<rparr> (IpV6 r') \<longleftrightarrow>
        (\<forall>i. 128 - unat p \<le> i \<longrightarrow> i < 128 \<longrightarrow> bit l' i = bit r' i)))"
  using contains_v4_iff contains_v6_iff by blast

theorem network_contains_prefix_witness:
  "network_contains \<lparr>ln_address = IpV4 5, ln_prefix_len = 0\<rparr> (IpV4 9)"
  using network_contains_prefix [of 0 5 9] by simp



text \<open>
  C35. Encoding a well-formed frame of the session within the limits and decoding it gives the
  frame back; conversely every byte string that decodes is the encoding of the decoded frame,
  which is well-formed, belongs to the session and respects the payload limit.
\<close>

theorem wire_frame_roundtrip:
  "(frame_ok f \<longrightarrow> validate_for f sid l = Inr () \<longrightarrow>
      from_wire_bytes (to_wire_bytes f) sid l = Inr f)
    \<and> (from_wire_bytes bs sid l = Inr g \<longrightarrow>
      to_wire_bytes g = bs \<and> frame_ok g \<and> validate_for g sid l = Inr ())"
  using from_to_wire_bytes to_from_wire_bytes by blast

theorem wire_frame_roundtrip_witness:
  "from_wire_bytes (to_wire_bytes sample_frame) 1 data_channel_limits_default = Inr sample_frame"
  using wire_frame_roundtrip [of sample_frame 1 data_channel_limits_default] sample_frame_ok by blast

text \<open>
  C36. An observe request with 32 byte nonce and hash and a UTF-8 device id decodes from its
  encoding; and every datagram within the size limit that decodes is the encoding of the decoded
  request.
\<close>

theorem observe_request_codec:
  "(encode_observe_request a = Inr bs \<longrightarrow> utf8_valid (str_bytes (oa_device_id a)) \<longrightarrow>
      length (oa_local_socket_nonce a) = 32 \<longrightarrow> length (oa_binding_hash a) = 32 \<longrightarrow>
      decode_observe_request bs = Inr a)
    \<and> (decode_observe_request ds = Inr b \<longrightarrow> length ds \<le> MAX_OBSERVE_DATAGRAM_BYTES \<longrightarrow>
      encode_observe_request b = Inr ds)"
  using decode_encode_observe_request encode_decode_observe_request by blast

theorem observe_request_codec_witness:
  "\<exists>bs. encode_observe_request sample_observe = Inr bs \<and> decode_observe_request bs = Inr sample_observe"
  using observe_request_codec [of sample_observe sample_request] sample_observe_request
  by (simp add: sample_observe_def sample_texts)



text \<open>
  C38. The relay server has its own code for the canonical bytes of an open and for the token
  binding hash. On an open that matches its allocation they succeed together with the code of
  the protocol library that the client uses, with the same bytes and the same hash.
\<close>

theorem relay_signed_bytes_agree:
  assumes "relay_open_matches_allocation p a" "is_relay (ro_transport p)"
  shows "(server_open_canonical_bytes p = Inr bs \<longleftrightarrow> relay_open_canonical_bytes p = Inr bs)
    \<and> (server_token_binding_hash env (claims_from_open p) = Inr h \<longleftrightarrow>
        relay_token_binding_hash (pr_sha256 (re_primitives env)) a = Inr h)"
  using server_open_bytes_eq server_binding_hash_eq [OF assms] by blast

theorem relay_signed_bytes_agree_witness:
  "relay_open_matches_allocation (relayed_open Controller) (relayed_allocation Controller)
    \<and> relay_token_binding_hash (pr_sha256 (re_primitives sample_relay_env)) (relayed_allocation Controller) = Inr (replicate 32 0)"
  using relay_signed_bytes_agree [OF relayed_matches, where env = sample_relay_env and h = "replicate 32 0"] relayed_binding [of Controller]
    relayed_matches(1) [of Controller] by blast

text \<open>
  C39. Whatever sequence of calls is made on the ledger of a transfer, if finishing it succeeds,
  then the bytes of all chunks it accepted, in order, have the announced hash and the announced
  length, which is within the limit, under a file name that is safe to use.
\<close>

theorem transfer_takes_announced_file:
  assumes "ledger_new name sz = Inr l" "list_all short_chunk xs"
    and "fst (ledger_finish sha (snd (run_ops (ledger_step sha) l xs)) h) = Inr ()"
  shows "sha (taken (fst (run_ops (ledger_step sha) l xs))) = h
    \<and> length (taken (fst (run_ops (ledger_step sha) l xs))) = unat sz
    \<and> unat sz \<le> unat MAX_FILE_TRANSFER_BYTES \<and> validate_file_name name sz = Inr ()"
  by (rule transfer_complete [OF assms])

theorem transfer_takes_announced_file_witness:
  "taken (fst (run_ops (ledger_step (\<lambda>bs. bs)) transfer_start transfer_calls)) = [1, 2, 3]
    \<and> length (taken (fst (run_ops (ledger_step (\<lambda>bs. bs)) transfer_start transfer_calls))) = 3"
  using transfer_takes_announced_file [OF transfer_started transfer_short transfer_finished] by simp



end
